(* ===== verification/Prelude.thy ===== *)
theory Prelude
  imports "HOL-Library.Word" "HOL-Library.Finite_Map" "HOL-Library.List_Lexorder"
    "HOL-Library.Char_ord" "HOL-Library.Product_Lexorder" "HOL-Library.Multiset"
begin

text \<open>
  Shared vocabulary of the development: the machine integers of the runtime, the decimal
  rendering that Rust's format strings use, and the general facts on finite maps, finite sets
  and lists that the components rely on.

  \<^item> \<open>u64\<close> is a 64 bit word: plain \<open>+\<close> wraps, \<open>sat_add\<close> and \<open>sat_sub\<close> are
    \<open>saturating_add\<close> and \<open>saturating_sub\<close>. A \<open>usize\<close> that counts elements of a collection
    in memory is a \<open>nat\<close>, with the saturation at \<open>usize_max\<close> written out.
  \<^item> \<open>HashMap\<close> and \<open>BTreeMap\<close> are finite maps (\<open>fmap\<close>), \<open>HashSet\<close> and \<open>BTreeSet\<close>
    finite sets (\<open>fset\<close>); iteration is in ascending key order. That is the order of the
    ordered containers, and one of the orders a hashed container may produce.
  \<^item> A \<open>Result\<close> is a sum with the error on the left. A function that can panic returns an
    option, and \<open>None\<close> is the panic.
\<close>

named_theorems pool_frame
  \<open>fields of the task pool that an operation leaves alone\<close>

named_theorems sat_simps
  \<open>saturating arithmetic read as natural numbers\<close>

section \<open>Machine integers\<close>

type_synonym u64 = "64 word"

abbreviation u64_max :: u64 where
  "u64_max \<equiv> - 1"

definition sat_add :: "u64 \<Rightarrow> u64 \<Rightarrow> u64" where
  "sat_add a b = (if a + b < a then u64_max else a + b)"

definition sat_sub :: "u64 \<Rightarrow> u64 \<Rightarrow> u64" where
  "sat_sub a b = (if a < b then 0 else a - b)"

definition usize_max :: nat where
  "usize_max = 2 ^ 64 - 1"

definition usize_sat_add :: "nat \<Rightarrow> nat \<Rightarrow> nat" where
  "usize_sat_add a b = min (a + b) usize_max"

definition usize_sat_mul :: "nat \<Rightarrow> nat \<Rightarrow> nat" where
  "usize_sat_mul a b = min (a * b) usize_max"

text \<open>Executable forms that reach for \<open>usize_max\<close> only on overflow.\<close>

lemma usize_sat_add_code [code]:
  "usize_sat_add a b = (if int a + int b \<le> 18446744073709551615 then a + b else usize_max)"
  by (auto simp: usize_sat_add_def usize_max_def)

lemma usize_sat_mul_code [code]:
  "usize_sat_mul a b = (if int a * int b \<le> 18446744073709551615 then a * b else usize_max)"
proof -
  have "int a * int b \<le> 18446744073709551615 \<longleftrightarrow> a * b \<le> 18446744073709551615"
    by (metis of_nat_le_iff of_nat_mult of_nat_numeral)
  then show ?thesis
    by (auto simp: usize_sat_mul_def usize_max_def)
qed

text \<open>The casts \<open>as i64\<close> reinterpret the 64 bits as a signed number.\<close>

definition u64_as_i64 :: "u64 \<Rightarrow> int" where
  "u64_as_i64 x = sint x"

definition usize_as_i64 :: "nat \<Rightarrow> int" where
  "usize_as_i64 n = sint (of_nat n :: u64)"

section \<open>Decimal rendering\<close>

definition digit_char :: "nat \<Rightarrow> char" where
  "digit_char d = char_of (48 + d)"

fun show_nat :: "nat \<Rightarrow> string" where
  "show_nat n = (if n < 10 then [digit_char n]
     else show_nat (n div 10) @ [digit_char (n mod 10)])"

definition show_u64 :: "u64 \<Rightarrow> string" where
  "show_u64 x = show_nat (unat x)"

declare show_nat.simps [simp del]

section \<open>Iteration over finite maps\<close>

definition fm_keys :: "('k::linorder, 'v) fmap \<Rightarrow> 'k list" where
  "fm_keys m = sorted_list_of_fset (fmdom m)"

definition fm_values :: "('k::linorder, 'v) fmap \<Rightarrow> 'v list" where
  "fm_values m = map snd (sorted_list_of_fmap m)"

definition fm_get_or :: "'v \<Rightarrow> ('k, 'v) fmap \<Rightarrow> 'k \<Rightarrow> 'v" where
  "fm_get_or d m k = (case fmlookup m k of None \<Rightarrow> d | Some v \<Rightarrow> v)"

section \<open>Saturating arithmetic\<close>

lemma unat_u64_max: "unat u64_max = 2 ^ 64 - 1"
  by (simp add: unsigned_minus_1_eq_mask mask_eq_exp_minus_1)

lemma unat_u64_less: "unat (a :: u64) < 2 ^ 64"
proof -
  have "unat a < 2 ^ LENGTH(64)"
    by (rule unsigned_less)
  then show ?thesis by simp
qed

lemma unat_sat_add [sat_simps]: "unat (sat_add a b) = min (unat a + unat b) (2 ^ 64 - 1)"
proof (cases "unat a + unat b < 2 ^ 64")
  case True
  then have "unat (a + b) = unat a + unat b"
    by (simp add: unat_word_ariths)
  then have "\<not> a + b < a"
    by (simp add: word_less_nat_alt)
  with True \<open>unat (a + b) = unat a + unat b\<close> show ?thesis
    by (simp add: sat_add_def)
next
  case False
  have "unat a < 2 ^ 64" "unat b < 2 ^ 64"
    by (rule unat_u64_less)+
  with False have "unat (a + b) = unat a + unat b - 2 ^ 64"
    by (simp add: unat_word_ariths mod_if)
  with \<open>unat b < 2 ^ 64\<close> False have "a + b < a"
    by (simp add: word_less_nat_alt)
  with False show ?thesis
    by (simp add: sat_add_def unat_u64_max)
qed

lemma unat_sat_sub [sat_simps]: "unat (sat_sub a b) = unat a - unat b"
  by (auto simp: sat_sub_def word_less_nat_alt unat_sub word_le_nat_alt)

lemma sat_add_ge: "a \<le> sat_add a b"
  by (simp add: word_le_nat_alt unat_sat_add) (use unat_u64_less [of a] in simp)

lemma sat_add_one_gt: "a \<noteq> u64_max \<Longrightarrow> a < sat_add a 1"
proof -
  assume "a \<noteq> u64_max"
  then have "unat a \<noteq> 2 ^ 64 - 1"
    by (metis unat_u64_max word_unat_eq_iff)
  then have "unat a < 2 ^ 64 - 1"
    using unat_u64_less [of a] by simp
  then show ?thesis
    by (simp add: word_less_nat_alt unat_sat_add)
qed

lemma word_le_succ_less: "(s :: u64) \<noteq> u64_max \<Longrightarrow> k < s + 1 \<longleftrightarrow> k \<le> s"
proof -
  assume "s \<noteq> u64_max"
  then have "unat s \<noteq> 2 ^ 64 - 1"
    by (metis unat_u64_max word_unat_eq_iff)
  then have "unat (s + 1) = unat s + 1"
    using unat_u64_less [of s] by (simp add: unat_word_ariths)
  then show ?thesis
    by (simp add: word_less_nat_alt word_le_nat_alt less_Suc_eq_le)
qed

section \<open>Decimal rendering is injective\<close>

lemma digit_char_inj: "a < 10 \<Longrightarrow> b < 10 \<Longrightarrow> digit_char a = digit_char b \<longleftrightarrow> a = b"
  by (auto simp: digit_char_def char_of_eq_iff take_bit_eq_mod)

lemma show_nat_nonempty [simp]: "show_nat n \<noteq> []"
  by (subst show_nat.simps) simp

lemma set_show_nat: "c \<in> set (show_nat n) \<Longrightarrow> \<exists>d < 10. c = digit_char d"
proof (induction n rule: show_nat.induct)
  case (1 n)
  show ?case
  proof (cases "n < 10")
    case True
    with "1.prems" show ?thesis
      by (auto simp: show_nat.simps [of n])
  next
    case False
    have "n mod 10 < 10" by simp
    with False "1.prems" "1.IH" show ?thesis
      by (auto simp: show_nat.simps [of n] intro: exI [of _ "n mod 10"])
  qed
qed

lemma show_nat_inj [simp]: "show_nat a = show_nat b \<longleftrightarrow> a = b"
proof (induction a arbitrary: b rule: show_nat.induct)
  case (1 a)
  show ?case
  proof (cases "a < 10")
    case True
    then show ?thesis
      using show_nat_nonempty [of "b div 10"]
      by (auto simp: show_nat.simps [of a] show_nat.simps [of b] digit_char_inj
          simp del: show_nat_nonempty)
  next
    case False
    show ?thesis
    proof (cases "b < 10")
      case True
      with False show ?thesis
        by (auto simp: show_nat.simps [of a] show_nat.simps [of b])
    next
      case b: False
      have "show_nat a = show_nat b \<longleftrightarrow> a div 10 = b div 10 \<and> a mod 10 = b mod 10"
        using False b "1.IH" [of "b div 10"]
        by (simp add: show_nat.simps [of a] show_nat.simps [of b] digit_char_inj)
      then show ?thesis
        by (metis div_mult_mod_eq)
    qed
  qed
qed

lemma show_u64_inj [simp]: "show_u64 a = show_u64 b \<longleftrightarrow> a = b"
  by (simp add: show_u64_def word_unat_eq_iff)

lemma dash_not_in_show_u64: "CHR ''-'' \<notin> set (show_u64 a)"
proof
  assume "CHR ''-'' \<in> set (show_u64 a)"
  then obtain d where d: "d < 10" "CHR ''-'' = digit_char d"
    using set_show_nat by (auto simp: show_u64_def)
  from d(2) have "of_char CHR ''-'' = (of_char (digit_char d) :: nat)"
    by (rule arg_cong)
  with d(1) show False
    by (simp add: digit_char_def)
qed

text \<open>A separator that does not occur in a part cuts the joined string uniquely.\<close>

lemma append_sep_inj:
  assumes "c \<notin> set xs" and "c \<notin> set ys"
  shows "xs @ c # us = ys @ c # vs \<longleftrightarrow> xs = ys \<and> us = vs"
  using assms
proof (induction xs arbitrary: ys)
  case Nil
  then show ?case by (cases ys) auto
next
  case (Cons x xs)
  then show ?case by (cases ys) auto
qed

lemma append_sep_inj_last:
  assumes "c \<notin> set us" and "c \<notin> set vs"
  shows "xs @ c # us = ys @ c # vs \<longleftrightarrow> xs = ys \<and> us = vs"
proof -
  have "xs @ c # us = ys @ c # vs \<longleftrightarrow> rev us @ c # rev xs = rev vs @ c # rev ys"
    by (metis append.assoc append_Cons append_Nil rev.simps(2) rev_append rev_rev_ident)
  also have "\<dots> \<longleftrightarrow> xs = ys \<and> us = vs"
    using assms append_sep_inj [of c "rev us" "rev vs"] by auto
  finally show ?thesis .
qed

section \<open>Finite maps and finite sets\<close>

lemma set_fm_keys [simp]: "set (fm_keys m) = fmdom' m"
  by (simp add: fm_keys_def fmdom'_alt_def)

lemma distinct_fm_keys [simp]: "distinct (fm_keys m)"
  by (simp add: fm_keys_def sorted_list_of_fset.rep_eq)

lemma sorted_fm_keys [simp]: "sorted (fm_keys m)"
  by (simp add: fm_keys_def sorted_list_of_fset.rep_eq)

lemma fm_values_keys: "fm_values m = map (\<lambda>k. the (fmlookup m k)) (fm_keys m)"
  by (simp add: fm_values_def sorted_list_of_fmap_def fm_keys_def)

lemma set_fm_values: "set (fm_values m) = {v. \<exists>k. fmlookup m k = Some v}"
  by (force simp: fm_values_keys fmdom'_alt_def fmlookup_dom_iff image_iff)

lemma fmdom'_lookup: "k \<in> fmdom' m \<longleftrightarrow> fmlookup m k \<noteq> None"
  by (simp add: fmdom'_notI fmlookup_dom'_iff)

lemma fmupd_fmdrop_same [simp]: "fmupd k v (fmdrop k m) = fmupd k v m"
  by (rule fmap_ext) simp

lemma fmdrop_lookup_None [simp]: "fmlookup m k = None \<Longrightarrow> fmdrop k m = m"
  by (rule fmap_ext) auto

lemma fmlookup_upd_fun [simp]: "fmlookup (fmupd k v m) = (fmlookup m)(k := Some v)"
  by (rule ext) simp

lemma fmlookup_drop_fun [simp]: "fmlookup (fmdrop k m) = (fmlookup m)(k := None)"
  by (rule ext) simp

lemma restrict_UNIV [simp]: "m |` UNIV = m"
  by (rule ext) simp

section \<open>Lists\<close>

lemma distinct_concat_map:
  assumes "distinct xs" and "\<And>x. x \<in> set xs \<Longrightarrow> distinct (f x)"
    and "\<And>x y z. x \<in> set xs \<Longrightarrow> y \<in> set xs \<Longrightarrow> z \<in> set (f x) \<Longrightarrow> z \<in> set (f y) \<Longrightarrow> x = y"
  shows "distinct (concat (map f xs))"
  using assms
proof (induction xs)
  case (Cons x xs)
  have "set (f x) \<inter> (\<Union>y \<in> set xs. set (f y)) = {}"
  proof (rule ccontr)
    assume "set (f x) \<inter> (\<Union>y \<in> set xs. set (f y)) \<noteq> {}"
    then obtain z y where "z \<in> set (f x)" "y \<in> set xs" "z \<in> set (f y)" by blast
    with Cons.prems(1) Cons.prems(3) [of x y z] show False by auto
  qed
  moreover have "distinct (concat (map f xs))"
    using Cons.prems by (intro Cons.IH) auto
  ultimately show ?case
    using Cons.prems(2) by simp
qed simp

end
