(* ===== verification/Contracts.thy ===== *)
theory Contracts
  imports Prelude
begin

text \<open>
  The serializable data of \<open>crates/mutsuki-runtime-contracts\<close> that the core works on: tasks,
  leases, awaits, resource descriptors, runner descriptors, errors, and the constructors the
  core calls. Structs are records and enums are datatypes; where two structs have a field of
  the same name, the later one carries a prefix. A JSON value (\<open>serde_json::Value\<close>) is the type
  parameter \<open>'v\<close>: nothing in the core looks inside one.
\<close>

section \<open>Identifiers, scalars and errors\<close>

type_synonym ref_id_t = string
type_synonym task_id_t = string
type_synonym runner_id_t = string
type_synonym executor_id_t = string
type_synonym protocol_id_t = string
type_synonym surface_id_t = string

text \<open>A float is kept as its 64 bit pattern: no code of the core computes with it.\<close>

datatype scalar_value =
    SString string
  | SInt int
  | SFloat u64
  | SBool bool

datatype runtime_error = RuntimeError
  (err_code: string)
  (err_source: string)
  (err_route: string)
  (lost_capability: "string option")
  (recovery: "string option")
  (cause: "runtime_error option")
  (evidence: "(string, scalar_value) fmap")

type_synonym 'a runtime_result = "runtime_error + 'a"

definition runtime_error_new :: "string \<Rightarrow> string \<Rightarrow> string \<Rightarrow> runtime_error" where
  "runtime_error_new code src route = RuntimeError code src route None None None fmempty"

text \<open>\<open>RuntimeFailure\<close> boxes an error; the box is not modelled.\<close>

definition runtime_failure :: "string \<Rightarrow> string \<Rightarrow> string \<Rightarrow> runtime_error" where
  "runtime_failure code src route = runtime_error_new code src route"

fun insert_evidence :: "string \<Rightarrow> scalar_value \<Rightarrow> runtime_error \<Rightarrow> runtime_error" where
  "insert_evidence k x (RuntimeError c s r l rec ca ev) =
     RuntimeError c s r l rec ca (fmupd k x ev)"

definition ERR_RUNTIME_HOST_FAILED :: string where
  "ERR_RUNTIME_HOST_FAILED = ''runtime.host_failed''"
definition ERR_RUNTIME_NOT_ACCEPTING :: string where
  "ERR_RUNTIME_NOT_ACCEPTING = ''runtime.not_accepting''"
definition ERR_RUNTIME_ABORTED :: string where
  "ERR_RUNTIME_ABORTED = ''runtime.aborted''"
definition ERR_CAPABILITY_EXHAUSTED :: string where
  "ERR_CAPABILITY_EXHAUSTED = ''capability.exhausted''"
definition ERR_TASK_NOT_FOUND :: string where
  "ERR_TASK_NOT_FOUND = ''task.not_found''"
definition ERR_TASK_DUPLICATE :: string where
  "ERR_TASK_DUPLICATE = ''task.duplicate''"
definition ERR_TASK_CLAIM_CONFLICT :: string where
  "ERR_TASK_CLAIM_CONFLICT = ''task.claim_conflict''"
definition ERR_STATE_CONFLICT :: string where
  "ERR_STATE_CONFLICT = ''state.conflict''"
definition ERR_RESOURCE_NOT_FOUND :: string where
  "ERR_RESOURCE_NOT_FOUND = ''resource.not_found''"
definition ERR_RESOURCE_LEASE_EXPIRED :: string where
  "ERR_RESOURCE_LEASE_EXPIRED = ''resource.lease_expired''"
definition ERR_RESOURCE_GENERATION_MISMATCH :: string where
  "ERR_RESOURCE_GENERATION_MISMATCH = ''resource.generation_mismatch''"
definition ERR_RELOAD_BLOCKED :: string where
  "ERR_RELOAD_BLOCKED = ''plugin.reload_blocked''"

section \<open>Batch entries\<close>

datatype dispatch_lane =
    LaneControl | LaneInteractive | LaneNormal | LaneBackground | LaneBulk

datatype ordering_requirement =
    OrdNone
  | PreserveSubmitOrder
  | SameResourceOrder string
  | StrictSequence string

datatype resource_access_mode = AccessRead | AccessWrite | AccessExclusiveWrite

record resource_requirement =
  req_ref_id :: string
  req_mode :: resource_access_mode
  req_expected_version :: "u64 option"

section \<open>Tasks\<close>

datatype task_status =
    Created | Ready | Running | Waiting | Blocked
  | Completed | Failed | Cancelled | Expired | DeadLetter

record version_expectation =
  exp_ref_id :: string
  exp_expected_version :: u64

record 'v task =
  task_id :: string
  protocol_id :: string
  priority :: int
  ready_at_step :: "u64 option"
  payload :: 'v
  input_refs :: "string list"
  output_ref :: "string option"
  continuation_ref :: "string option"
  target_binding_id :: "string option"
  task_lease_id :: "string option"
  trace_id :: "string option"
  expected_versions :: "version_expectation list"
  correlation_id :: "string option"
  idempotency_key :: "string option"
  runner_hint :: "string option"
  registry_generation :: u64
  required_surfaces :: "string list"
  task_dispatch_lane :: dispatch_lane
  task_ordering :: ordering_requirement
  resource_requirements :: "resource_requirement list"
  created_sequence :: u64

definition task_new :: "string \<Rightarrow> string \<Rightarrow> 'v \<Rightarrow> 'v task" where
  "task_new tid prot pl =
     \<lparr>task_id = tid, protocol_id = prot, priority = 0, ready_at_step = None, payload = pl,
      input_refs = [], output_ref = None, continuation_ref = None, target_binding_id = None,
      task_lease_id = None, trace_id = None, expected_versions = [], correlation_id = None,
      idempotency_key = None, runner_hint = None, registry_generation = 0,
      required_surfaces = [], task_dispatch_lane = LaneNormal, task_ordering = OrdNone,
      resource_requirements = [], created_sequence = 0\<rparr>"

definition derive_with_protocol :: "'v task \<Rightarrow> string \<Rightarrow> string \<Rightarrow> 'v task" where
  "derive_with_protocol t tid prot = (task_new tid prot (payload t))
     \<lparr>priority := priority t,
      trace_id := trace_id t,
      correlation_id := (case correlation_id t of None \<Rightarrow> Some (task_id t) | Some c \<Rightarrow> Some c),
      idempotency_key := idempotency_key t,
      input_refs := input_refs t,
      expected_versions := expected_versions t,
      required_surfaces := required_surfaces t,
      task_dispatch_lane := task_dispatch_lane t,
      task_ordering := task_ordering t,
      resource_requirements := resource_requirements t,
      registry_generation := registry_generation t\<rparr>"

record task_lease =
  lease_id :: string
  lease_task_id :: string
  lease_attempt_generation :: u64
  lease_runner_id :: string
  lease_executor_id :: string
  lease_registry_generation :: u64
  acquired_at_step :: u64
  expires_at_step :: "u64 option"

datatype cancel_policy = Cascade | Detach | Shield

record task_handle =
  h_task_id :: string
  h_protocol_id :: string
  h_target_binding_id :: "string option"
  h_cancel_policy :: cancel_policy
  h_trace_id :: "string option"
  h_correlation_id :: "string option"

datatype 'v task_outcome =
    OutcomeCompleted string "'v option" "string option"
  | OutcomeFailed string runtime_error
  | OutcomeCancelled string "string option"
  | OutcomeExpired string "string option"
  | OutcomeDeadLetter string "string option"

datatype wake_condition =
    Timer u64
  | RetryAfter u64
  | ResourceEvent string
  | ExternalSignal string
  | ManualWake

section \<open>Resources\<close>

record resource_id =
  kind_id :: string
  slot_id :: string
  rid_generation :: u64
  rid_version :: u64

datatype resource_semantic =
    FrozenValue | VersionedSnapshot | ReadOnlyFact | CowVersionedState
  | CapabilityResource | StreamResource | TransactionResource

datatype resource_seal_state = Writable | Sealed

datatype resource_lifetime =
    BorrowedUntilTaskEnd | LeaseUntil u64 | Persistent | ExternalManaged

datatype resource_access =
    Inline
  | MmapFile string u64 u64 bool
  | SharedMemory string u64 u64 bool
  | Blob string string
  | Stream string
  | ProviderRpc string string

record lease_token =
  token_id :: string
  tok_ref_id :: string
  tok_owner :: string
  tok_mode :: string
  tok_expires_at_step :: "u64 option"
  tok_generation :: u64

record resource_ref =
  ref_id :: string
  resource_ident :: resource_id
  semantic :: resource_semantic
  provider_id :: string
  resource_kind :: string
  schema :: string
  version :: u64
  generation :: u64
  access :: resource_access
  size_hint :: "u64 option"
  content_hash :: "string option"
  lifetime :: resource_lifetime
  ref_lease :: "lease_token option"
  seal_state :: resource_seal_state

record task_step_continuation =
  continuation :: resource_ref
  wake_cond :: "wake_condition option"
  wake_reason :: "string option"

record task_await =
  parent_task_id :: string
  await_child :: task_handle
  await_continuation :: task_step_continuation
  await_cancel_policy :: cancel_policy

section \<open>State deltas\<close>

datatype conflict_policy =
    ConflictRetry | ConflictMerge | ConflictDiscard | ConflictFail | EmitConflictTask

record 'v state_delta =
  target_ref :: string
  delta_expected_version :: u64
  patch :: 'v
  delta_conflict_policy :: conflict_policy

section \<open>Runners\<close>

datatype execution_class = Control | Orchestration | Io | Cpu | Blocking | Script

datatype invocation_mode = SyncExclusive | AsyncReentrant | AsyncExclusive | ExternalProcess

datatype runner_concurrency =
    Exclusive
  | Reentrant nat nat
  | Sharded nat

fun max_inflight_batches :: "runner_concurrency \<Rightarrow> nat" where
  "max_inflight_batches Exclusive = 1"
| "max_inflight_batches (Reentrant b e) = b"
| "max_inflight_batches (Sharded n) = n"

fun max_inflight_entries :: "runner_concurrency \<Rightarrow> nat \<Rightarrow> nat" where
  "max_inflight_entries Exclusive fallback = fallback"
| "max_inflight_entries (Reentrant b e) fallback = e"
| "max_inflight_entries (Sharded n) fallback = usize_sat_mul fallback n"

datatype runner_purity = Pure | Committer | Effectful

datatype runner_mode = ScalarAdapter | NativeBatch | BatchMode

datatype runner_side_effect = SideNone | SideResource | SideExternal | SideUnknown

record runner_batch_capability =
  batch_mode :: runner_mode
  preferred_batch_size :: nat
  max_batch_entries :: nat
  max_entry_concurrency :: nat
  cap_max_inflight_batches :: nat
  scalar_thread_safe :: bool
  scalar_reentrant :: bool
  partial_failure :: bool
  preserve_order :: bool
  side_effect :: runner_side_effect

datatype payload_layout = LayoutRow | LayoutColumnar | LayoutBinaryPacked | LayoutResourceBacked

record runner_payload_capability =
  layouts :: "payload_layout list"
  preferred_layout :: payload_layout
  zero_copy :: bool

record runner_resource_capability =
  batch_read :: bool
  batch_write :: bool
  requires_resource_plan :: bool
  supports_shared_memory :: bool

record runner_ordering_capability =
  ordering_default :: ordering_requirement
  supports_sequence :: bool
  supports_same_resource_order :: bool

datatype timeout_granularity = TimeoutBatch | TimeoutEntry

record runner_control_capability =
  entry_cancel :: bool
  batch_cancel :: bool
  timeout_granularity :: timeout_granularity

record 'v runner_descriptor =
  runner_id :: string
  plugin_id :: string
  plugin_generation :: u64
  accepted_protocol_ids :: "string list"
  purity :: runner_purity
  execution_class :: execution_class
  invocation_mode :: invocation_mode
  concurrency :: runner_concurrency
  input_schema :: 'v
  output_schema :: 'v
  rd_batch :: runner_batch_capability
  rd_payload :: runner_payload_capability
  rd_resources :: runner_resource_capability
  rd_ordering :: runner_ordering_capability
  rd_control :: runner_control_capability
  rd_metadata :: "(string, scalar_value) fmap"
  contract_surfaces :: "string list"

definition runner_batch_capability_default :: runner_batch_capability where
  "runner_batch_capability_default =
     \<lparr>batch_mode = ScalarAdapter, preferred_batch_size = 1, max_batch_entries = 1,
      max_entry_concurrency = 1, cap_max_inflight_batches = 1, scalar_thread_safe = False,
      scalar_reentrant = False, partial_failure = True, preserve_order = True,
      side_effect = SideUnknown\<rparr>"

definition runner_payload_capability_default :: runner_payload_capability where
  "runner_payload_capability_default =
     \<lparr>layouts = [LayoutRow], preferred_layout = LayoutRow, zero_copy = False\<rparr>"

definition runner_resource_capability_default :: runner_resource_capability where
  "runner_resource_capability_default =
     \<lparr>batch_read = False, batch_write = False, requires_resource_plan = True,
      supports_shared_memory = False\<rparr>"

definition runner_ordering_capability_default :: runner_ordering_capability where
  "runner_ordering_capability_default =
     \<lparr>ordering_default = OrdNone, supports_sequence = True,
      supports_same_resource_order = True\<rparr>"

definition runner_control_capability_default :: runner_control_capability where
  "runner_control_capability_default =
     \<lparr>entry_cancel = False, batch_cancel = True, timeout_granularity = TimeoutBatch\<rparr>"

section \<open>Protocol classes and dispatch budgets\<close>

datatype protocol_class = Domain | Effect | Core | ControlClass

record lane_budget =
  lane_max_entries :: nat

record dispatch_budget =
  max_entries :: nat
  max_batches :: nat
  max_bytes :: nat
  lane_budgets :: "(dispatch_lane, lane_budget) fmap"

record surface_occupancy =
  occ_surface_id :: string
  ready_tasks :: u64
  running_invocations :: u64
  resource_refs :: u64
  state_refs :: u64
  active_lease_count :: u64
  open_streams :: u64
  subscriptions :: u64
  timers :: u64
  effect_inflight :: u64

definition zero_occupancy :: "string \<Rightarrow> surface_occupancy" where
  "zero_occupancy sid =
     \<lparr>occ_surface_id = sid, ready_tasks = 0, running_invocations = 0, resource_refs = 0,
      state_refs = 0, active_lease_count = 0, open_streams = 0, subscriptions = 0,
      timers = 0, effect_inflight = 0\<rparr>"

definition is_zero :: "surface_occupancy \<Rightarrow> bool" where
  "is_zero o' \<longleftrightarrow> ready_tasks o' = 0 \<and> running_invocations o' = 0 \<and> resource_refs o' = 0 \<and>
     state_refs o' = 0 \<and> active_lease_count o' = 0 \<and> open_streams o' = 0 \<and>
     subscriptions o' = 0 \<and> timers o' = 0 \<and> effect_inflight o' = 0"

lemma evidence_insert [simp]:
  "err_code (insert_evidence k x e) = err_code e"
  "err_route (insert_evidence k x e) = err_route e"
  "evidence (insert_evidence k x e) = fmupd k x (evidence e)"
  by (cases e; simp)+

end
