(* ===== verification/Bucket_Index.thy ===== *)
theory Bucket_Index
  imports Contracts
begin

text \<open>
  The secondary indexes of \<open>crates/mutsuki-runtime-core/src/task_pool/indexes.rs\<close>, one level
  below the task pool: the helpers \<open>set_map_value\<close>, \<open>set_value\<close>, \<open>set_bucket\<close>, \<open>set_ready\<close> and
  \<open>set_ready_count\<close>, which keep no empty bucket, and \<open>take_due_buckets\<close>.

  The locale \<open>entry_index\<close> is what the pool relies on: an index is a set of entries, adding and
  removing one entry does what it says, and two well-formed indexes with the same entries are
  equal. On top of it \<open>tracks ix T\<close> says that an index holds exactly the entries of the records
  of a table \<open>T\<close>. The locale is interpreted on every helper that stores a set of entries.
\<close>

section \<open>The helpers\<close>

definition set_map_value ::
  "('k, 'x fset) fmap \<Rightarrow> 'k \<Rightarrow> 'x \<Rightarrow> bool \<Rightarrow> ('k, 'x fset) fmap" where
  "set_map_value m k x present =
     (if present then fmupd k (finsert x (fm_get_or {||} m k)) m
      else case fmlookup m k of
          None \<Rightarrow> m
        | Some xs \<Rightarrow>
            let xs' = xs |-| {|x|}
            in if xs' = {||} then fmdrop k m else fmupd k xs' m)"

definition set_value :: "'x fset \<Rightarrow> 'x \<Rightarrow> bool \<Rightarrow> 'x fset" where
  "set_value s x present = (if present then finsert x s else s |-| {|x|})"

type_synonym step_buckets = "(u64, string fset) fmap"

definition set_bucket :: "step_buckets \<Rightarrow> u64 \<Rightarrow> string \<Rightarrow> bool \<Rightarrow> step_buckets" where
  "set_bucket buckets step tid present =
     (if present then fmupd step (finsert tid (fm_get_or {||} buckets step)) buckets
      else case fmlookup buckets step of
          None \<Rightarrow> buckets
        | Some tids \<Rightarrow>
            let tids' = tids |-| {|tid|}
            in if tids' = {||} then fmdrop step buckets else fmupd step tids' buckets)"

definition map_set_len :: "(string, 'x fset) fmap \<Rightarrow> string \<Rightarrow> nat" where
  "map_set_len m k = (case fmlookup m k of None \<Rightarrow> 0 | Some xs \<Rightarrow> fcard xs)"

definition next_bucket_after :: "step_buckets \<Rightarrow> u64 \<Rightarrow> u64 option" where
  "next_bucket_after buckets current_step =
     (case filter (\<lambda>step. current_step < step) (fm_keys buckets) of
        [] \<Rightarrow> None
      | step # _ \<Rightarrow> Some step)"

text \<open>\<open>split_off(&k)\<close> moves the keys from \<open>k\<close> on; what is left behind is due.\<close>

definition take_due_buckets :: "step_buckets \<Rightarrow> u64 \<Rightarrow> (string \<times> u64) list \<times> step_buckets" where
  "take_due_buckets buckets current_step =
     (let (due, future) =
        (if current_step = u64_max then (buckets, fmempty)
         else (fmfilter (\<lambda>step. \<not> current_step + 1 \<le> step) buckets,
               fmfilter (\<lambda>step. current_step + 1 \<le> step) buckets))
      in (concat (map (\<lambda>step. map (\<lambda>tid. (tid, step))
             (sorted_list_of_fset (fm_get_or {||} due step))) (fm_keys due)),
          future))"

datatype ready_selector = ReadySelector
  (sel_runner_hint: "string option")
  (sel_owner_runner: "string option")

datatype ready_key = ReadyKey
  (key_ready_at_step: u64)
  (key_priority: int)
  (key_created_sequence: u64)
  (key_task_id: string)

definition is_due :: "ready_key \<Rightarrow> u64 \<Rightarrow> bool" where
  "is_due key current_step \<longleftrightarrow> key_ready_at_step key \<le> current_step"

type_synonym ready_queues = "(string, (ready_selector, ready_key fset) fmap) fmap"
type_synonym ready_counts = "(string, (ready_selector, (u64 \<times> u64, nat) fmap) fmap) fmap"

definition set_ready ::
  "ready_queues \<Rightarrow> string \<Rightarrow> ready_selector \<Rightarrow> ready_key \<Rightarrow> bool \<Rightarrow> ready_queues" where
  "set_ready index prot sel key present =
     (if present then
        (let by_selector = fm_get_or fmempty index prot
         in fmupd prot (fmupd sel (finsert key (fm_get_or {||} by_selector sel)) by_selector)
              index)
      else case fmlookup index prot of
          None \<Rightarrow> index
        | Some by_selector \<Rightarrow>
            let by_selector' =
              (case fmlookup by_selector sel of
                 None \<Rightarrow> by_selector
               | Some queue \<Rightarrow>
                   let queue' = queue |-| {|key|}
                   in if queue' = {||} then fmdrop sel by_selector
                      else fmupd sel queue' by_selector)
            in if by_selector' = fmempty then fmdrop prot index
               else fmupd prot by_selector' index)"

text \<open>The counters count queue members in memory; \<open>+= 1\<close> on one of them is kept as \<open>+ 1\<close>.\<close>

definition set_ready_count ::
  "ready_counts \<Rightarrow> string \<Rightarrow> ready_selector \<Rightarrow> u64 \<Rightarrow> u64 \<Rightarrow> bool \<Rightarrow> ready_counts" where
  "set_ready_count index prot sel ready_step gen present =
     (let bucket = (ready_step, gen) in
      if present then
        (let by_selector = fm_get_or fmempty index prot;
             by_bucket = fm_get_or fmempty by_selector sel
         in fmupd prot (fmupd sel (fmupd bucket (fm_get_or 0 by_bucket bucket + 1) by_bucket)
              by_selector) index)
      else case fmlookup index prot of
          None \<Rightarrow> index
        | Some by_selector \<Rightarrow>
            let by_selector' =
              (case fmlookup by_selector sel of
                 None \<Rightarrow> by_selector
               | Some by_bucket \<Rightarrow>
                   let by_bucket' =
                     (case fmlookup by_bucket bucket of
                        None \<Rightarrow> by_bucket
                      | Some n \<Rightarrow>
                          if n - 1 = 0 then fmdrop bucket by_bucket
                          else fmupd bucket (n - 1) by_bucket)
                   in if by_bucket' = fmempty then fmdrop sel by_selector
                      else fmupd sel by_bucket' by_selector)
            in if by_selector' = fmempty then fmdrop prot index
               else fmupd prot by_selector' index)"

section \<open>The order of ready keys\<close>

text \<open>
  The derived \<open>Ord\<close> of \<open>ReadyKey\<close>: field by field, with the priority reversed.
\<close>

instantiation ready_key :: linorder
begin

definition less_ready_key :: "ready_key \<Rightarrow> ready_key \<Rightarrow> bool" where
  "less_ready_key a b \<longleftrightarrow>
     key_ready_at_step a < key_ready_at_step b \<or>
     key_ready_at_step a = key_ready_at_step b \<and>
       (key_priority b < key_priority a \<or>
        key_priority a = key_priority b \<and>
          (key_created_sequence a < key_created_sequence b \<or>
           key_created_sequence a = key_created_sequence b \<and> key_task_id a < key_task_id b))"

definition less_eq_ready_key :: "ready_key \<Rightarrow> ready_key \<Rightarrow> bool" where
  "less_eq_ready_key a b \<longleftrightarrow> a < b \<or> a = (b :: ready_key)"

instance
proof
  fix x y z :: ready_key
  show "x < y \<longleftrightarrow> x \<le> y \<and> \<not> y \<le> x"
    by (cases x; cases y) (auto simp: less_ready_key_def less_eq_ready_key_def)
  show "x \<le> x"
    by (simp add: less_eq_ready_key_def)
  show "x \<le> y \<Longrightarrow> y \<le> z \<Longrightarrow> x \<le> z"
    by (cases x; cases y; cases z) (auto simp: less_ready_key_def less_eq_ready_key_def)
  show "x \<le> y \<Longrightarrow> y \<le> x \<Longrightarrow> x = y"
    by (cases x; cases y) (auto simp: less_ready_key_def less_eq_ready_key_def)
  show "x \<le> y \<or> y \<le> x"
    by (cases x; cases y) (auto simp: less_ready_key_def less_eq_ready_key_def)
qed

end

section \<open>Indexes as sets of entries\<close>

locale entry_index =
  fixes put :: "'e \<Rightarrow> bool \<Rightarrow> 'ix \<Rightarrow> 'ix"
    and mem :: "'ix \<Rightarrow> 'e \<Rightarrow> bool"
    and wf :: "'ix \<Rightarrow> bool"
    and empty :: 'ix
  assumes mem_empty: "\<not> mem empty e"
    and wf_empty: "wf empty"
    and mem_put: "mem (put e b ix) e' \<longleftrightarrow> (if e' = e then b else mem ix e')"
    and wf_put: "wf ix \<Longrightarrow> wf (put e b ix)"
    and ext: "wf ix \<Longrightarrow> wf ix' \<Longrightarrow> (\<And>e. mem ix e \<longleftrightarrow> mem ix' e) \<Longrightarrow> ix = ix'"
begin

definition put_opt :: "'e option \<Rightarrow> bool \<Rightarrow> 'ix \<Rightarrow> 'ix" where
  "put_opt o' b ix = (case o' of None \<Rightarrow> ix | Some e \<Rightarrow> put e b ix)"

definition tracks :: "('r \<Rightarrow> 'e option) \<Rightarrow> 'ix \<Rightarrow> ('k \<Rightarrow> 'r option) \<Rightarrow> bool" where
  "tracks ent ix T \<longleftrightarrow> wf ix \<and> (\<forall>e. mem ix e \<longleftrightarrow> (\<exists>k r. T k = Some r \<and> ent r = Some e))"

lemma tracks_mem: "tracks ent ix T \<Longrightarrow> mem ix e \<longleftrightarrow> (\<exists>k r. T k = Some r \<and> ent r = Some e)"
  by (simp add: tracks_def)

lemma tracks_empty: "tracks ent empty (\<lambda>_. None)"
  by (simp add: tracks_def mem_empty wf_empty)

lemma tracks_unique: "tracks ent ix T \<Longrightarrow> tracks ent ix' T \<Longrightarrow> ix = ix'"
  by (rule ext) (simp_all add: tracks_def)

lemma tracks_insert:
  assumes "tracks ent ix T" and "T k = None"
  shows "tracks ent (put_opt (ent r) True ix) (T(k := Some r))"
proof -
  have old: "(\<exists>k' r'. (T(k := Some r)) k' = Some r' \<and> ent r' = Some e) \<longleftrightarrow>
      ent r = Some e \<or> (\<exists>k' r'. T k' = Some r' \<and> ent r' = Some e)" for e
  proof
    assume "\<exists>k' r'. (T(k := Some r)) k' = Some r' \<and> ent r' = Some e"
    then show "ent r = Some e \<or> (\<exists>k' r'. T k' = Some r' \<and> ent r' = Some e)"
      by (auto split: if_splits)
  next
    assume "ent r = Some e \<or> (\<exists>k' r'. T k' = Some r' \<and> ent r' = Some e)"
    then show "\<exists>k' r'. (T(k := Some r)) k' = Some r' \<and> ent r' = Some e"
    proof
      assume "ent r = Some e"
      then show ?thesis by (intro exI [of _ k] exI [of _ r]) simp
    next
      assume "\<exists>k' r'. T k' = Some r' \<and> ent r' = Some e"
      then obtain k' r' where kr: "T k' = Some r'" "ent r' = Some e" by blast
      with assms(2) have "k' \<noteq> k" by auto
      with kr show ?thesis by (intro exI [of _ k'] exI [of _ r']) simp
    qed
  qed
  show ?thesis
    using assms(1) unfolding tracks_def old
    by (cases "ent r") (auto simp: put_opt_def mem_put wf_put)
qed

text \<open>
  An entry names the key of its record, so taking it away touches no other record. The record
  may already be missing from the table: then there is nothing to take away.
\<close>

lemma tracks_remove:
  assumes tr: "tracks ent ix T"
    and own: "\<And>k' r' e. T k' = Some r' \<Longrightarrow> ent r' = Some e \<Longrightarrow> owner e = k'"
    and own_r: "\<And>e. ent r = Some e \<Longrightarrow> owner e = k"
    and here: "T k = None \<or> T k = Some r"
  shows "tracks ent (put_opt (ent r) False ix) (T(k := None))"
proof (cases "ent r")
  case None
  have "(\<exists>k' r'. (T(k := None)) k' = Some r' \<and> ent r' = Some e') \<longleftrightarrow>
      (\<exists>k' r'. T k' = Some r' \<and> ent r' = Some e')" for e'
  proof
    assume "\<exists>k' r'. T k' = Some r' \<and> ent r' = Some e'"
    then obtain k' r' where kr: "T k' = Some r'" "ent r' = Some e'" by blast
    with here None have "k' \<noteq> k" by auto
    with kr show "\<exists>k' r'. (T(k := None)) k' = Some r' \<and> ent r' = Some e'"
      by (intro exI [of _ k'] exI [of _ r']) simp
  qed (auto split: if_splits)
  with None tr show ?thesis
    by (simp add: tracks_def put_opt_def)
next
  case (Some e)
  have "(\<exists>k' r'. (T(k := None)) k' = Some r' \<and> ent r' = Some e') \<longleftrightarrow>
      e' \<noteq> e \<and> (\<exists>k' r'. T k' = Some r' \<and> ent r' = Some e')" for e'
  proof
    assume "\<exists>k' r'. (T(k := None)) k' = Some r' \<and> ent r' = Some e'"
    then obtain k' r' where kr: "k' \<noteq> k" "T k' = Some r'" "ent r' = Some e'"
      by (auto split: if_splits)
    with own own_r [OF Some] have "e' \<noteq> e" by blast
    with kr show "e' \<noteq> e \<and> (\<exists>k' r'. T k' = Some r' \<and> ent r' = Some e')" by blast
  next
    assume "e' \<noteq> e \<and> (\<exists>k' r'. T k' = Some r' \<and> ent r' = Some e')"
    then obtain k' r' where kr: "e' \<noteq> e" "T k' = Some r'" "ent r' = Some e'" by blast
    with here Some have "k' \<noteq> k" by auto
    with kr show "\<exists>k' r'. (T(k := None)) k' = Some r' \<and> ent r' = Some e'"
      by (intro exI [of _ k'] exI [of _ r']) simp
  qed
  with tr Some show ?thesis
    by (auto simp: tracks_def put_opt_def mem_put wf_put)
qed

lemma tracks_cong:
  assumes "tracks ent ix T"
    and "\<And>e. (\<exists>k r. T k = Some r \<and> ent r = Some e) \<longleftrightarrow> (\<exists>k r. T' k = Some r \<and> ent r = Some e)"
  shows "tracks ent ix T'"
  using assms by (simp add: tracks_def)

end

section \<open>The helpers keep the contract\<close>

definition no_empty :: "('k, 'x fset) fmap \<Rightarrow> bool" where
  "no_empty m \<longleftrightarrow> (\<forall>k xs. fmlookup m k = Some xs \<longrightarrow> xs \<noteq> {||})"

definition bucket_mem :: "('k, 'x fset) fmap \<Rightarrow> 'k \<times> 'x \<Rightarrow> bool" where
  "bucket_mem m e \<longleftrightarrow> snd e |\<in>| fm_get_or {||} m (fst e)"

lemma set_bucket_eq: "set_bucket = set_map_value"
  by (intro HOL.ext) (simp add: set_bucket_def set_map_value_def)

lemma fm_get_or_simps [simp]:
  "fm_get_or d fmempty k = d"
  "fm_get_or d (fmupd k v m) k' = (if k' = k then v else fm_get_or d m k')"
  "fm_get_or d (fmdrop k m) k' = (if k' = k then d else fm_get_or d m k')"
  by (simp_all add: fm_get_or_def)

lemma bucket_mem_set_map_value:
  "bucket_mem (set_map_value m k x b) e \<longleftrightarrow> (if e = (k, x) then b else bucket_mem m e)"
proof (cases b)
  case True
  then show ?thesis
    by (cases e) (auto simp: bucket_mem_def set_map_value_def)
next
  case False
  show ?thesis
  proof (cases "fmlookup m k")
    case None
    with False show ?thesis
      by (cases e) (auto simp: bucket_mem_def set_map_value_def fm_get_or_def)
  next
    case (Some xs)
    then have "fm_get_or {||} m k = xs"
      by (simp add: fm_get_or_def)
    moreover have "\<And>y. xs |-| {|x|} = {||} \<Longrightarrow> y |\<in>| xs \<Longrightarrow> y = x"
      by auto
    ultimately show ?thesis
      using False Some
      by (cases e) (auto simp: bucket_mem_def set_map_value_def Let_def)
  qed
qed

lemma no_empty_set_map_value: "no_empty m \<Longrightarrow> no_empty (set_map_value m k x b)"
  by (auto simp: no_empty_def set_map_value_def Let_def split: option.splits if_splits)

lemma no_empty_ext:
  assumes "no_empty m" and "no_empty m'" and "\<And>e. bucket_mem m e \<longleftrightarrow> bucket_mem m' e"
  shows "m = m'"
proof (rule fmap_ext)
  fix k
  have eq: "fm_get_or {||} m k = fm_get_or {||} m' k"
    using assms(3) [of "(k, _)"] by (auto simp: bucket_mem_def)
  show "fmlookup m k = fmlookup m' k"
    using assms(1,2) eq
    by (cases "fmlookup m k"; cases "fmlookup m' k") (auto simp: fm_get_or_def no_empty_def)
qed

interpretation mv: entry_index
  "\<lambda>e b m. set_map_value m (fst e) (snd e) b" "bucket_mem" "no_empty" fmempty
proof
  show "\<And>e. \<not> bucket_mem fmempty e"
    by (simp add: bucket_mem_def)
  show "no_empty fmempty"
    by (simp add: no_empty_def)
  show "\<And>e b ix e'. bucket_mem (set_map_value ix (fst e) (snd e) b) e' =
      (if e' = e then b else bucket_mem ix e')"
    by (simp add: bucket_mem_set_map_value)
qed (blast intro: no_empty_set_map_value no_empty_ext)+

interpretation sv: entry_index
  "\<lambda>e b s. set_value s e b" "\<lambda>s e. e |\<in>| s" "\<lambda>_. True" "{||}"
  by unfold_locales (auto simp: set_value_def)

text \<open>Ready queues: an entry is a protocol, a selector and a key.\<close>

definition ready_mem :: "ready_queues \<Rightarrow> string \<times> ready_selector \<times> ready_key \<Rightarrow> bool" where
  "ready_mem ix e \<longleftrightarrow> bucket_mem (fm_get_or fmempty ix (fst e)) (snd e)"

definition ready_wf :: "ready_queues \<Rightarrow> bool" where
  "ready_wf ix \<longleftrightarrow> (\<forall>p by_selector. fmlookup ix p = Some by_selector \<longrightarrow>
     by_selector \<noteq> fmempty \<and> no_empty by_selector)"

lemma set_ready_eq:
  "set_ready ix p sel key b =
     (if b then fmupd p (set_map_value (fm_get_or fmempty ix p) sel key True) ix
      else case fmlookup ix p of
          None \<Rightarrow> ix
        | Some m \<Rightarrow> let m' = set_map_value m sel key False
                    in if m' = fmempty then fmdrop p ix else fmupd p m' ix)"
  by (cases "fmlookup ix p") (simp_all add: set_ready_def set_map_value_def Let_def)

lemma bucket_mem_fmempty [simp]: "\<not> bucket_mem fmempty e"
  by (simp add: bucket_mem_def)

lemma no_empty_fmempty [simp]: "no_empty fmempty"
  by (simp add: no_empty_def)

lemma ready_mem_set_ready:
  "ready_mem (set_ready ix p sel key b) e \<longleftrightarrow> (if e = (p, sel, key) then b else ready_mem ix e)"
proof (cases "b \<or> fmlookup ix p = None")
  case True
  then show ?thesis
    by (cases e)
      (auto simp: ready_mem_def set_ready_eq bucket_mem_set_map_value fm_get_or_def
        split: option.splits)
next
  case False
  then obtain m where m: "fmlookup ix p = Some m" "\<not> b" by auto
  define m' where "m' = set_map_value m sel key False"
  have mem': "bucket_mem m' e' \<longleftrightarrow> e' \<noteq> (sel, key) \<and> bucket_mem m e'" for e'
    by (simp add: m'_def bucket_mem_set_map_value)
  have get: "fm_get_or fmempty ix p = m"
    using m by (simp add: fm_get_or_def)
  have "set_ready ix p sel key b = (if m' = fmempty then fmdrop p ix else fmupd p m' ix)"
    using m by (simp add: set_ready_eq m'_def Let_def)
  then have "fm_get_or fmempty (set_ready ix p sel key b) q =
      (if q = p then m' else fm_get_or fmempty ix q)" for q
    by simp
  then show ?thesis
    using mem' get m(2) by (cases e) (simp add: ready_mem_def)
qed

lemma ready_wf_set_ready:
  assumes "ready_wf ix"
  shows "ready_wf (set_ready ix p sel key b)"
proof -
  have "set_map_value m sel key True \<noteq> fmempty" for m :: "(ready_selector, ready_key fset) fmap"
    by (simp add: set_map_value_def)
  moreover have "no_empty (fm_get_or fmempty ix p)"
    using assms by (auto simp: ready_wf_def fm_get_or_def split: option.splits)
  ultimately show ?thesis
    using assms
    by (auto simp: ready_wf_def set_ready_eq Let_def no_empty_set_map_value
        split: option.splits if_splits)
qed

lemma ready_wf_ext:
  assumes "ready_wf a" and "ready_wf b" and "\<And>e. ready_mem a e \<longleftrightarrow> ready_mem b e"
  shows "a = b"
proof (rule fmap_ext)
  fix p
  have ne: "no_empty (fm_get_or fmempty a p)" "no_empty (fm_get_or fmempty b p)"
    using assms(1,2) by (auto simp: ready_wf_def fm_get_or_def split: option.splits)
  have "bucket_mem (fm_get_or fmempty a p) e \<longleftrightarrow> bucket_mem (fm_get_or fmempty b p) e" for e
    using assms(3) [of "(p, e)"] by (simp add: ready_mem_def)
  with ne have "fm_get_or fmempty a p = fm_get_or fmempty b p"
    by (rule no_empty_ext)
  then show "fmlookup a p = fmlookup b p"
    using assms(1,2)
    by (cases "fmlookup a p"; cases "fmlookup b p") (auto simp: fm_get_or_def ready_wf_def)
qed

interpretation rq: entry_index
  "\<lambda>e b ix. set_ready ix (fst e) (fst (snd e)) (snd (snd e)) b" ready_mem ready_wf fmempty
proof
  show "\<And>e. \<not> ready_mem fmempty e"
    by (simp add: ready_mem_def)
  show "ready_wf fmempty"
    by (simp add: ready_wf_def)
  show "\<And>e b ix e'. ready_mem (set_ready ix (fst e) (fst (snd e)) (snd (snd e)) b) e' =
      (if e' = e then b else ready_mem ix e')"
    by (simp add: ready_mem_set_ready)
qed (blast intro: ready_wf_set_ready ready_wf_ext)+

section \<open>Counting indexes\<close>

text \<open>
  A counting index holds a positive number per class of records. It agrees with a table when
  the number is how many records of the table are of that class.
\<close>

locale count_index =
  fixes bump :: "'e \<Rightarrow> bool \<Rightarrow> 'ix \<Rightarrow> 'ix"
    and cnt :: "'ix \<Rightarrow> 'e \<Rightarrow> nat"
    and wf :: "'ix \<Rightarrow> bool"
    and empty :: 'ix
  assumes cnt_empty: "cnt empty e = 0"
    and wf_empty: "wf empty"
    and cnt_up: "cnt (bump e True ix) e' = (if e' = e then cnt ix e + 1 else cnt ix e')"
    and cnt_down: "cnt (bump e False ix) e' = (if e' = e then cnt ix e - 1 else cnt ix e')"
    and wf_bump: "wf ix \<Longrightarrow> wf (bump e b ix)"
    and ext: "wf ix \<Longrightarrow> wf ix' \<Longrightarrow> (\<And>e. cnt ix e = cnt ix' e) \<Longrightarrow> ix = ix'"
begin

definition bump_opt :: "'e option \<Rightarrow> bool \<Rightarrow> 'ix \<Rightarrow> 'ix" where
  "bump_opt o' b ix = (case o' of None \<Rightarrow> ix | Some e \<Rightarrow> bump e b ix)"

definition keys_of :: "('r \<Rightarrow> 'e option) \<Rightarrow> ('k \<Rightarrow> 'r option) \<Rightarrow> 'e \<Rightarrow> 'k set" where
  "keys_of cls T e = {k. \<exists>r. T k = Some r \<and> cls r = Some e}"

definition counts :: "('r \<Rightarrow> 'e option) \<Rightarrow> 'ix \<Rightarrow> ('k \<Rightarrow> 'r option) \<Rightarrow> bool" where
  "counts cls ix T \<longleftrightarrow> wf ix \<and> (\<forall>e. cnt ix e = card (keys_of cls T e))"

lemma counts_cnt: "counts cls ix T \<Longrightarrow> cnt ix e = card (keys_of cls T e)"
  by (simp add: counts_def)

lemma counts_empty: "counts cls empty (\<lambda>_. None)"
  by (simp add: counts_def cnt_empty wf_empty keys_of_def)

lemma counts_unique: "counts cls ix T \<Longrightarrow> counts cls ix' T \<Longrightarrow> ix = ix'"
  by (rule ext) (simp_all add: counts_def)

lemma keys_of_insert:
  "T k = None \<Longrightarrow> keys_of cls (T(k := Some r)) e =
     (if cls r = Some e then insert k (keys_of cls T e) else keys_of cls T e)"
  by (auto simp: keys_of_def split: if_splits)

lemma keys_of_remove:
  "T k = Some r \<Longrightarrow> keys_of cls (T(k := None)) e =
     (if cls r = Some e then keys_of cls T e - {k} else keys_of cls T e)"
  by (auto simp: keys_of_def split: if_splits)

lemma finite_keys_of: "finite (dom T) \<Longrightarrow> finite (keys_of cls T e)"
  by (erule finite_subset [rotated]) (auto simp: keys_of_def)

lemma counts_insert:
  assumes "counts cls ix T" and "T k = None" and "finite (dom T)"
  shows "counts cls (bump_opt (cls r) True ix) (T(k := Some r))"
proof -
  have "k \<notin> keys_of cls T e" for e
    using assms(2) by (simp add: keys_of_def)
  then show ?thesis
    using assms finite_keys_of [OF assms(3)]
    by (cases "cls r")
      (auto simp: counts_def bump_opt_def keys_of_insert [of T k, OF assms(2)]
        cnt_up wf_bump)
qed

lemma counts_remove:
  assumes "counts cls ix T" and "T k = Some r" and "finite (dom T)"
  shows "counts cls (bump_opt (cls r) False ix) (T(k := None))"
proof -
  have "cls r = Some e \<Longrightarrow> k \<in> keys_of cls T e" for e
    using assms(2) by (simp add: keys_of_def)
  then show ?thesis
    using assms finite_keys_of [OF assms(3)]
    by (cases "cls r")
      (auto simp: counts_def bump_opt_def keys_of_remove [of T k, OF assms(2)]
        cnt_down wf_bump)
qed

end

text \<open>The ready counters, level by level: buckets of a selector, selectors of a protocol.\<close>

definition bump_bucket :: "(u64 \<times> u64, nat) fmap \<Rightarrow> u64 \<times> u64 \<Rightarrow> bool \<Rightarrow> (u64 \<times> u64, nat) fmap" where
  "bump_bucket m bucket b =
     (if b then fmupd bucket (fm_get_or 0 m bucket + 1) m
      else case fmlookup m bucket of
          None \<Rightarrow> m
        | Some c \<Rightarrow> if c - 1 = 0 then fmdrop bucket m else fmupd bucket (c - 1) m)"

definition bump_selector ::
  "(ready_selector, (u64 \<times> u64, nat) fmap) fmap \<Rightarrow> ready_selector \<Rightarrow> u64 \<times> u64 \<Rightarrow> bool
     \<Rightarrow> (ready_selector, (u64 \<times> u64, nat) fmap) fmap" where
  "bump_selector m sel bucket b =
     (if b then fmupd sel (bump_bucket (fm_get_or fmempty m sel) bucket True) m
      else case fmlookup m sel of
          None \<Rightarrow> m
        | Some m' \<Rightarrow> let m'' = bump_bucket m' bucket False
                     in if m'' = fmempty then fmdrop sel m else fmupd sel m'' m)"

lemma set_ready_count_eq:
  "set_ready_count ix p sel st gen b =
     (if b then fmupd p (bump_selector (fm_get_or fmempty ix p) sel (st, gen) True) ix
      else case fmlookup ix p of
          None \<Rightarrow> ix
        | Some m \<Rightarrow> let m' = bump_selector m sel (st, gen) False
                    in if m' = fmempty then fmdrop p ix else fmupd p m' ix)"
proof (cases "fmlookup ix p")
  case None
  then show ?thesis
    by (simp add: set_ready_count_def bump_selector_def bump_bucket_def Let_def)
next
  case (Some m)
  then show ?thesis
    by (cases "fmlookup m sel")
      (simp_all add: set_ready_count_def bump_selector_def bump_bucket_def Let_def)
qed

definition positive :: "(u64 \<times> u64, nat) fmap \<Rightarrow> bool" where
  "positive m \<longleftrightarrow> (\<forall>k c. fmlookup m k = Some c \<longrightarrow> c \<noteq> 0)"

definition selectors_wf :: "(ready_selector, (u64 \<times> u64, nat) fmap) fmap \<Rightarrow> bool" where
  "selectors_wf m \<longleftrightarrow> (\<forall>k m'. fmlookup m k = Some m' \<longrightarrow> m' \<noteq> fmempty \<and> positive m')"

definition counts_wf :: "ready_counts \<Rightarrow> bool" where
  "counts_wf ix \<longleftrightarrow> (\<forall>k m. fmlookup ix k = Some m \<longrightarrow> m \<noteq> fmempty \<and> selectors_wf m)"

definition count_of :: "ready_counts \<Rightarrow> string \<times> ready_selector \<times> (u64 \<times> u64) \<Rightarrow> nat" where
  "count_of ix e =
     fm_get_or 0 (fm_get_or fmempty (fm_get_or fmempty ix (fst e)) (fst (snd e))) (snd (snd e))"

lemma get_bump_bucket:
  "fm_get_or 0 (bump_bucket m k b) k' =
     (if k' = k then (if b then fm_get_or 0 m k + 1 else fm_get_or 0 m k - 1)
      else fm_get_or 0 m k')"
  by (auto simp: bump_bucket_def fm_get_or_def split: option.splits)

lemma positive_bump_bucket: "positive m \<Longrightarrow> positive (bump_bucket m k b)"
  by (auto simp: positive_def bump_bucket_def split: option.splits if_splits)

lemma bump_bucket_fmempty_False [simp]: "bump_bucket fmempty k False = fmempty"
  by (simp add: bump_bucket_def)

lemma bump_bucket_True_nonempty [simp]: "bump_bucket m k True \<noteq> fmempty"
  by (simp add: bump_bucket_def)

lemma get_bump_selector:
  "fm_get_or fmempty (bump_selector m sel k b) sel' =
     (if sel' = sel then bump_bucket (fm_get_or fmempty m sel) k b
      else fm_get_or fmempty m sel')"
  by (cases "fmlookup m sel") (auto simp: bump_selector_def fm_get_or_def Let_def)

lemma get_set_ready_count:
  "fm_get_or fmempty (set_ready_count ix p sel st gen b) p' =
     (if p' = p then bump_selector (fm_get_or fmempty ix p) sel (st, gen) b
      else fm_get_or fmempty ix p')"
  by (cases "fmlookup ix p")
    (auto simp: set_ready_count_eq fm_get_or_def Let_def bump_selector_def)

lemma selectors_wf_get: "selectors_wf m \<Longrightarrow> positive (fm_get_or fmempty m sel)"
  by (auto simp: selectors_wf_def positive_def fm_get_or_def split: option.splits)

lemma counts_wf_get: "counts_wf ix \<Longrightarrow> selectors_wf (fm_get_or fmempty ix p)"
  by (auto simp: counts_wf_def selectors_wf_def fm_get_or_def split: option.splits)

lemma selectors_wf_bump: "selectors_wf m \<Longrightarrow> selectors_wf (bump_selector m sel k b)"
  using selectors_wf_get [of m sel]
  by (auto simp: selectors_wf_def bump_selector_def Let_def positive_bump_bucket
      split: option.splits if_splits)

lemma counts_wf_set_ready_count: "counts_wf ix \<Longrightarrow> counts_wf (set_ready_count ix p sel st gen b)"
proof -
  assume wf: "counts_wf ix"
  have "bump_selector m sel k True \<noteq> fmempty" for m k
    by (simp add: bump_selector_def)
  then show ?thesis
    using wf counts_wf_get [OF wf, of p]
    by (auto simp: counts_wf_def set_ready_count_eq Let_def selectors_wf_bump
        split: option.splits if_splits)
qed

lemma counts_wf_ext:
  assumes "counts_wf a" and "counts_wf b" and eq: "\<And>e. count_of a e = count_of b e"
  shows "a = b"
proof -
  have sel: "fm_get_or fmempty (fm_get_or fmempty a p) sel =
      fm_get_or fmempty (fm_get_or fmempty b p) sel" (is "?m = ?n") for p sel
  proof (rule fmap_ext)
    fix k
    have "positive ?m" "positive ?n"
      using assms(1,2) by (simp_all add: counts_wf_get selectors_wf_get)
    moreover have "fm_get_or 0 ?m k = fm_get_or 0 ?n k"
      using eq [of "(p, sel, k)"] by (simp add: count_of_def)
    ultimately have "fmlookup ?m k \<noteq> Some 0" "fmlookup ?n k \<noteq> Some 0"
        "fm_get_or 0 ?m k = fm_get_or 0 ?n k"
      unfolding positive_def by blast+
    then show "fmlookup ?m k = fmlookup ?n k"
      by (cases "fmlookup ?m k"; cases "fmlookup ?n k") (auto simp: fm_get_or_def [of 0])
  qed
  have prot: "fm_get_or fmempty a p = fm_get_or fmempty b p" (is "?m = ?n") for p
  proof (rule fmap_ext)
    fix k
    have "selectors_wf ?m" "selectors_wf ?n"
      using assms(1,2) by (simp_all add: counts_wf_get)
    with sel [of p k] show "fmlookup ?m k = fmlookup ?n k"
      by (cases "fmlookup ?m k"; cases "fmlookup ?n k")
        (auto simp: selectors_wf_def fm_get_or_def [of _ _ k])
  qed
  show ?thesis
  proof (rule fmap_ext)
    fix p
    show "fmlookup a p = fmlookup b p"
      using prot [of p] assms(1,2)
      by (cases "fmlookup a p"; cases "fmlookup b p") (auto simp: counts_wf_def fm_get_or_def)
  qed
qed

interpretation rc: count_index
  "\<lambda>e b ix. set_ready_count ix (fst e) (fst (snd e)) (fst (snd (snd e))) (snd (snd (snd e))) b"
  count_of counts_wf fmempty
proof
  show "\<And>e. count_of fmempty e = 0"
    by (simp add: count_of_def)
  show "counts_wf fmempty"
    by (simp add: counts_wf_def)
  show "\<And>e ix e'. count_of (set_ready_count ix (fst e) (fst (snd e)) (fst (snd (snd e)))
      (snd (snd (snd e))) True) e' = (if e' = e then count_of ix e + 1 else count_of ix e')"
    by (auto simp: count_of_def get_set_ready_count get_bump_selector get_bump_bucket
        prod_eq_iff)
  show "\<And>e ix e'. count_of (set_ready_count ix (fst e) (fst (snd e)) (fst (snd (snd e)))
      (snd (snd (snd e))) False) e' = (if e' = e then count_of ix e - 1 else count_of ix e')"
    by (auto simp: count_of_def get_set_ready_count get_bump_selector get_bump_bucket
        prod_eq_iff)
qed (blast intro: counts_wf_set_ready_count counts_wf_ext)+

section \<open>Due buckets\<close>

lemma take_due_eq:
  "take_due_buckets m s =
     (concat (map (\<lambda>step. map (\<lambda>tid. (tid, step)) (sorted_list_of_fset (fm_get_or {||} m step)))
        (filter (\<lambda>step. step \<le> s) (fm_keys m))),
      fmfilter (\<lambda>step. \<not> step \<le> s) m)"
proof -
  have split: "(if s = u64_max then (m, fmempty)
      else (fmfilter (\<lambda>step. \<not> s + 1 \<le> step) m, fmfilter (\<lambda>step. s + 1 \<le> step) m)) =
      (fmfilter (\<lambda>step. step \<le> s) m, fmfilter (\<lambda>step. \<not> step \<le> s) m)"
  proof (cases "s = u64_max")
    case True
    then show ?thesis by (auto intro!: fmap_ext)
  next
    case False
    then have "s + 1 \<le> step \<longleftrightarrow> \<not> step \<le> s" for step
      using word_le_succ_less [OF False, of step] by (simp add: not_less [symmetric])
    with False show ?thesis by simp
  qed
  have keys: "fm_keys (fmfilter (\<lambda>step. step \<le> s) m) = filter (\<lambda>step. step \<le> s) (fm_keys m)"
    by (rule sorted_distinct_set_unique)
      (auto simp: fmdom'_lookup sorted_wrt_filter split: if_splits)
  show ?thesis
    unfolding take_due_buckets_def split Let_def prod.case keys
    by (rule arg_cong2 [where f = Pair])
      (auto simp: fm_get_or_def intro!: arg_cong [where f = concat])
qed

lemma set_take_due:
  "(tid, step) \<in> set (fst (take_due_buckets m s)) \<longleftrightarrow> step \<le> s \<and> bucket_mem m (step, tid)"
  by (auto simp: take_due_eq bucket_mem_def fm_get_or_def fmdom'_lookup split: option.splits)

lemma bucket_mem_take_due:
  "bucket_mem (snd (take_due_buckets m s)) (step, tid) \<longleftrightarrow>
     \<not> step \<le> s \<and> bucket_mem m (step, tid)"
  by (simp add: take_due_eq bucket_mem_def fm_get_or_def)

lemma no_empty_take_due: "no_empty m \<Longrightarrow> no_empty (snd (take_due_buckets m s))"
  by (simp add: no_empty_def take_due_eq)

text \<open>When every task sits in at most one bucket, no task is handed out twice.\<close>

lemma distinct_take_due:
  assumes "\<And>tid step step'. bucket_mem m (step, tid) \<Longrightarrow> bucket_mem m (step', tid) \<Longrightarrow> step = step'"
  shows "distinct (map fst (fst (take_due_buckets m s)))"
proof -
  have "distinct (concat (map (\<lambda>step. sorted_list_of_fset (fm_get_or {||} m step))
      (filter (\<lambda>step. step \<le> s) (fm_keys m))))"
  proof (rule distinct_concat_map)
    show "x = y" if "z \<in> set (sorted_list_of_fset (fm_get_or {||} m x))"
      "z \<in> set (sorted_list_of_fset (fm_get_or {||} m y))" for x y z
      using assms [of x z y] that by (simp add: bucket_mem_def)
  qed (simp_all add: sorted_list_of_fset.rep_eq)
  moreover have "map fst (fst (take_due_buckets m s)) =
      concat (map (\<lambda>step. sorted_list_of_fset (fm_get_or {||} m step))
        (filter (\<lambda>step. step \<le> s) (fm_keys m)))"
    by (simp add: take_due_eq map_concat comp_def)
  ultimately show ?thesis
    by simp
qed

lemma next_bucket_after_Some:
  assumes "no_empty m"
  shows "next_bucket_after m s = Some step \<longleftrightarrow>
     s < step \<and> (\<exists>tid. bucket_mem m (step, tid)) \<and>
     (\<forall>step' tid. s < step' \<longrightarrow> bucket_mem m (step', tid) \<longrightarrow> step \<le> step')"
proof -
  have mem: "(\<exists>tid. bucket_mem m (k, tid)) \<longleftrightarrow> k \<in> fmdom' m" for k
    using assms by (auto simp: bucket_mem_def fm_get_or_def no_empty_def fmdom'_lookup
        split: option.splits)
  have srt: "sorted (filter (\<lambda>k. s < k) (fm_keys m))"
    by (simp add: sorted_wrt_filter)
  have elems: "set (filter (\<lambda>k. s < k) (fm_keys m)) = {k \<in> fmdom' m. s < k}"
    by auto
  have "next_bucket_after m s = Some step \<longleftrightarrow>
      step \<in> fmdom' m \<and> s < step \<and> (\<forall>k \<in> fmdom' m. s < k \<longrightarrow> step \<le> k)"
  proof (cases "filter (\<lambda>k. s < k) (fm_keys m)")
    case Nil
    with elems show ?thesis by (auto simp: next_bucket_after_def)
  next
    case (Cons a ks)
    then have a: "a \<in> fmdom' m" "s < a" "\<forall>k \<in> fmdom' m. s < k \<longrightarrow> a \<le> k"
      using srt elems by auto
    from Cons have "next_bucket_after m s = Some step \<longleftrightarrow> a = step"
      by (simp add: next_bucket_after_def)
    with a show ?thesis by (meson antisym)
  qed
  then show ?thesis
    using mem by blast
qed

lemma next_bucket_after_None:
  assumes "no_empty m"
  shows "next_bucket_after m s = None \<longleftrightarrow> (\<forall>step tid. bucket_mem m (step, tid) \<longrightarrow> step \<le> s)"
proof -
  have mem: "(\<exists>tid. bucket_mem m (k, tid)) \<longleftrightarrow> k \<in> fmdom' m" for k
    using assms by (auto simp: bucket_mem_def fm_get_or_def no_empty_def fmdom'_lookup
        split: option.splits)
  have "next_bucket_after m s = None \<longleftrightarrow> (\<forall>k \<in> fmdom' m. k \<le> s)"
    by (auto simp: next_bucket_after_def filter_empty_conv not_less split: list.splits)
      (metis filter_empty_conv not_less set_fm_keys list.distinct(1))+
  then show ?thesis
    using mem by blast
qed

end
