(* ===== verification/Task_Indexes.thy ===== *)
theory Task_Indexes
  imports Bucket_Index
begin

text \<open>
  The record of a task and the struct \<open>TaskIndexes\<close> of
  \<open>crates/mutsuki-runtime-core/src/task_pool/indexes.rs\<close>: which entries a record puts into the
  eight indexes (\<open>update_record\<close>), and what it means that the indexes agree with a table of
  records. The wake index and the lease index may lag behind the table while a due bucket is
  worked off, so the agreement \<open>ix_ok ix T Tw Tl\<close> takes their tables separately.
\<close>

section \<open>Records and indexes\<close>

record 'v task_record =
  rec_task :: "'v task"
  rec_output :: "'v option"
  status :: task_status
  claimed_by :: "string option"
  owner_runner :: "string option"
  lease :: "task_lease option"
  failure :: "runtime_error option"
  attempt_generation :: u64
  ready_since_step :: u64

record task_indexes =
  ready_by_protocol :: ready_queues
  ready_counts_by_protocol :: ready_counts
  ready_by_step :: step_buckets
  ready_with_expectations :: "string fset"
  wake_by_step :: step_buckets
  running_by_runner :: "(string, string fset) fmap"
  waiting_by_runner :: "(string, string fset) fmap"
  leases_by_expiry :: step_buckets

definition task_indexes_default :: task_indexes where
  "task_indexes_default =
     \<lparr>ready_by_protocol = fmempty, ready_counts_by_protocol = fmempty, ready_by_step = fmempty,
      ready_with_expectations = {||}, wake_by_step = fmempty, running_by_runner = fmempty,
      waiting_by_runner = fmempty, leases_by_expiry = fmempty\<rparr>"

definition unwrap_or :: "'a option \<Rightarrow> 'a \<Rightarrow> 'a" where
  "unwrap_or o' d = (case o' of None \<Rightarrow> d | Some x \<Rightarrow> x)"

definition update_wake :: "task_indexes \<Rightarrow> 'v task_record \<Rightarrow> bool \<Rightarrow> task_indexes" where
  "update_wake ix record present =
     (case ready_at_step (rec_task record) of
        None \<Rightarrow> ix
      | Some step \<Rightarrow>
          ix\<lparr>wake_by_step :=
              set_bucket (wake_by_step ix) step (task_id (rec_task record)) present\<rparr>)"

definition record_selector :: "'v task_record \<Rightarrow> ready_selector" where
  "record_selector record = ReadySelector (runner_hint (rec_task record)) (owner_runner record)"

definition record_ready_key :: "'v task_record \<Rightarrow> ready_key" where
  "record_ready_key record =
     ReadyKey (unwrap_or (ready_at_step (rec_task record)) 0) (priority (rec_task record))
       (created_sequence (rec_task record)) (task_id (rec_task record))"

definition update_ready :: "task_indexes \<Rightarrow> 'v task_record \<Rightarrow> bool \<Rightarrow> task_indexes" where
  "update_ready ix record present =
     (let t = rec_task record;
          selector = record_selector record;
          ready_at = unwrap_or (ready_at_step t) 0;
          ix1 = ix\<lparr>ready_by_protocol :=
                  set_ready (ready_by_protocol ix) (protocol_id t) selector
                    (record_ready_key record) present\<rparr>;
          ix2 = ix1\<lparr>ready_counts_by_protocol :=
                  set_ready_count (ready_counts_by_protocol ix1) (protocol_id t) selector
                    ready_at (registry_generation t) present\<rparr>;
          ix3 = (if expected_versions t \<noteq> [] then
                   ix2\<lparr>ready_with_expectations :=
                     set_value (ready_with_expectations ix2) (task_id t) present\<rparr>
                 else ix2)
      in case ready_at_step t of
           None \<Rightarrow> ix3
         | Some step \<Rightarrow>
             ix3\<lparr>ready_by_step := set_bucket (ready_by_step ix3) step (task_id t) present\<rparr>)"

definition update_running :: "task_indexes \<Rightarrow> 'v task_record \<Rightarrow> bool \<Rightarrow> task_indexes" where
  "update_running ix record present =
     (let t = rec_task record;
          ix1 = (case claimed_by record of
                   None \<Rightarrow> ix
                 | Some rid \<Rightarrow>
                     ix\<lparr>running_by_runner :=
                       set_map_value (running_by_runner ix) rid (task_id t) present\<rparr>)
      in case Option.bind (lease record) expires_at_step of
           None \<Rightarrow> ix1
         | Some step \<Rightarrow>
             ix1\<lparr>leases_by_expiry :=
               set_bucket (leases_by_expiry ix1) step (task_id t) present\<rparr>)"

definition update_waiting :: "task_indexes \<Rightarrow> 'v task_record \<Rightarrow> bool \<Rightarrow> task_indexes" where
  "update_waiting ix record present =
     (let ix1 = (case owner_runner record of
                   None \<Rightarrow> ix
                 | Some rid \<Rightarrow>
                     ix\<lparr>waiting_by_runner :=
                       set_map_value (waiting_by_runner ix) rid (task_id (rec_task record))
                         present\<rparr>)
      in update_wake ix1 record present)"

text \<open>The match of \<open>TaskIndexes::update_record\<close>; its three long arms are the functions above.\<close>

definition update_record :: "task_indexes \<Rightarrow> 'v task_record \<Rightarrow> bool \<Rightarrow> task_indexes" where
  "update_record ix record present =
     (case status record of
        Ready \<Rightarrow> update_ready ix record present
      | Running \<Rightarrow> update_running ix record present
      | Waiting \<Rightarrow> update_waiting ix record present
      | Blocked \<Rightarrow> update_wake ix record present
      | _ \<Rightarrow> ix)"

section \<open>The entries of a record\<close>

type_synonym 'v task_table = "string \<Rightarrow> 'v task_record option"

definition ready_entry :: "'v task_record \<Rightarrow> (string \<times> ready_selector \<times> ready_key) option" where
  "ready_entry r = (if status r = Ready
     then Some (protocol_id (rec_task r), record_selector r, record_ready_key r) else None)"

definition count_class :: "'v task_record \<Rightarrow> (string \<times> ready_selector \<times> (u64 \<times> u64)) option" where
  "count_class r = (if status r = Ready
     then Some (protocol_id (rec_task r), record_selector r,
       (unwrap_or (ready_at_step (rec_task r)) 0, registry_generation (rec_task r))) else None)"

definition step_entry :: "'v task_record \<Rightarrow> (u64 \<times> string) option" where
  "step_entry r = (if status r = Ready
     then map_option (\<lambda>s. (s, task_id (rec_task r))) (ready_at_step (rec_task r)) else None)"

definition expectation_entry :: "'v task_record \<Rightarrow> string option" where
  "expectation_entry r = (if status r = Ready \<and> expected_versions (rec_task r) \<noteq> []
     then Some (task_id (rec_task r)) else None)"

definition wake_entry :: "'v task_record \<Rightarrow> (u64 \<times> string) option" where
  "wake_entry r = (if status r = Waiting \<or> status r = Blocked
     then map_option (\<lambda>s. (s, task_id (rec_task r))) (ready_at_step (rec_task r)) else None)"

definition running_entry :: "'v task_record \<Rightarrow> (string \<times> string) option" where
  "running_entry r = (if status r = Running
     then map_option (\<lambda>rid. (rid, task_id (rec_task r))) (claimed_by r) else None)"

definition waiting_entry :: "'v task_record \<Rightarrow> (string \<times> string) option" where
  "waiting_entry r = (if status r = Waiting
     then map_option (\<lambda>rid. (rid, task_id (rec_task r))) (owner_runner r) else None)"

definition lease_entry :: "'v task_record \<Rightarrow> (u64 \<times> string) option" where
  "lease_entry r = (if status r = Running
     then map_option (\<lambda>s. (s, task_id (rec_task r))) (Option.bind (lease r) expires_at_step)
     else None)"

lemmas entry_defs = ready_entry_def count_class_def step_entry_def expectation_entry_def
  wake_entry_def running_entry_def waiting_entry_def lease_entry_def

lemma update_record_fields:
  "ready_by_protocol (update_record ix r b) =
     rq.put_opt (ready_entry r) b (ready_by_protocol ix)"
  "ready_counts_by_protocol (update_record ix r b) =
     rc.bump_opt (count_class r) b (ready_counts_by_protocol ix)"
  "ready_by_step (update_record ix r b) = mv.put_opt (step_entry r) b (ready_by_step ix)"
  "ready_with_expectations (update_record ix r b) =
     sv.put_opt (expectation_entry r) b (ready_with_expectations ix)"
  "wake_by_step (update_record ix r b) = mv.put_opt (wake_entry r) b (wake_by_step ix)"
  "running_by_runner (update_record ix r b) =
     mv.put_opt (running_entry r) b (running_by_runner ix)"
  "waiting_by_runner (update_record ix r b) =
     mv.put_opt (waiting_entry r) b (waiting_by_runner ix)"
  "leases_by_expiry (update_record ix r b) =
     mv.put_opt (lease_entry r) b (leases_by_expiry ix)"
  by (cases "status r"; simp add: update_record_def update_ready_def update_running_def
      update_waiting_def update_wake_def entry_defs rq.put_opt_def rc.bump_opt_def
      mv.put_opt_def sv.put_opt_def set_bucket_eq Let_def split: option.splits)+

section \<open>Agreement of indexes and records\<close>

definition keyed :: "'v task_table \<Rightarrow> bool" where
  "keyed T \<longleftrightarrow> (\<forall>k r. T k = Some r \<longrightarrow> task_id (rec_task r) = k)"

definition ix_ok ::
  "task_indexes \<Rightarrow> 'v task_table \<Rightarrow> 'v task_table \<Rightarrow> 'v task_table \<Rightarrow> bool" where
  "ix_ok ix T Tw Tl \<longleftrightarrow>
     rq.tracks ready_entry (ready_by_protocol ix) T \<and>
     rc.counts count_class (ready_counts_by_protocol ix) T \<and>
     mv.tracks step_entry (ready_by_step ix) T \<and>
     sv.tracks expectation_entry (ready_with_expectations ix) T \<and>
     mv.tracks wake_entry (wake_by_step ix) Tw \<and>
     mv.tracks running_entry (running_by_runner ix) T \<and>
     mv.tracks waiting_entry (waiting_by_runner ix) T \<and>
     mv.tracks lease_entry (leases_by_expiry ix) Tl"

lemma entry_owner:
  "ready_entry r = Some e \<Longrightarrow> key_task_id (snd (snd e)) = task_id (rec_task r)"
  "step_entry r = Some f \<Longrightarrow> snd f = task_id (rec_task r)"
  "expectation_entry r = Some g \<Longrightarrow> g = task_id (rec_task r)"
  "wake_entry r = Some f \<Longrightarrow> snd f = task_id (rec_task r)"
  "running_entry r = Some h \<Longrightarrow> snd h = task_id (rec_task r)"
  "waiting_entry r = Some h \<Longrightarrow> snd h = task_id (rec_task r)"
  "lease_entry r = Some f \<Longrightarrow> snd f = task_id (rec_task r)"
  by (auto simp: entry_defs record_ready_key_def split: if_splits)

lemma keyed_owner:
  assumes "keyed T" and "T k = Some r"
  shows "ready_entry r = Some e \<Longrightarrow> key_task_id (snd (snd e)) = k"
    and "step_entry r = Some f \<Longrightarrow> snd f = k"
    and "expectation_entry r = Some g \<Longrightarrow> id g = k"
    and "wake_entry r = Some f \<Longrightarrow> snd f = k"
    and "running_entry r = Some h \<Longrightarrow> snd h = k"
    and "waiting_entry r = Some h \<Longrightarrow> snd h = k"
    and "lease_entry r = Some f \<Longrightarrow> snd f = k"
  using assms entry_owner [of r] by (simp_all add: keyed_def)

lemma ix_ok_empty: "ix_ok task_indexes_default (\<lambda>_. None) (\<lambda>_. None) (\<lambda>_. None)"
  by (simp add: ix_ok_def task_indexes_default_def rq.tracks_empty rc.counts_empty
      mv.tracks_empty sv.tracks_empty)

lemma ix_ok_unique: "ix_ok ix T Tw Tl \<Longrightarrow> ix_ok ix' T Tw Tl \<Longrightarrow> ix = ix'"
  unfolding ix_ok_def
  by (rule task_indexes.equality)
    (elim conjE, (erule (1) rq.tracks_unique rc.counts_unique mv.tracks_unique
      sv.tracks_unique | simp))+

lemma ix_ok_insert:
  assumes "ix_ok ix T Tw Tl" and "finite (dom T)" and "T k = None" "Tw k = None" "Tl k = None"
  shows "ix_ok (update_record ix r True) (T(k := Some r)) (Tw(k := Some r)) (Tl(k := Some r))"
  using assms unfolding ix_ok_def update_record_fields
  by (intro conjI rq.tracks_insert rc.counts_insert mv.tracks_insert sv.tracks_insert) auto

lemma ix_ok_remove:
  assumes ok: "ix_ok ix T Tw Tl" and fin: "finite (dom T)"
    and keyed: "keyed T" "keyed Tw" "keyed Tl"
    and r: "T k = Some r" and w: "Tw k = None \<or> Tw k = Some r" and l: "Tl k = None \<or> Tl k = Some r"
  shows "ix_ok (update_record ix r False) (T(k := None)) (Tw(k := None)) (Tl(k := None))"
proof -
  have "rq.tracks ready_entry (rq.put_opt (ready_entry r) False (ready_by_protocol ix)) (T(k := None))"
    by (rule rq.tracks_remove [where owner = "\<lambda>e. key_task_id (snd (snd e))"], use ok in \<open>simp add: ix_ok_def\<close>,
        erule (1) keyed_owner(1) [OF keyed(1)], erule keyed_owner(1) [OF keyed(1) r],
        simp add: r)
  moreover have "rc.counts count_class (rc.bump_opt (count_class r) False (ready_counts_by_protocol ix))
      (T(k := None))"
    using ok fin r by (intro rc.counts_remove) (simp_all add: ix_ok_def)
  moreover have "mv.tracks step_entry (mv.put_opt (step_entry r) False (ready_by_step ix)) (T(k := None))"
    by (rule mv.tracks_remove [where owner = snd], use ok in \<open>simp add: ix_ok_def\<close>,
        erule (1) keyed_owner(2) [OF keyed(1)], erule keyed_owner(2) [OF keyed(1) r],
        simp add: r)
  moreover have "sv.tracks expectation_entry (sv.put_opt (expectation_entry r) False (ready_with_expectations ix)) (T(k := None))"
    by (rule sv.tracks_remove [where owner = id], use ok in \<open>simp add: ix_ok_def\<close>,
        erule (1) keyed_owner(3) [OF keyed(1)], erule keyed_owner(3) [OF keyed(1) r],
        simp add: r)
  moreover have "mv.tracks wake_entry (mv.put_opt (wake_entry r) False (wake_by_step ix)) (Tw(k := None))"
    by (rule mv.tracks_remove [where owner = snd], use ok in \<open>simp add: ix_ok_def\<close>,
        erule (1) keyed_owner(4) [OF keyed(2)], erule keyed_owner(4) [OF keyed(1) r],
        simp add: w)
  moreover have "mv.tracks running_entry (mv.put_opt (running_entry r) False (running_by_runner ix)) (T(k := None))"
    by (rule mv.tracks_remove [where owner = snd], use ok in \<open>simp add: ix_ok_def\<close>,
        erule (1) keyed_owner(5) [OF keyed(1)], erule keyed_owner(5) [OF keyed(1) r],
        simp add: r)
  moreover have "mv.tracks waiting_entry (mv.put_opt (waiting_entry r) False (waiting_by_runner ix)) (T(k := None))"
    by (rule mv.tracks_remove [where owner = snd], use ok in \<open>simp add: ix_ok_def\<close>,
        erule (1) keyed_owner(6) [OF keyed(1)], erule keyed_owner(6) [OF keyed(1) r],
        simp add: r)
  moreover have "mv.tracks lease_entry (mv.put_opt (lease_entry r) False (leases_by_expiry ix)) (Tl(k := None))"
    by (rule mv.tracks_remove [where owner = snd], use ok in \<open>simp add: ix_ok_def\<close>,
        erule (1) keyed_owner(7) [OF keyed(3)], erule keyed_owner(7) [OF keyed(1) r],
        simp add: l)
  ultimately show ?thesis
    by (simp add: ix_ok_def update_record_fields)
qed

lemma ix_ok_replace:
  assumes "ix_ok ix T Tw Tl" and "finite (dom T)" and "keyed T" "keyed Tw" "keyed Tl"
    and "T k = Some r" and "Tw k = None \<or> Tw k = Some r" and "Tl k = None \<or> Tl k = Some r"
  shows "ix_ok (update_record (update_record ix r False) r' True)
     (T(k := Some r')) (Tw(k := Some r')) (Tl(k := Some r'))"
proof -
  have "finite (dom (T(k := None)))"
    using assms(2) by simp
  with ix_ok_insert [OF ix_ok_remove [OF assms], of k r'] show ?thesis
    by simp
qed

end
