(* ===== verification/Task_Pool.thy ===== *)
theory Task_Pool
  imports Task_Indexes
begin

text \<open>
  The operations of the task pool, \<open>crates/mutsuki-runtime-core/src/task_pool.rs\<close> and its
  modules \<open>transitions.rs\<close>, \<open>awaits.rs\<close>, \<open>indexes.rs\<close> and \<open>occupancy.rs\<close>. The pool is a record
  with the fields of the struct, and each method takes it and returns it updated.

  \<^item> A method that returns \<open>RuntimeResult\<close> returns a sum next to the pool. Where the code can
    panic (an \<open>expect\<close> on a lookup) the whole result is an option and \<open>None\<close> is the panic.
  \<^item> \<open>Arc<Task>\<close> is the task itself: \<open>Arc::make_mut\<close> is an update of the record's copy.
  \<^item> \<open>serde_json::to_writer\<close> is the parameter \<open>to_writer\<close>: it gives the error text, or the
    chunks of bytes it writes.
  \<^item> Plain \<open>+=\<close> on a \<open>u64\<close> wraps, as in a release build. A \<open>debug_assert\<close> is not executed.
\<close>

section \<open>State\<close>

record task_history_retention =
  max_terminal_records :: nat
  max_evicted_task_ids :: nat

record task_pool_statistics =
  st_ready :: nat
  st_running :: nat
  st_waiting :: nat
  st_blocked :: nat
  st_completed :: nat
  st_failed :: nat
  st_cancelled :: nat
  st_expired :: nat
  st_dead_letter :: nat
  submitted_total :: u64
  attempts_started :: u64
  cumulative_queue_steps :: u64
  cumulative_execution_steps :: u64
  stale_results_rejected :: u64
  terminal_records_evicted :: u64

record runner_load =
  load_running_count :: nat
  load_waiting_count :: nat
  load_queued_count :: nat
  pending_weight :: nat

record 'v task_pool =
  tasks :: "(string, 'v task_record) fmap"
  waits_by_child :: "(string, task_await list) fmap"
  waits_by_parent :: "(string, task_await list) fmap"
  indexes :: task_indexes
  ready_selector_cache :: "(string, ready_selector list) fmap"
  payload_wire_bytes_map :: "(string, nat) fmap"
  terminal_order :: "string list"
  evicted_task_ids :: "string fset"
  evicted_task_order :: "string list"
  history_retention :: "task_history_retention option"
  next_sequence :: u64
  statistics :: task_pool_statistics

definition statistics_default :: task_pool_statistics where
  "statistics_default =
     \<lparr>st_ready = 0, st_running = 0, st_waiting = 0, st_blocked = 0, st_completed = 0,
      st_failed = 0, st_cancelled = 0, st_expired = 0, st_dead_letter = 0,
      submitted_total = 0, attempts_started = 0, cumulative_queue_steps = 0,
      cumulative_execution_steps = 0, stale_results_rejected = 0,
      terminal_records_evicted = 0\<rparr>"

definition task_pool_default :: "'v task_pool" where
  "task_pool_default =
     \<lparr>tasks = fmempty, waits_by_child = fmempty, waits_by_parent = fmempty,
      indexes = task_indexes_default, ready_selector_cache = fmempty,
      payload_wire_bytes_map = fmempty, terminal_order = [], evicted_task_ids = {||},
      evicted_task_order = [], history_retention = None, next_sequence = 0,
      statistics = statistics_default\<rparr>"

definition TASK_LEASE_TTL_STEPS :: u64 where
  "TASK_LEASE_TTL_STEPS = 1"

definition READY_SELECTOR_CACHE_CAPACITY :: nat where
  "READY_SELECTOR_CACHE_CAPACITY = 1024"

section \<open>Statistics\<close>

text \<open>
  \<open>status_counter_mut\<close> is \<open>unreachable!\<close> on \<open>Created\<close>; both call sites filter that status out,
  so the arm changes nothing here.
\<close>

fun status_counter_upd ::
  "task_status \<Rightarrow> (nat \<Rightarrow> nat) \<Rightarrow> task_pool_statistics \<Rightarrow> task_pool_statistics" where
  "status_counter_upd Created f s = s"
| "status_counter_upd Ready f s = s\<lparr>st_ready := f (st_ready s)\<rparr>"
| "status_counter_upd Running f s = s\<lparr>st_running := f (st_running s)\<rparr>"
| "status_counter_upd Waiting f s = s\<lparr>st_waiting := f (st_waiting s)\<rparr>"
| "status_counter_upd Blocked f s = s\<lparr>st_blocked := f (st_blocked s)\<rparr>"
| "status_counter_upd Completed f s = s\<lparr>st_completed := f (st_completed s)\<rparr>"
| "status_counter_upd Failed f s = s\<lparr>st_failed := f (st_failed s)\<rparr>"
| "status_counter_upd Cancelled f s = s\<lparr>st_cancelled := f (st_cancelled s)\<rparr>"
| "status_counter_upd Expired f s = s\<lparr>st_expired := f (st_expired s)\<rparr>"
| "status_counter_upd DeadLetter f s = s\<lparr>st_dead_letter := f (st_dead_letter s)\<rparr>"

definition record_status_transition ::
  "task_status option \<Rightarrow> task_status option \<Rightarrow> task_pool_statistics \<Rightarrow> task_pool_statistics"
where
  "record_status_transition from_st to_st s =
     (let s1 = (case from_st of
                  Some st \<Rightarrow> if st \<noteq> Created then status_counter_upd st (\<lambda>c. c - 1) s else s
                | None \<Rightarrow> s)
      in case to_st of
           Some st \<Rightarrow>
             if st \<noteq> Created then status_counter_upd st (\<lambda>c. usize_sat_add c 1) s1 else s1
         | None \<Rightarrow> s1)"

definition transition_stats ::
  "task_status option \<Rightarrow> task_status option \<Rightarrow> 'v task_pool \<Rightarrow> 'v task_pool" where
  "transition_stats from_st to_st p =
     p\<lparr>statistics := record_status_transition from_st to_st (statistics p)\<rparr>"

section \<open>Records and their indexes\<close>

definition update_record_indexes :: "'v task_pool \<Rightarrow> string \<Rightarrow> bool \<Rightarrow> 'v task_pool" where
  "update_record_indexes p tid present =
     (case fmlookup (tasks p) tid of
        None \<Rightarrow> p
      | Some record \<Rightarrow> p\<lparr>indexes := update_record (indexes p) record present\<rparr>)"

definition insert_record_indexes :: "'v task_pool \<Rightarrow> string \<Rightarrow> 'v task_pool" where
  "insert_record_indexes p tid = update_record_indexes p tid True"

definition remove_record_indexes :: "'v task_pool \<Rightarrow> string \<Rightarrow> 'v task_pool" where
  "remove_record_indexes p tid = update_record_indexes p tid False"

definition rebuild_indexes :: "'v task_pool \<Rightarrow> 'v task_pool" where
  "rebuild_indexes p =
     p\<lparr>indexes := fold (\<lambda>record ix. update_record ix record True) (fm_values (tasks p))
         task_indexes_default\<rparr>"

definition task_not_found :: "string \<Rightarrow> runtime_error" where
  "task_not_found tid = runtime_failure ERR_TASK_NOT_FOUND ''runtime.task_pool'' (''task.'' @ tid)"

definition pool_record :: "'v task_pool \<Rightarrow> string \<Rightarrow> runtime_error + 'v task_record" where
  "pool_record p tid = (case fmlookup (tasks p) tid of
     None \<Rightarrow> Inl (task_not_found tid) | Some record \<Rightarrow> Inr record)"

text \<open>
  The closure gets the record and returns its result next to the record as it leaves it. The
  record is indexed again whether the closure succeeds or not.
\<close>

definition mutate_record_indexed ::
  "'v task_pool \<Rightarrow> string \<Rightarrow> ('v task_record \<Rightarrow> (runtime_error + 'a) \<times> 'v task_record)
     \<Rightarrow> (runtime_error + 'a) \<times> 'v task_pool" where
  "mutate_record_indexed p tid mutate =
     (case fmlookup (tasks p) tid of
        None \<Rightarrow> (Inl (task_not_found tid), p)
      | Some record \<Rightarrow>
          let p1 = remove_record_indexes p tid;
              (result, record') = mutate record;
              p2 = p1\<lparr>tasks := fmupd tid record' (tasks p1)\<rparr>
          in (result, insert_record_indexes p2 tid))"

definition contains_task_id :: "'v task_pool \<Rightarrow> string \<Rightarrow> bool" where
  "contains_task_id p tid \<longleftrightarrow> tid |\<in>| fmdom (tasks p) \<or> tid |\<in>| evicted_task_ids p"

section \<open>Submission\<close>

definition compact_json_len :: "('v \<Rightarrow> string + string list) \<Rightarrow> 'v \<Rightarrow> string + nat" where
  "compact_json_len to_writer v =
     (case to_writer v of
        Inl e \<Rightarrow> Inl e
      | Inr chunks \<Rightarrow> Inr (foldl (\<lambda>n bytes. usize_sat_add n (length bytes)) 0 chunks))"

definition new_task_record :: "'v task \<Rightarrow> u64 \<Rightarrow> 'v task_record" where
  "new_task_record t current_step =
     \<lparr>rec_task = t, rec_output = None, status = Ready, claimed_by = None, owner_runner = None,
      lease = None, failure = None, attempt_generation = 0, ready_since_step = current_step\<rparr>"

definition enqueue_at ::
  "('v \<Rightarrow> string + string list) \<Rightarrow> 'v task_pool \<Rightarrow> 'v task \<Rightarrow> u64
     \<Rightarrow> (runtime_error + string) \<times> 'v task_pool" where
  "enqueue_at to_writer p t current_step =
     (let tid = task_id t in
      if contains_task_id p tid then
        (Inl (runtime_failure ERR_TASK_DUPLICATE ''runtime.task_pool'' (''task.enqueue.'' @ tid)), p)
      else case compact_json_len to_writer (payload t) of
          Inl e \<Rightarrow>
            (Inl (runtime_failure ERR_RUNTIME_HOST_FAILED ''runtime.task_pool''
               (''task.payload.encode.'' @ tid @ '':'' @ e)), p)
        | Inr wire_bytes \<Rightarrow>
            let p1 = p\<lparr>next_sequence := next_sequence p + 1\<rparr>;
                t' = (if created_sequence t = 0
                      then t\<lparr>created_sequence := next_sequence p1\<rparr> else t);
                p2 = p1\<lparr>tasks := fmupd tid (new_task_record t' current_step) (tasks p1)\<rparr>;
                p3 = p2\<lparr>payload_wire_bytes_map :=
                       fmupd tid wire_bytes (payload_wire_bytes_map p2)\<rparr>;
                p4 = insert_record_indexes p3 tid;
                p5 = p4\<lparr>statistics := (statistics p4)
                       \<lparr>submitted_total := sat_add (submitted_total (statistics p4)) 1\<rparr>\<rparr>
            in (Inr tid, transition_stats None (Some Ready) p5))"

definition enqueue ::
  "('v \<Rightarrow> string + string list) \<Rightarrow> 'v task_pool \<Rightarrow> 'v task
     \<Rightarrow> (runtime_error + string) \<times> 'v task_pool" where
  "enqueue to_writer p t = enqueue_at to_writer p t 0"

definition record_stale_result_rejection :: "'v task_pool \<Rightarrow> 'v task_pool" where
  "record_stale_result_rejection p =
     p\<lparr>statistics := (statistics p)
         \<lparr>stale_results_rejected := sat_add (stale_results_rejected (statistics p)) 1\<rparr>\<rparr>"

definition pool_payload_wire_bytes :: "'v task_pool \<Rightarrow> string \<Rightarrow> nat option" where
  "pool_payload_wire_bytes p tid = fmlookup (payload_wire_bytes_map p) tid"

section \<open>Reading the pool\<close>

definition records :: "'v task_pool \<Rightarrow> 'v task_record list" where
  "records p = sort_key (\<lambda>record. created_sequence (rec_task record)) (fm_values (tasks p))"

definition running_records :: "'v task_pool \<Rightarrow> 'v task_record list" where
  "running_records p = sort_key (\<lambda>record. created_sequence (rec_task record))
     (filter (\<lambda>record. status record = Running) (fm_values (tasks p)))"

definition records_of_ids :: "'v task_pool \<Rightarrow> string fset option \<Rightarrow> 'v task_record list" where
  "records_of_ids p ids = sort_key (\<lambda>record. created_sequence (rec_task record))
     (List.map_filter (fmlookup (tasks p))
       (case ids of None \<Rightarrow> [] | Some tids \<Rightarrow> sorted_list_of_fset tids))"

definition running_records_for_runner :: "'v task_pool \<Rightarrow> string \<Rightarrow> 'v task_record list" where
  "running_records_for_runner p rid =
     records_of_ids p (fmlookup (running_by_runner (indexes p)) rid)"

definition waiting_records_for_runner :: "'v task_pool \<Rightarrow> string \<Rightarrow> 'v task_record list" where
  "waiting_records_for_runner p rid =
     records_of_ids p (fmlookup (waiting_by_runner (indexes p)) rid)"

definition retained_terminal_records :: "'v task_pool \<Rightarrow> nat" where
  "retained_terminal_records p =
     st_completed (statistics p) + st_failed (statistics p) + st_cancelled (statistics p) +
     st_expired (statistics p) + st_dead_letter (statistics p)"

definition stale_expectation_task_ids :: "'v task_pool \<Rightarrow> string list" where
  "stale_expectation_task_ids p = sorted_list_of_fset (ready_with_expectations (indexes p))"

definition running_count_for_runner :: "'v task_pool \<Rightarrow> string \<Rightarrow> nat" where
  "running_count_for_runner p rid = map_set_len (running_by_runner (indexes p)) rid"

definition waiting_count_for_runner :: "'v task_pool \<Rightarrow> string \<Rightarrow> nat" where
  "waiting_count_for_runner p rid = map_set_len (waiting_by_runner (indexes p)) rid"

definition min_opt :: "u64 option \<Rightarrow> u64 option \<Rightarrow> u64 option" where
  "min_opt a b = (case (a, b) of
     (None, _) \<Rightarrow> b | (_, None) \<Rightarrow> a | (Some x, Some y) \<Rightarrow> Some (min x y))"

definition next_required_step_after :: "'v task_pool \<Rightarrow> u64 \<Rightarrow> u64 option" where
  "next_required_step_after p current_step =
     min_opt (min_opt (next_bucket_after (ready_by_step (indexes p)) current_step)
                      (next_bucket_after (wake_by_step (indexes p)) current_step))
             (next_bucket_after (leases_by_expiry (indexes p)) current_step)"

section \<open>Terminal history\<close>

definition is_terminal_status :: "task_status \<Rightarrow> bool" where
  "is_terminal_status st \<longleftrightarrow>
     (case st of
        Completed \<Rightarrow> True | Failed \<Rightarrow> True | Cancelled \<Rightarrow> True | Expired \<Rightarrow> True
      | DeadLetter \<Rightarrow> True | _ \<Rightarrow> False)"

function trim_evicted_task_ids :: "nat \<Rightarrow> 'v task_pool \<Rightarrow> 'v task_pool" where
  "trim_evicted_task_ids capacity p =
     (if capacity < length (evicted_task_order p) then
        (case evicted_task_order p of
           [] \<Rightarrow> p
         | expired # rest \<Rightarrow>
             trim_evicted_task_ids capacity
               (p\<lparr>evicted_task_order := rest,
                  evicted_task_ids := evicted_task_ids p |-| {|expired|}\<rparr>))
      else p)"
  by pat_completeness auto
termination
  by (relation "measure (\<lambda>(c, p). length (evicted_task_order p))") auto

definition remember_evicted_task_id :: "string \<Rightarrow> nat \<Rightarrow> 'v task_pool \<Rightarrow> 'v task_pool" where
  "remember_evicted_task_id tid capacity p =
     (if capacity = 0 then p
      else trim_evicted_task_ids capacity
        (p\<lparr>evicted_task_ids := finsert tid (evicted_task_ids p),
           evicted_task_order := evicted_task_order p @ [tid]\<rparr>))"

text \<open>One turn of the eviction loop on an unprotected record, from \<open>remove_record_indexes\<close> on.\<close>

definition evict_terminal ::
  "task_history_retention \<Rightarrow> string \<Rightarrow> task_status \<Rightarrow> 'v task_pool \<Rightarrow> 'v task_pool" where
  "evict_terminal retention tid st p =
     (let p1 = remove_record_indexes p tid;
          p2 = p1\<lparr>tasks := fmdrop tid (tasks p1),
                  payload_wire_bytes_map := fmdrop tid (payload_wire_bytes_map p1)\<rparr>;
          p3 = transition_stats (Some st) None p2;
          p4 = p3\<lparr>statistics := (statistics p3)
                 \<lparr>terminal_records_evicted :=
                    sat_add (terminal_records_evicted (statistics p3)) 1\<rparr>\<rparr>
      in remember_evicted_task_id tid (max_evicted_task_ids retention) p4)"

declare trim_evicted_task_ids.simps [simp del]

lemma trim_keeps_terminal_order [simp]:
  "terminal_order (trim_evicted_task_ids c p) = terminal_order p"
  by (induction c p rule: trim_evicted_task_ids.induct)
    (subst trim_evicted_task_ids.simps, auto split: list.splits)

lemma evict_keeps_terminal_order [simp]:
  "terminal_order (evict_terminal ret tid st p) = terminal_order p"
  by (simp add: evict_terminal_def remember_evicted_task_id_def transition_stats_def
      remove_record_indexes_def update_record_indexes_def Let_def split: option.splits)

function compact_loop ::
  "task_history_retention \<Rightarrow> nat \<Rightarrow> 'v task_pool \<Rightarrow> 'v task_pool option" where
  "compact_loop retention protected_examined p =
     (if max_terminal_records retention < length (terminal_order p) \<and>
         protected_examined < length (terminal_order p)
      then
        (case terminal_order p of
           [] \<Rightarrow> None
         | tid # rest \<Rightarrow>
             if tid |\<in>| fmdom (waits_by_child p) \<or> tid |\<in>| fmdom (waits_by_parent p) then
               compact_loop retention (protected_examined + 1)
                 (p\<lparr>terminal_order := rest @ [tid]\<rparr>)
             else
               (case fmlookup (tasks p) tid of
                  None \<Rightarrow> None
                | Some record \<Rightarrow>
                    compact_loop retention 0
                      (evict_terminal retention tid (status record)
                        (p\<lparr>terminal_order := rest\<rparr>))))
      else Some p)"
  by pat_completeness auto
termination
  by (relation "measures [\<lambda>(ret, pe, p). length (terminal_order p),
        \<lambda>(ret, pe, p). length (terminal_order p) - pe]") auto

declare compact_loop.simps [simp del]

definition compact_terminal_history :: "'v task_pool \<Rightarrow> 'v task_pool option" where
  "compact_terminal_history p =
     (case history_retention p of
        None \<Rightarrow> Some p
      | Some retention \<Rightarrow> compact_loop retention 0 p)"

definition record_terminal_task :: "string \<Rightarrow> 'v task_pool \<Rightarrow> 'v task_pool option" where
  "record_terminal_task tid p =
     (if history_retention p \<noteq> None
      then compact_terminal_history (p\<lparr>terminal_order := terminal_order p @ [tid]\<rparr>)
      else Some p)"

text \<open>\<open>shrink_to\<close> only gives memory back.\<close>

definition configure_history_retention ::
  "'v task_pool \<Rightarrow> task_history_retention option \<Rightarrow> 'v task_pool option" where
  "configure_history_retention p retention =
     (let p1 = p\<lparr>history_retention := retention, terminal_order := []\<rparr>
      in case retention of
           Some ret \<Rightarrow>
             let terminal = map (\<lambda>record. (created_sequence (rec_task record),
                                          task_id (rec_task record)))
                   (filter (\<lambda>record. is_terminal_status (status record)) (fm_values (tasks p1)));
                 p2 = p1\<lparr>terminal_order := terminal_order p1 @ map snd (sort_key fst terminal)\<rparr>
             in compact_terminal_history (trim_evicted_task_ids (max_evicted_task_ids ret) p2)
         | None \<Rightarrow> Some (p1\<lparr>evicted_task_ids := {||}, evicted_task_order := []\<rparr>))"

section \<open>Awaits\<close>

definition awaits_for_parent :: "'v task_pool \<Rightarrow> string \<Rightarrow> task_await list" where
  "awaits_for_parent p tid = fm_get_or [] (waits_by_parent p) tid"

abbreviation await_child_id :: "task_await \<Rightarrow> string" where
  "await_child_id w \<equiv> h_task_id (await_child w)"

definition retain_waits ::
  "(task_await \<Rightarrow> bool) \<Rightarrow> string \<Rightarrow> (string, task_await list) fmap
     \<Rightarrow> (string, task_await list) fmap" where
  "retain_waits keep k m =
     (case fmlookup m k of
        None \<Rightarrow> m
      | Some ws \<Rightarrow> let ws' = filter keep ws in if ws' = [] then fmdrop k m else fmupd k ws' m)"

definition take_waits_for_child_only :: "'v task_pool \<Rightarrow> string \<Rightarrow> task_await list \<times> 'v task_pool"
where
  "take_waits_for_child_only p child =
     (let waits = fm_get_or [] (waits_by_child p) child;
          p1 = p\<lparr>waits_by_child := fmdrop child (waits_by_child p)\<rparr>
      in (waits,
          fold (\<lambda>w q. q\<lparr>waits_by_parent :=
                 retain_waits (\<lambda>item. await_child_id item \<noteq> child) (parent_task_id w)
                   (waits_by_parent q)\<rparr>) waits p1))"

definition take_waits_for_child ::
  "'v task_pool \<Rightarrow> string \<Rightarrow> (task_await list \<times> 'v task_pool) option" where
  "take_waits_for_child p child =
     (let (waits, p1) = take_waits_for_child_only p child
      in map_option (\<lambda>p2. (waits, p2)) (compact_terminal_history p1))"

definition remove_waits_for_parent :: "string \<Rightarrow> 'v task_pool \<Rightarrow> 'v task_pool" where
  "remove_waits_for_parent parent p =
     (let waits = fm_get_or [] (waits_by_parent p) parent;
          p1 = p\<lparr>waits_by_parent := fmdrop parent (waits_by_parent p)\<rparr>
      in fold (\<lambda>w q. q\<lparr>waits_by_child :=
           retain_waits (\<lambda>item. parent_task_id item \<noteq> parent) (await_child_id w)
             (waits_by_child q)\<rparr>) waits p1)"

section \<open>Leases\<close>

definition task_lease_expired :: "task_lease \<Rightarrow> u64 \<Rightarrow> bool" where
  "task_lease_expired l current_step =
     (case expires_at_step l of None \<Rightarrow> False | Some expires_at \<Rightarrow> expires_at \<le> current_step)"

definition lease_conflict ::
  "'v task_record \<Rightarrow> task_lease \<Rightarrow> u64 \<Rightarrow> string \<Rightarrow> runtime_error" where
  "lease_conflict record l current_step action =
     (let e1 = runtime_error_new ERR_TASK_CLAIM_CONFLICT ''runtime.task_pool''
                 (''task.'' @ action @ ''.'' @ lease_task_id l);
          e2 = insert_evidence ''lease_id'' (SString (lease_id l)) e1;
          e3 = insert_evidence ''executor_id'' (SString (lease_executor_id l)) e2;
          e4 = insert_evidence ''current_step'' (SInt (u64_as_i64 current_step)) e3;
          e5 = (case lease record of
                  None \<Rightarrow> e4
                | Some active \<Rightarrow>
                    insert_evidence ''active_executor_id'' (SString (lease_executor_id active))
                      (insert_evidence ''active_lease_id'' (SString (lease_id active)) e4))
      in if task_lease_expired l current_step
         then insert_evidence ''reason'' (SString ''lease_expired'') e5 else e5)"

definition validate_record_lease ::
  "'v task_record \<Rightarrow> task_lease \<Rightarrow> u64 \<Rightarrow> string \<Rightarrow> runtime_error + unit" where
  "validate_record_lease record l current_step action =
     (let expired = task_lease_expired l current_step;
          matches_active = (status record = Running \<and>
            claimed_by record = Some (lease_runner_id l) \<and>
            (case lease record of None \<Rightarrow> False | Some active \<Rightarrow> active = l))
      in if matches_active \<and> \<not> expired then Inr ()
         else Inl (lease_conflict record l current_step action))"

definition ensure_active_lease ::
  "'v task_pool \<Rightarrow> string \<Rightarrow> task_lease \<Rightarrow> u64 \<Rightarrow> string \<Rightarrow> runtime_error + unit" where
  "ensure_active_lease p tid l current_step action =
     (case pool_record p tid of
        Inl e \<Rightarrow> Inl e
      | Inr record \<Rightarrow> validate_record_lease record l current_step action)"

definition release_record_lease :: "'v task_record \<Rightarrow> 'v task_record" where
  "release_record_lease record =
     record\<lparr>lease := None, rec_task := (rec_task record)\<lparr>task_lease_id := None\<rparr>,
            claimed_by := None\<rparr>"

definition clear_record_owner :: "'v task_record \<Rightarrow> 'v task_record" where
  "clear_record_owner record = record\<lparr>owner_runner := None\<rparr>"

definition mark_terminal_record ::
  "task_status \<Rightarrow> runtime_error option \<Rightarrow> 'v task_record \<Rightarrow> 'v task_record" where
  "mark_terminal_record st f record =
     (clear_record_owner (release_record_lease (record\<lparr>status := st\<rparr>)))\<lparr>failure := f\<rparr>"

definition record_attempt_finished :: "task_lease \<Rightarrow> u64 \<Rightarrow> 'v task_pool \<Rightarrow> 'v task_pool" where
  "record_attempt_finished l current_step p =
     (let elapsed = sat_add (sat_sub current_step (acquired_at_step l)) 1
      in p\<lparr>statistics := (statistics p)
          \<lparr>cumulative_execution_steps :=
             sat_add (cumulative_execution_steps (statistics p)) elapsed\<rparr>\<rparr>)"

section \<open>Transitions under a lease\<close>

text \<open>The closures of the leased transitions: check the lease, then change the record.\<close>

definition with_lease ::
  "task_lease \<Rightarrow> u64 \<Rightarrow> string \<Rightarrow> ('v task_record \<Rightarrow> 'v task_record)
     \<Rightarrow> 'v task_record \<Rightarrow> (runtime_error + unit) \<times> 'v task_record" where
  "with_lease l current_step action f record =
     (case validate_record_lease record l current_step action of
        Inl e \<Rightarrow> (Inl e, record)
      | Inr _ \<Rightarrow> (Inr (), f record))"

definition complete_with_output ::
  "'v task_pool \<Rightarrow> task_lease \<Rightarrow> u64 \<Rightarrow> 'v option
     \<Rightarrow> ((runtime_error + unit) \<times> 'v task_pool) option" where
  "complete_with_output p l current_step out =
     (case mutate_record_indexed p (lease_task_id l)
        (with_lease l current_step ''complete''
          (\<lambda>record. mark_terminal_record Completed None (record\<lparr>rec_output := out\<rparr>))) of
        (Inl e, p1) \<Rightarrow> Some (Inl e, p1)
      | (Inr _, p1) \<Rightarrow>
          map_option (Pair (Inr ()))
            (record_terminal_task (lease_task_id l)
              (record_attempt_finished l current_step
                (transition_stats (Some Running) (Some Completed) p1))))"

definition complete ::
  "'v task_pool \<Rightarrow> task_lease \<Rightarrow> u64 \<Rightarrow> ((runtime_error + unit) \<times> 'v task_pool) option" where
  "complete p l current_step = complete_with_output p l current_step None"

definition fail ::
  "'v task_pool \<Rightarrow> task_lease \<Rightarrow> u64 \<Rightarrow> runtime_error
     \<Rightarrow> ((runtime_error + unit) \<times> 'v task_pool) option" where
  "fail p l current_step f =
     (case mutate_record_indexed p (lease_task_id l)
        (with_lease l current_step ''fail'' (mark_terminal_record Failed (Some f))) of
        (Inl e, p1) \<Rightarrow> Some (Inl e, p1)
      | (Inr _, p1) \<Rightarrow>
          map_option (Pair (Inr ()))
            (record_terminal_task (lease_task_id l)
              (record_attempt_finished l current_step
                (transition_stats (Some Running) (Some Failed) p1))))"

definition wait ::
  "'v task_pool \<Rightarrow> task_lease \<Rightarrow> u64 \<Rightarrow> u64 option \<Rightarrow> (runtime_error + unit) \<times> 'v task_pool" where
  "wait p l current_step ready_at =
     (case mutate_record_indexed p (lease_task_id l)
        (with_lease l current_step ''wait''
          (\<lambda>record. release_record_lease (record\<lparr>status := Waiting,
             rec_task := (rec_task record)\<lparr>ready_at_step := ready_at\<rparr>\<rparr>))) of
        (Inl e, p1) \<Rightarrow> (Inl e, p1)
      | (Inr _, p1) \<Rightarrow>
          (Inr (), record_attempt_finished l current_step
             (transition_stats (Some Running) (Some Waiting) p1)))"

definition defer_leased ::
  "'v task_pool \<Rightarrow> task_lease \<Rightarrow> u64 \<Rightarrow> (runtime_error + unit) \<times> 'v task_pool" where
  "defer_leased p l current_step =
     (case mutate_record_indexed p (lease_task_id l)
        (with_lease l current_step ''defer''
          (\<lambda>record. clear_record_owner (release_record_lease
             (record\<lparr>status := Ready, ready_since_step := current_step\<rparr>)))) of
        (Inl e, p1) \<Rightarrow> (Inl e, p1)
      | (Inr _, p1) \<Rightarrow>
          (Inr (), record_attempt_finished l current_step
             (transition_stats (Some Running) (Some Ready) p1)))"

definition block ::
  "'v task_pool \<Rightarrow> task_lease \<Rightarrow> u64 \<Rightarrow> (runtime_error + unit) \<times> 'v task_pool" where
  "block p l current_step =
     (case mutate_record_indexed p (lease_task_id l)
        (with_lease l current_step ''block''
          (\<lambda>record. release_record_lease (record\<lparr>status := Blocked\<rparr>))) of
        (Inl e, p1) \<Rightarrow> (Inl e, p1)
      | (Inr _, p1) \<Rightarrow>
          (Inr (), record_attempt_finished l current_step
             (transition_stats (Some Running) (Some Blocked) p1)))"

definition cancel_task ::
  "'v task_pool \<Rightarrow> task_lease \<Rightarrow> u64 \<Rightarrow> ((runtime_error + unit) \<times> 'v task_pool) option" where
  "cancel_task p l current_step =
     (case mutate_record_indexed p (lease_task_id l)
        (with_lease l current_step ''cancel'' (mark_terminal_record Cancelled None)) of
        (Inl e, p1) \<Rightarrow> Some (Inl e, p1)
      | (Inr _, p1) \<Rightarrow>
          map_option (Pair (Inr ()))
            (record_terminal_task (lease_task_id l)
              (remove_waits_for_parent (lease_task_id l)
                (record_attempt_finished l current_step
                  (transition_stats (Some Running) (Some Cancelled) p1)))))"

section \<open>Waiting on a task\<close>

definition ready_step_for_wait :: "task_await \<Rightarrow> u64 option" where
  "ready_step_for_wait w =
     (case wake_cond (await_continuation w) of
        Some (Timer s) \<Rightarrow> Some s
      | Some (RetryAfter s) \<Rightarrow> Some s
      | _ \<Rightarrow> None)"

definition validate_task_await_child ::
  "'v task_record \<Rightarrow> 'v task_record \<Rightarrow> task_await \<Rightarrow> runtime_error + unit" where
  "validate_task_await_child parent_record child_record w =
     (if is_terminal_status (status child_record) then
        Inl (runtime_failure ERR_TASK_CLAIM_CONFLICT ''runtime.task_pool''
          (''task.await.child_terminal.'' @ await_child_id w))
      else
        let child = await_child w;
            ct = rec_task child_record;
            pt = rec_task parent_record;
            child_matches_handle =
              (h_protocol_id child = protocol_id ct \<and>
               h_target_binding_id child = target_binding_id ct \<and>
               h_trace_id child = trace_id ct \<and> h_correlation_id child = correlation_id ct);
            child_inherits_parent_context =
              (trace_id ct = trace_id pt \<and> correlation_id ct = correlation_id pt)
        in if child_matches_handle \<and> child_inherits_parent_context then Inr ()
           else Inl (runtime_failure ERR_TASK_CLAIM_CONFLICT ''runtime.task_pool''
             (''task.await.child_descriptor.'' @ parent_task_id w)))"

definition wait_on_task_checks ::
  "'v task_pool \<Rightarrow> task_lease \<Rightarrow> u64 \<Rightarrow> task_await \<Rightarrow> runtime_error + unit" where
  "wait_on_task_checks p l current_step w =
     (if parent_task_id w \<noteq> lease_task_id l then
        Inl (runtime_failure ERR_TASK_CLAIM_CONFLICT ''runtime.task_pool''
          (''task.await.parent.'' @ lease_task_id l))
      else case pool_record p (lease_task_id l) of
          Inl e \<Rightarrow> Inl e
        | Inr parent_record \<Rightarrow>
            (case validate_record_lease parent_record l current_step ''wait'' of
               Inl e \<Rightarrow> Inl e
             | Inr _ \<Rightarrow>
                 (case pool_record p (await_child_id w) of
                    Inl e \<Rightarrow> Inl e
                  | Inr child_record \<Rightarrow>
                      validate_task_await_child parent_record child_record w)))"

definition push_wait ::
  "string \<Rightarrow> task_await \<Rightarrow> (string, task_await list) fmap \<Rightarrow> (string, task_await list) fmap" where
  "push_wait k w m = fmupd k (fm_get_or [] m k @ [w]) m"

definition wait_on_task ::
  "'v task_pool \<Rightarrow> task_lease \<Rightarrow> u64 \<Rightarrow> task_await \<Rightarrow> (runtime_error + unit) \<times> 'v task_pool" where
  "wait_on_task p l current_step w =
     (case wait_on_task_checks p l current_step w of
        Inl e \<Rightarrow> (Inl e, p)
      | Inr _ \<Rightarrow>
          (case mutate_record_indexed p (lease_task_id l)
             (with_lease l current_step ''wait''
               (\<lambda>record. release_record_lease (record\<lparr>status := Waiting,
                  rec_task := (rec_task record)
                    \<lparr>ready_at_step := ready_step_for_wait w,
                     continuation_ref := Some (ref_id (continuation (await_continuation w)))\<rparr>\<rparr>)))
           of
             (Inl e, p1) \<Rightarrow> (Inl e, p1)
           | (Inr _, p1) \<Rightarrow>
               let p2 = record_attempt_finished l current_step
                          (transition_stats (Some Running) (Some Waiting) p1);
                   p3 = p2\<lparr>waits_by_child :=
                          push_wait (await_child_id w) w (waits_by_child p2)\<rparr>
               in (Inr (), p3\<lparr>waits_by_parent :=
                     push_wait (lease_task_id l) w (waits_by_parent p3)\<rparr>)))"

section \<open>Transitions by the core\<close>

definition make_ready :: "u64 \<Rightarrow> 'v task_record \<Rightarrow> 'v task_record" where
  "make_ready current_step record =
     release_record_lease (record\<lparr>status := Ready, ready_since_step := current_step\<rparr>)"

definition wake ::
  "'v task_pool \<Rightarrow> string \<Rightarrow> u64 \<Rightarrow> (runtime_error + unit) \<times> 'v task_pool" where
  "wake p tid current_step =
     (case mutate_record_indexed p tid
        (\<lambda>record. if \<not> (status record = Waiting \<or> status record = Blocked)
           then (Inl (runtime_failure ERR_TASK_CLAIM_CONFLICT ''runtime.task_pool''
                   (''task.wake.'' @ tid)), record)
           else (Inr (status record), make_ready current_step record)) of
        (Inl e, p1) \<Rightarrow> (Inl e, p1)
      | (Inr previous_status, p1) \<Rightarrow>
          (Inr (), remove_waits_for_parent tid
             (transition_stats (Some previous_status) (Some Ready) p1)))"

text \<open>One turn of the loop of \<open>wake_due_tasks\<close>; a missing record is a panic.\<close>

definition wake_due_task :: "u64 \<Rightarrow> string \<Rightarrow> 'v task_pool \<Rightarrow> 'v task_pool option" where
  "wake_due_task current_step tid p =
     (case mutate_record_indexed p tid
        (\<lambda>record. (Inr (status record), make_ready current_step record)) of
        (Inl e, p1) \<Rightarrow> None
      | (Inr previous_status, p1) \<Rightarrow>
          Some (remove_waits_for_parent tid
            (transition_stats (Some previous_status) (Some Ready) p1)))"

fun wake_due_loop :: "u64 \<Rightarrow> (string \<times> u64) list \<Rightarrow> 'v task_pool \<Rightarrow> 'v task_pool option" where
  "wake_due_loop current_step [] p = Some p"
| "wake_due_loop current_step ((tid, step) # rest) p =
     Option.bind (wake_due_task current_step tid p) (wake_due_loop current_step rest)"

definition take_due_wake_tasks :: "'v task_pool \<Rightarrow> u64 \<Rightarrow> (string \<times> u64) list \<times> 'v task_pool" where
  "take_due_wake_tasks p current_step =
     (let (due, future) = take_due_buckets (wake_by_step (indexes p)) current_step
      in (due, p\<lparr>indexes := (indexes p)\<lparr>wake_by_step := future\<rparr>\<rparr>))"

definition wake_due_tasks ::
  "'v task_pool \<Rightarrow> u64 \<Rightarrow> ((string \<times> u64) list \<times> 'v task_pool) option" where
  "wake_due_tasks p current_step =
     (let (due_tasks, p1) = take_due_wake_tasks p current_step
      in map_option (Pair due_tasks) (wake_due_loop current_step due_tasks p1))"

definition reject_ready ::
  "'v task_pool \<Rightarrow> string \<Rightarrow> runtime_error
     \<Rightarrow> ((runtime_error + unit) \<times> 'v task_pool) option" where
  "reject_ready p tid f =
     (case mutate_record_indexed p tid
        (\<lambda>record. if status record \<noteq> Ready
           then (Inl (runtime_failure ERR_TASK_CLAIM_CONFLICT ''runtime.task_pool''
                   (''task.reject.'' @ tid)), record)
           else (Inr (), record\<lparr>status := Failed, failure := Some f\<rparr>)) of
        (Inl e, p1) \<Rightarrow> Some (Inl e, p1)
      | (Inr _, p1) \<Rightarrow>
          map_option (Pair (Inr ()))
            (record_terminal_task tid (transition_stats (Some Ready) (Some Failed) p1)))"

definition terminal_by_core ::
  "'v task_pool \<Rightarrow> string \<Rightarrow> task_status \<Rightarrow> runtime_error option \<Rightarrow> string \<Rightarrow> u64
     \<Rightarrow> ((runtime_error + unit) \<times> 'v task_pool) option" where
  "terminal_by_core p tid st f action current_step =
     (case mutate_record_indexed p tid
        (\<lambda>record. if is_terminal_status (status record)
           then (Inl (runtime_failure ERR_TASK_CLAIM_CONFLICT ''runtime.task_pool''
                   (''task.'' @ action @ ''.'' @ tid)), record)
           else (Inr (lease record, status record), mark_terminal_record st f record)) of
        (Inl e, p1) \<Rightarrow> Some (Inl e, p1)
      | (Inr (active_lease, previous_status), p1) \<Rightarrow>
          let p2 = transition_stats (Some previous_status) (Some st) p1;
              p3 = (case active_lease of
                      None \<Rightarrow> p2 | Some l \<Rightarrow> record_attempt_finished l current_step p2)
          in map_option (Pair (Inr ()))
               (record_terminal_task tid (remove_waits_for_parent tid p3)))"

definition cancel_by_core ::
  "'v task_pool \<Rightarrow> string \<Rightarrow> u64 \<Rightarrow> ((runtime_error + unit) \<times> 'v task_pool) option" where
  "cancel_by_core p tid current_step =
     terminal_by_core p tid Cancelled None ''cancel'' current_step"

definition expire_by_core ::
  "'v task_pool \<Rightarrow> string \<Rightarrow> runtime_error \<Rightarrow> u64
     \<Rightarrow> ((runtime_error + unit) \<times> 'v task_pool) option" where
  "expire_by_core p tid f current_step =
     terminal_by_core p tid Expired (Some f) ''expire'' current_step"

definition dead_letter_by_core ::
  "'v task_pool \<Rightarrow> string \<Rightarrow> runtime_error \<Rightarrow> u64
     \<Rightarrow> ((runtime_error + unit) \<times> 'v task_pool) option" where
  "dead_letter_by_core p tid f current_step =
     terminal_by_core p tid DeadLetter (Some f) ''dead_letter'' current_step"

section \<open>Invocations, expiry, abort and rebinding\<close>

definition find_invocation :: "'v task_pool \<Rightarrow> string \<Rightarrow> string \<Rightarrow> string option" where
  "find_invocation p rid invocation_id =
     (case List.map_filter
        (\<lambda>tid. Option.bind (fmlookup (tasks p) tid)
           (\<lambda>record. case lease record of
              None \<Rightarrow> None
            | Some l \<Rightarrow> if lease_id l = invocation_id then Some (task_id (rec_task record))
                        else None))
        (case fmlookup (running_by_runner (indexes p)) rid of
           None \<Rightarrow> [] | Some tids \<Rightarrow> sorted_list_of_fset tids) of
        [] \<Rightarrow> None
      | tid # _ \<Rightarrow> Some tid)"

definition cancel_running_invocation ::
  "'v task_pool \<Rightarrow> string \<Rightarrow> string \<Rightarrow> u64 \<Rightarrow> (nat \<times> 'v task_pool) option" where
  "cancel_running_invocation p rid invocation_id current_step =
     (case find_invocation p rid invocation_id of
        None \<Rightarrow> Some (0, p)
      | Some tid \<Rightarrow>
          (let active = Option.bind (fmlookup (tasks p) tid) lease
           in (case mutate_record_indexed p tid
                (\<lambda>record. (Inr () :: runtime_error + unit, make_ready current_step record)) of
                (Inl e, p1) \<Rightarrow> None
              | (Inr _, p1) \<Rightarrow>
                  let p2 = (case active of
                      None \<Rightarrow> p1 | Some l \<Rightarrow> record_attempt_finished l current_step p1)
                  in Some (1, transition_stats (Some Running) (Some Ready) p2))))"

definition take_expired_lease_tasks :: "'v task_pool \<Rightarrow> u64 \<Rightarrow> string list \<times> 'v task_pool" where
  "take_expired_lease_tasks p current_step =
     (let (due, future) = take_due_buckets (leases_by_expiry (indexes p)) current_step
      in (map fst due, p\<lparr>indexes := (indexes p)\<lparr>leases_by_expiry := future\<rparr>\<rparr>))"

text \<open>The loop of \<open>reclaim_expired_task_leases\<close>; a missing record is a panic.\<close>

fun reclaim_loop ::
  "u64 \<Rightarrow> string list \<Rightarrow> task_lease list \<Rightarrow> 'v task_pool \<Rightarrow> (task_lease list \<times> 'v task_pool) option"
where
  "reclaim_loop current_step [] reclaimed p = Some (reclaimed, p)"
| "reclaim_loop current_step (tid # rest) reclaimed p =
     (case Option.bind (fmlookup (tasks p) tid) lease of
        None \<Rightarrow> reclaim_loop current_step rest reclaimed p
      | Some l \<Rightarrow>
          if task_lease_expired l current_step then
            (case mutate_record_indexed p tid
               (\<lambda>record. (Inr () :: runtime_error + unit, make_ready current_step record)) of
               (Inl e, p1) \<Rightarrow> None
             | (Inr _, p1) \<Rightarrow>
                 reclaim_loop current_step rest (reclaimed @ [l])
                   (transition_stats (Some Running) (Some Ready) p1))
          else reclaim_loop current_step rest reclaimed p)"

definition reclaim_expired_task_leases ::
  "'v task_pool \<Rightarrow> u64 \<Rightarrow> (task_lease list \<times> 'v task_pool) option" where
  "reclaim_expired_task_leases p current_step =
     (let (tids, p1) = take_expired_lease_tasks p current_step
      in map_option
           (\<lambda>(reclaimed, p2).
              (reclaimed, fold (\<lambda>l. record_attempt_finished l current_step) reclaimed p2))
           (reclaim_loop current_step tids [] p1))"

text \<open>
  \<open>abort_all\<close> in its three passes: every live record is cancelled in place, the indexes are
  rebuilt and the attempts accounted for, then waits and history follow task by task.
\<close>

definition abort_record ::
  "runtime_error \<Rightarrow> string \<Rightarrow> 'v task_pool \<times> string list \<times> task_lease list
     \<Rightarrow> 'v task_pool \<times> string list \<times> task_lease list" where
  "abort_record f k acc =
     (case acc of (p, aborted, finished_leases) \<Rightarrow>
        (case fmlookup (tasks p) k of
           None \<Rightarrow> acc
         | Some record \<Rightarrow>
             if is_terminal_status (status record) then acc
             else (transition_stats (Some (status record)) (Some Cancelled)
                     (p\<lparr>tasks := fmupd k (mark_terminal_record Cancelled (Some f) record)
                         (tasks p)\<rparr>),
                   aborted @ [task_id (rec_task record)],
                   (case lease record of
                      None \<Rightarrow> finished_leases | Some l \<Rightarrow> finished_leases @ [l]))))"

fun abort_finish_loop :: "string list \<Rightarrow> 'v task_pool \<Rightarrow> 'v task_pool option" where
  "abort_finish_loop [] p = Some p"
| "abort_finish_loop (tid # rest) p =
     Option.bind (record_terminal_task tid (remove_waits_for_parent tid p))
       (abort_finish_loop rest)"

definition abort_all ::
  "'v task_pool \<Rightarrow> u64 \<Rightarrow> runtime_error \<Rightarrow> (string list \<times> 'v task_pool) option" where
  "abort_all p current_step f =
     (let (p1, aborted, finished_leases) = fold (abort_record f) (fm_keys (tasks p)) (p, [], []);
          p2 = rebuild_indexes p1;
          p3 = fold (\<lambda>l. record_attempt_finished l current_step) finished_leases p2;
          aborted' = sort aborted
      in map_option (Pair aborted') (abort_finish_loop aborted' p3))"

definition rebinds :: "u64 \<Rightarrow> 'v task_record \<Rightarrow> bool" where
  "rebinds old_generation record \<longleftrightarrow>
     status record = Ready \<and> registry_generation (rec_task record) = old_generation"

definition rebind_ready_generation :: "'v task_pool \<Rightarrow> u64 \<Rightarrow> u64 \<Rightarrow> nat \<times> 'v task_pool" where
  "rebind_ready_generation p old_generation new_generation =
     (length (filter (rebinds old_generation) (fm_values (tasks p))),
      rebuild_indexes
        (p\<lparr>tasks := fmmap
           (\<lambda>record. if rebinds old_generation record
              then record\<lparr>rec_task := (rec_task record)\<lparr>registry_generation := new_generation\<rparr>\<rparr>
              else record) (tasks p)\<rparr>))"

section \<open>Surface occupancy\<close>

definition is_effect :: "'v task \<Rightarrow> (string, protocol_class) fmap \<Rightarrow> bool" where
  "is_effect t protocol_classes \<longleftrightarrow> fmlookup protocol_classes (protocol_id t) = Some Effect"

text \<open>\<open>sort\<close> followed by \<open>dedup\<close>.\<close>

definition surface_ids_for_task :: "'v task \<Rightarrow> (string, protocol_class) fmap \<Rightarrow> string list" where
  "surface_ids_for_task t protocol_classes =
     remdups_adj (sort
       (required_surfaces t @ [''task_protocol:'' @ protocol_id t] @
        (if is_effect t protocol_classes then [''effect:'' @ protocol_id t] else []) @
        (case runner_hint t of None \<Rightarrow> [] | Some h \<Rightarrow> [''runner:'' @ h])))"

definition occupy ::
  "(string, protocol_class) fmap \<Rightarrow> 'v task_record \<Rightarrow> string
     \<Rightarrow> (string, surface_occupancy) fmap \<Rightarrow> (string, surface_occupancy) fmap" where
  "occupy protocol_classes record sid m =
     (let entry = (case fmlookup m sid of None \<Rightarrow> zero_occupancy sid | Some e \<Rightarrow> e);
          entry' =
            (case status record of
               Ready \<Rightarrow>
                 (let e1 = entry\<lparr>ready_tasks := ready_tasks entry + 1\<rparr>
                  in if is_effect (rec_task record) protocol_classes
                     then e1\<lparr>effect_inflight := effect_inflight e1 + 1\<rparr> else e1)
             | Running \<Rightarrow>
                 (let e1 = entry\<lparr>running_invocations := running_invocations entry + 1\<rparr>
                  in if is_effect (rec_task record) protocol_classes
                     then e1\<lparr>effect_inflight := effect_inflight e1 + 1\<rparr> else e1)
             | Waiting \<Rightarrow>
                 (let e1 = entry\<lparr>running_invocations := running_invocations entry + 1\<rparr>
                  in if is_effect (rec_task record) protocol_classes
                     then e1\<lparr>effect_inflight := effect_inflight e1 + 1\<rparr> else e1)
             | _ \<Rightarrow> entry)
      in fmupd sid entry' m)"

definition task_surface_occupancy ::
  "'v task_pool \<Rightarrow> (string, protocol_class) fmap \<Rightarrow> surface_occupancy list" where
  "task_surface_occupancy p protocol_classes =
     fm_values (fold
       (\<lambda>record m. fold (occupy protocol_classes record)
          (surface_ids_for_task (rec_task record) protocol_classes) m)
       (fm_values (tasks p)) fmempty)"

end
