(* ===== verification/Task_Claim.thy ===== *)
theory Task_Claim
  imports Task_Pool
begin

text \<open>
  Claiming, \<open>crates/mutsuki-runtime-core/src/task_pool/claiming.rs\<close> with the dispatch queries
  of \<open>indexes.rs\<close> and \<open>runner_load\<close> of \<open>occupancy.rs\<close>: the ready queues a runner may draw from
  are merged through a heap, a budget picks candidates on the way, and every candidate gets a
  lease. The selector cache is a \<open>RefCell\<close>; a method that fills it returns the pool with it.
\<close>

section \<open>Dispatch queries\<close>

definition build_ready_selectors :: "string \<Rightarrow> ready_selector list" where
  "build_ready_selectors rid =
     [ReadySelector None None, ReadySelector (Some rid) None,
      ReadySelector None (Some rid), ReadySelector (Some rid) (Some rid)]"

definition with_ready_selectors ::
  "'v task_pool \<Rightarrow> string \<Rightarrow> (ready_selector list \<Rightarrow> 'a) \<Rightarrow> 'a \<times> 'v task_pool" where
  "with_ready_selectors p rid use_selectors =
     (case fmlookup (ready_selector_cache p) rid of
        Some selectors \<Rightarrow> (use_selectors selectors, p)
      | None \<Rightarrow>
          if fcard (fmdom (ready_selector_cache p)) < READY_SELECTOR_CACHE_CAPACITY then
            (use_selectors (build_ready_selectors rid),
             p\<lparr>ready_selector_cache :=
               fmupd rid (build_ready_selectors rid) (ready_selector_cache p)\<rparr>)
          else (use_selectors (build_ready_selectors rid), p))"

definition queues_of_selectors ::
  "ready_queues \<Rightarrow> string list \<Rightarrow> ready_selector list \<Rightarrow> ready_key fset list" where
  "queues_of_selectors index protocols selectors =
     concat (map (\<lambda>prot. case fmlookup index prot of
         None \<Rightarrow> []
       | Some by_selector \<Rightarrow> List.map_filter (fmlookup by_selector) selectors) protocols)"

definition ready_dispatch_queues ::
  "'v task_pool \<Rightarrow> 'v runner_descriptor \<Rightarrow> ready_key fset list \<times> 'v task_pool" where
  "ready_dispatch_queues p runner =
     with_ready_selectors p (runner_id runner)
       (queues_of_selectors (ready_by_protocol (indexes p)) (accepted_protocol_ids runner))"

definition counts_of_selectors ::
  "ready_counts \<Rightarrow> string list \<Rightarrow> u64 \<Rightarrow> u64 \<Rightarrow> ready_selector list \<Rightarrow> nat" where
  "counts_of_selectors index protocols current_step gen selectors =
     sum_list (map (\<lambda>by_bucket. sum_list (map (fm_get_or 0 by_bucket)
         (filter (\<lambda>(ready_at, task_gen). ready_at \<le> current_step \<and>
            (gen = 0 \<or> task_gen = 0 \<or> task_gen = gen)) (fm_keys by_bucket))))
       (concat (map (\<lambda>by_selector. List.map_filter (fmlookup by_selector) selectors)
         (List.map_filter (fmlookup index) protocols))))"

definition ready_dispatch_count ::
  "'v task_pool \<Rightarrow> 'v runner_descriptor \<Rightarrow> u64 \<Rightarrow> u64 \<Rightarrow> nat \<times> 'v task_pool" where
  "ready_dispatch_count p runner current_step gen =
     with_ready_selectors p (runner_id runner)
       (counts_of_selectors (ready_counts_by_protocol (indexes p))
         (accepted_protocol_ids runner) current_step gen)"

definition queued_count ::
  "'v task_pool \<Rightarrow> 'v runner_descriptor \<Rightarrow> u64 \<Rightarrow> u64 \<Rightarrow> nat \<times> 'v task_pool" where
  "queued_count p runner step gen = ready_dispatch_count p runner step gen"

definition pool_runner_load ::
  "'v task_pool \<Rightarrow> 'v runner_descriptor \<Rightarrow> u64 \<Rightarrow> u64 \<Rightarrow> runner_load \<times> 'v task_pool" where
  "pool_runner_load p runner step gen =
     (let running = running_count_for_runner p (runner_id runner);
          waiting = waiting_count_for_runner p (runner_id runner);
          (queued, p1) = queued_count p runner step gen
      in (\<lparr>load_running_count = running, load_waiting_count = waiting,
           load_queued_count = queued, pending_weight = running + waiting + queued\<rparr>, p1))"

section \<open>Visiting candidates\<close>

definition runner_accepts_indexed_task :: "'v task \<Rightarrow> u64 \<Rightarrow> bool" where
  "runner_accepts_indexed_task t gen \<longleftrightarrow>
     \<not> (gen \<noteq> 0 \<and> registry_generation t \<noteq> 0 \<and> registry_generation t \<noteq> gen)"

text \<open>
  The binary heap of \<open>Reverse((key, index))\<close> is an ascending list: \<open>push\<close> inserts and \<open>pop\<close>
  takes the first element. An iterator is the list of what it has yet to yield.
\<close>

type_synonym merge_heap = "(ready_key \<times> nat) list"

definition heap_push :: "ready_key \<times> nat \<Rightarrow> merge_heap \<Rightarrow> merge_heap" where
  "heap_push x h = insort x h"

definition push_first :: "u64 \<Rightarrow> nat \<times> ready_key list \<Rightarrow> merge_heap \<Rightarrow> merge_heap" where
  "push_first step it h =
     (case snd it of
        [] \<Rightarrow> h
      | key # _ \<Rightarrow> if is_due key step then heap_push (key, fst it) h else h)"

definition init_heap :: "u64 \<Rightarrow> ready_key list list \<Rightarrow> merge_heap" where
  "init_heap step its = fold (push_first step) (enumerate 0 its) []"

text \<open>One turn: the popped key's record is visited unless it is gone or of another generation.\<close>

definition visit_turn ::
  "('v task_record \<Rightarrow> 's \<Rightarrow> ('s \<times> bool) option) \<Rightarrow> (string, 'v task_record) fmap \<Rightarrow> u64
     \<Rightarrow> ready_key \<Rightarrow> nat \<Rightarrow> 's \<Rightarrow> ('s \<times> bool \<times> nat) option" where
  "visit_turn visit ts gen key visited s =
     (case fmlookup ts (key_task_id key) of
        None \<Rightarrow> Some (s, True, visited)
      | Some record \<Rightarrow>
          if runner_accepts_indexed_task (rec_task record) gen then
            map_option (\<lambda>(s', continue). (s', continue, visited + 1)) (visit record s)
          else Some (s, True, visited))"

text \<open>Advancing iterator \<open>index\<close> after its key was visited.\<close>

definition advance ::
  "u64 \<Rightarrow> nat \<Rightarrow> ready_key list list \<Rightarrow> merge_heap \<Rightarrow> ready_key list list \<times> merge_heap" where
  "advance step index its heap =
     (case its ! index of
        [] \<Rightarrow> (its, heap)
      | next # rest \<Rightarrow>
          (its[index := rest],
           if is_due next step then heap_push (next, index) heap else heap))"

lemma sum_length_update:
  "i < length its \<Longrightarrow> its ! i = x # xs \<Longrightarrow>
     Suc (sum_list (map length (its[i := xs]))) = sum_list (map length its)"
  by (induction its arbitrary: i) (auto simp: nth_Cons split: nat.splits)

lemma advance_size:
  "index < length its \<Longrightarrow> advance step index its heap = (its', heap') \<Longrightarrow>
     length heap' + sum_list (map length its') \<le> length heap + sum_list (map length its)"
  using sum_length_update [of index its]
  by (auto simp: advance_def heap_push_def split: list.splits if_splits)

function visit_loop ::
  "('v task_record \<Rightarrow> 's \<Rightarrow> ('s \<times> bool) option) \<Rightarrow> (string, 'v task_record) fmap \<Rightarrow> u64 \<Rightarrow> u64
     \<Rightarrow> ready_key list list \<Rightarrow> merge_heap \<Rightarrow> nat \<Rightarrow> 's \<Rightarrow> ('s \<times> nat) option" where
  "visit_loop visit ts step gen its [] visited s = Some (s, visited)"
| "visit_loop visit ts step gen its ((key, index) # heap) visited s =
     (case visit_turn visit ts gen key visited s of
        None \<Rightarrow> None
      | Some (s', continue, visited') \<Rightarrow>
          if \<not> continue then Some (s', visited')
          else if index < length its then
            (case advance step index its heap of
               (its', heap') \<Rightarrow> visit_loop visit ts step gen its' heap' visited' s')
          else None)"
  by pat_completeness auto

termination
  by (relation "measure (\<lambda>(visit, ts, step, gen, its, heap, visited, s).
      length heap + sum_list (map length its))")
    (auto dest!: advance_size [OF _ sym])

declare visit_loop.simps [simp del]

definition visit_candidate_records ::
  "'v task_pool \<Rightarrow> 'v runner_descriptor \<Rightarrow> u64 \<Rightarrow> u64
     \<Rightarrow> ('v task_record \<Rightarrow> 's \<Rightarrow> ('s \<times> bool) option) \<Rightarrow> 's \<Rightarrow> ('s \<times> nat \<times> 'v task_pool) option" where
  "visit_candidate_records p runner step gen visit s =
     (let (queues, p1) = ready_dispatch_queues p runner;
          iterators = map sorted_list_of_fset queues
      in map_option (\<lambda>(s', visited). (s', visited, p1))
           (visit_loop visit (tasks p1) step gen (map tl iterators) (init_heap step iterators) 0 s))"

section \<open>Selecting under a budget\<close>

record selection =
  lane_counts :: "(dispatch_lane, nat) fmap"
  selected_bytes :: nat
  selected :: "string list"

definition selection_empty :: selection where
  "selection_empty = \<lparr>lane_counts = fmempty, selected_bytes = 0, selected = []\<rparr>"

text \<open>The checks inside \<open>if let Some(budget) = budget\<close>: may this record still be taken?\<close>

definition budget_admits ::
  "dispatch_budget option \<Rightarrow> 'v task_record \<Rightarrow> nat \<Rightarrow> selection \<Rightarrow> bool" where
  "budget_admits budget record wire_bytes sel =
     (case budget of
        None \<Rightarrow> True
      | Some b \<Rightarrow>
          \<not> max_bytes b < usize_sat_add (selected_bytes sel) wire_bytes \<and>
          (case fmlookup (lane_budgets b) (task_dispatch_lane (rec_task record)) of
             None \<Rightarrow> True
           | Some lb \<Rightarrow>
               \<not> lane_max_entries lb \<le>
                 fm_get_or 0 (lane_counts sel) (task_dispatch_lane (rec_task record))))"

definition take_candidate :: "'v task_record \<Rightarrow> nat \<Rightarrow> selection \<Rightarrow> selection" where
  "take_candidate record wire_bytes sel =
     (let lane = task_dispatch_lane (rec_task record)
      in sel\<lparr>lane_counts := fmupd lane (fm_get_or 0 (lane_counts sel) lane + 1) (lane_counts sel),
             selected_bytes := usize_sat_add (selected_bytes sel) wire_bytes,
             selected := selected sel @ [task_id (rec_task record)]\<rparr>)"

definition select_visitor ::
  "'v task_pool \<Rightarrow> dispatch_budget option \<Rightarrow> nat \<Rightarrow> 'v task_record \<Rightarrow> selection
     \<Rightarrow> (selection \<times> bool) option" where
  "select_visitor p budget limit' record sel =
     (if limit' \<le> length (selected sel) then Some (sel, False)
      else case (case budget of
                   None \<Rightarrow> Some 0
                 | Some _ \<Rightarrow> pool_payload_wire_bytes p (task_id (rec_task record))) of
          None \<Rightarrow> None
        | Some wire_bytes \<Rightarrow>
            if budget_admits budget record wire_bytes sel then
              (let sel' = take_candidate record wire_bytes sel
               in Some (sel', length (selected sel') < limit'))
            else Some (sel, True))"

definition select_candidate_ids ::
  "'v task_pool \<Rightarrow> 'v runner_descriptor \<Rightarrow> u64 \<Rightarrow> u64 \<Rightarrow> nat \<Rightarrow> dispatch_budget option
     \<Rightarrow> (string list \<times> 'v task_pool) option" where
  "select_candidate_ids p runner step gen limit budget =
     (if limit = 0 \<or> (case budget of None \<Rightarrow> False
           | Some b \<Rightarrow> max_batches b = 0 \<or> max_entries b = 0 \<or> max_bytes b = 0)
      then Some ([], p)
      else
        (let limit' = (case budget of None \<Rightarrow> limit | Some b \<Rightarrow> min limit (max_entries b))
         in map_option (\<lambda>(sel, visited, p1). (selected sel, p1))
              (visit_candidate_records p runner step gen (select_visitor p budget limit')
                selection_empty)))"

section \<open>Leasing the candidates\<close>

definition task_lease_id_of :: "u64 \<Rightarrow> string \<Rightarrow> u64 \<Rightarrow> string" where
  "task_lease_id_of step tid attempt =
     ''task-lease-'' @ show_u64 step @ ''-'' @ tid @ ''-'' @ show_u64 attempt"

definition new_lease ::
  "'v runner_descriptor \<Rightarrow> string \<Rightarrow> u64 \<Rightarrow> u64 \<Rightarrow> u64 option \<Rightarrow> 'v task_record \<Rightarrow> task_lease" where
  "new_lease runner executor_id step gen expires_at record =
     \<lparr>lease_id = task_lease_id_of step (task_id (rec_task record)) (attempt_generation record),
      lease_task_id = task_id (rec_task record),
      lease_attempt_generation = attempt_generation record,
      lease_runner_id = runner_id runner,
      lease_executor_id = executor_id,
      lease_registry_generation = gen,
      acquired_at_step = step,
      expires_at_step = expires_at\<rparr>"

definition lease_record ::
  "'v runner_descriptor \<Rightarrow> string \<Rightarrow> u64 \<Rightarrow> u64 \<Rightarrow> u64 option \<Rightarrow> 'v task_record
     \<Rightarrow> task_lease \<times> 'v task_record" where
  "lease_record runner executor_id step gen expires_at record =
     (let record1 = record\<lparr>attempt_generation := sat_add (attempt_generation record) 1\<rparr>;
          l = new_lease runner executor_id step gen expires_at record1
      in (l, record1\<lparr>status := Running, claimed_by := Some (runner_id runner),
               owner_runner := Some (runner_id runner), lease := Some l,
               rec_task := (rec_task record1)\<lparr>task_lease_id := Some (lease_id l)\<rparr>\<rparr>))"

record 'v claim_acc =
  acc_leased :: "(task_lease \<times> 'v task) list"
  acc_queue_steps :: u64
  acc_attempts_started :: u64

text \<open>The loop over the candidates; a candidate without a record is a panic.\<close>

fun claim_loop ::
  "'v runner_descriptor \<Rightarrow> string \<Rightarrow> u64 \<Rightarrow> u64 \<Rightarrow> u64 option \<Rightarrow> string list \<Rightarrow> 'v claim_acc
     \<Rightarrow> 'v task_pool \<Rightarrow> ('v claim_acc \<times> 'v task_pool) option" where
  "claim_loop runner executor_id step gen expires_at [] acc p = Some (acc, p)"
| "claim_loop runner executor_id step gen expires_at (tid # rest) acc p =
     (let p1 = remove_record_indexes p tid in
      case fmlookup (tasks p1) tid of
        None \<Rightarrow> None
      | Some record \<Rightarrow>
          (let (l, record') = lease_record runner executor_id step gen expires_at record;
               acc' = \<lparr>acc_leased = acc_leased acc @ [(l, rec_task record')],
                       acc_queue_steps = sat_add (acc_queue_steps acc)
                         (sat_sub step (ready_since_step record)),
                       acc_attempts_started = sat_add (acc_attempts_started acc) 1\<rparr>;
               p2 = p1\<lparr>tasks := fmupd tid record' (tasks p1)\<rparr>;
               p3 = insert_record_indexes p2 tid
           in claim_loop runner executor_id step gen expires_at rest acc'
                (transition_stats (Some Ready) (Some Running) p3)))"

definition claim_ready_for_executor_with_budget ::
  "'v task_pool \<Rightarrow> 'v runner_descriptor \<Rightarrow> string \<Rightarrow> u64 \<Rightarrow> u64 \<Rightarrow> nat \<Rightarrow> dispatch_budget option
     \<Rightarrow> u64 option \<Rightarrow> ((task_lease \<times> 'v task) list \<times> 'v task_pool) option" where
  "claim_ready_for_executor_with_budget p runner executor_id step gen limit budget expires_at =
     (case select_candidate_ids p runner step gen limit budget of
        None \<Rightarrow> None
      | Some (candidates, p1) \<Rightarrow>
          map_option
            (\<lambda>(acc, p2). (acc_leased acc, p2\<lparr>statistics := (statistics p2)
               \<lparr>attempts_started :=
                  sat_add (attempts_started (statistics p2)) (acc_attempts_started acc),
                cumulative_queue_steps :=
                  sat_add (cumulative_queue_steps (statistics p2)) (acc_queue_steps acc)\<rparr>\<rparr>))
            (claim_loop runner executor_id step gen expires_at candidates
              \<lparr>acc_leased = [], acc_queue_steps = 0, acc_attempts_started = 0\<rparr> p1))"

definition claim_ready_for_executor ::
  "'v task_pool \<Rightarrow> 'v runner_descriptor \<Rightarrow> string \<Rightarrow> u64 \<Rightarrow> u64 \<Rightarrow> nat
     \<Rightarrow> ((task_lease \<times> 'v task) list \<times> 'v task_pool) option" where
  "claim_ready_for_executor p runner executor_id step gen limit =
     claim_ready_for_executor_with_budget p runner executor_id step gen limit None
       (Some (step + TASK_LEASE_TTL_STEPS))"

definition claim_ready ::
  "'v task_pool \<Rightarrow> 'v runner_descriptor \<Rightarrow> u64 \<Rightarrow> u64 \<Rightarrow> nat
     \<Rightarrow> ('v task list \<times> 'v task_pool) option" where
  "claim_ready p runner step gen limit =
     map_option (\<lambda>(leased, p'). (map snd leased, p'))
       (claim_ready_for_executor p runner ''executor:inline'' step gen limit)"

end
