(* ===== verification/Pool_Invariant.thy ===== *)
theory Pool_Invariant
  imports Task_Claim
begin

text \<open>
  The invariant of the task pool and what the internal steps of its operations keep of it.

  \<^item> \<open>core_inv W L\<close>: records are filed under their own id and are coherent; the indexes agree
    with the records, except that the wake index lacks the tasks of \<open>W\<close> and the lease index
    those of \<open>L\<close>; the counters count; sizes are cached for exactly the stored tasks; the memory
    of evicted ids is bounded and disjoint from the stored tasks; cached selectors are right.
  \<^item> \<open>hist_inv P\<close>: with a retention the history lists exactly the terminal tasks outside \<open>P\<close>.
  \<^item> \<open>wait_inv P\<close>: the two wait tables mirror each other, an awaited task is stored, and a
    parent outside \<open>P\<close> that has an await is \<open>Waiting\<close>.
\<close>

section \<open>The invariant\<close>

abbreviation tab :: "'v task_pool \<Rightarrow> 'v task_table" where
  "tab p \<equiv> fmlookup (tasks p)"

definition record_ok :: "'v task_record \<Rightarrow> bool" where
  "record_ok r \<longleftrightarrow>
     status r \<noteq> Created \<and>
     (status r = Running \<longleftrightarrow> lease r \<noteq> None) \<and>
     (case lease r of
        None \<Rightarrow> claimed_by r = None
      | Some l \<Rightarrow>
          claimed_by r = Some (lease_runner_id l) \<and> owner_runner r = Some (lease_runner_id l) \<and>
          lease_task_id l = task_id (rec_task r) \<and>
          lease_attempt_generation l = attempt_generation r \<and>
          task_lease_id (rec_task r) = Some (lease_id l)) \<and>
     (status r = Failed \<or> status r = Expired \<or> status r = DeadLetter \<longrightarrow> failure r \<noteq> None)"

fun counter :: "task_status \<Rightarrow> task_pool_statistics \<Rightarrow> nat" where
  "counter Created s = 0"
| "counter Ready s = st_ready s"
| "counter Running s = st_running s"
| "counter Waiting s = st_waiting s"
| "counter Blocked s = st_blocked s"
| "counter Completed s = st_completed s"
| "counter Failed s = st_failed s"
| "counter Cancelled s = st_cancelled s"
| "counter Expired s = st_expired s"
| "counter DeadLetter s = st_dead_letter s"

definition ids_with :: "task_status \<Rightarrow> 'v task_table \<Rightarrow> string set" where
  "ids_with st T = {k. \<exists>r. T k = Some r \<and> status r = st}"

text \<open>
  The counters saturate at \<open>usize::MAX\<close>. They count while the total of submissions, which saturates
  at the same number and never falls, is below it.
\<close>

definition stats_ok :: "task_pool_statistics \<Rightarrow> 'v task_table \<Rightarrow> bool" where
  "stats_ok s T \<longleftrightarrow> submitted_total s = u64_max \<or>
     card (dom T) \<le> unat (submitted_total s) \<and>
     (\<forall>st. st \<noteq> Created \<longrightarrow> counter st s = card (ids_with st T))"

definition evicted_ok :: "'v task_pool \<Rightarrow> bool" where
  "evicted_ok p \<longleftrightarrow>
     distinct (evicted_task_order p) \<and> set (evicted_task_order p) = fset (evicted_task_ids p) \<and>
     fset (evicted_task_ids p) \<inter> dom (tab p) = {} \<and>
     (history_retention p = None \<longrightarrow> evicted_task_order p = []) \<and>
     (\<forall>ret. history_retention p = Some ret \<longrightarrow>
        length (evicted_task_order p) \<le> max_evicted_task_ids ret)"

definition cache_ok :: "'v task_pool \<Rightarrow> bool" where
  "cache_ok p \<longleftrightarrow>
     fcard (fmdom (ready_selector_cache p)) \<le> READY_SELECTOR_CACHE_CAPACITY \<and>
     (\<forall>rid sels. fmlookup (ready_selector_cache p) rid = Some sels \<longrightarrow>
        sels = build_ready_selectors rid)"

definition core_inv :: "string set \<Rightarrow> string set \<Rightarrow> 'v task_pool \<Rightarrow> bool" where
  "core_inv W L p \<longleftrightarrow>
     keyed (tab p) \<and> (\<forall>k r. tab p k = Some r \<longrightarrow> record_ok r) \<and>
     ix_ok (indexes p) (tab p) (tab p |` (- W)) (tab p |` (- L)) \<and>
     stats_ok (statistics p) (tab p) \<and>
     fmdom (payload_wire_bytes_map p) = fmdom (tasks p) \<and>
     evicted_ok p \<and> cache_ok p"

definition terminal_ids :: "'v task_table \<Rightarrow> string set" where
  "terminal_ids T = {k. \<exists>r. T k = Some r \<and> is_terminal_status (status r)}"

definition hist_inv :: "string set \<Rightarrow> 'v task_pool \<Rightarrow> bool" where
  "hist_inv P p \<longleftrightarrow>
     (history_retention p = None \<longrightarrow> terminal_order p = []) \<and>
     (history_retention p \<noteq> None \<longrightarrow>
        distinct (terminal_order p) \<and> set (terminal_order p) = terminal_ids (tab p) - P)"

definition wait_inv :: "string set \<Rightarrow> 'v task_pool \<Rightarrow> bool" where
  "wait_inv P p \<longleftrightarrow>
     (\<forall>k ws. fmlookup (waits_by_parent p) k = Some ws \<longrightarrow>
        (\<exists>w cs. ws = [w] \<and> parent_task_id w = k \<and>
           fmlookup (waits_by_child p) (await_child_id w) = Some cs \<and> w \<in> set cs)) \<and>
     (\<forall>c cs. fmlookup (waits_by_child p) c = Some cs \<longrightarrow>
        cs \<noteq> [] \<and> distinct (map parent_task_id cs) \<and> c \<in> dom (tab p) \<and>
        (\<forall>w \<in> set cs. await_child_id w = c \<and>
           fmlookup (waits_by_parent p) (parent_task_id w) = Some [w])) \<and>
     (\<forall>k. k \<in> fmdom' (waits_by_parent p) \<longrightarrow> k \<notin> P \<longrightarrow>
        (\<exists>r. tab p k = Some r \<and> status r = Waiting))"

definition pool_inv :: "'v task_pool \<Rightarrow> bool" where
  "pool_inv p \<longleftrightarrow> core_inv {} {} p \<and> hist_inv {} p \<and> wait_inv {} p"

section \<open>Counters\<close>

lemma finite_dom_tab [simp]: "finite (dom (tab p))"
  by simp

lemma counter_upd:
  "st' \<noteq> Created \<Longrightarrow> counter st' (status_counter_upd st f s) =
     (if st' = st then f (counter st s) else counter st' s)"
  by (cases st; cases st'; simp)

lemma counter_transition:
  assumes "st \<noteq> Created"
  shows "counter st (record_status_transition f t s) =
     (let c = (if f = Some st then counter st s - 1 else counter st s)
      in if t = Some st then usize_sat_add c 1 else c)"
  using assms
  by (auto simp: record_status_transition_def Let_def counter_upd split: option.splits)

lemma ids_with_upd:
  "ids_with st (T(k := Some r)) =
     (if status r = st then insert k (ids_with st T) else ids_with st T - {k})"
  by (auto simp: ids_with_def)

lemma ids_with_del: "ids_with st (T(k := None)) = ids_with st T - {k}"
  by (auto simp: ids_with_def)

lemma ids_with_subset: "ids_with st T \<subseteq> dom T"
  by (auto simp: ids_with_def)

lemma finite_ids_with: "finite (dom T) \<Longrightarrow> finite (ids_with st T)"
  by (rule finite_subset [OF ids_with_subset])

lemma counter_other_fields [simp]:
  "counter st (s\<lparr>submitted_total := a\<rparr>) = counter st s"
  "counter st (s\<lparr>attempts_started := a\<rparr>) = counter st s"
  "counter st (s\<lparr>cumulative_queue_steps := a\<rparr>) = counter st s"
  "counter st (s\<lparr>cumulative_execution_steps := a\<rparr>) = counter st s"
  "counter st (s\<lparr>stale_results_rejected := a\<rparr>) = counter st s"
  "counter st (s\<lparr>terminal_records_evicted := a\<rparr>) = counter st s"
  by (cases st; simp)+

lemma submitted_total_upd [simp]: "submitted_total (status_counter_upd st f s) = submitted_total s"
  by (cases st) simp_all

lemma submitted_total_transition [simp]:
  "submitted_total (record_status_transition a b s) = submitted_total s"
  by (simp add: record_status_transition_def Let_def split: option.splits)

lemma unat_le_usize_max: "unat (w :: u64) \<le> usize_max"
  using unat_u64_less [of w] by (simp add: usize_max_def)

lemma stats_ok_replace:
  assumes ok: "stats_ok s T" and fin: "finite (dom T)" and r: "T k = Some r"
  shows "stats_ok (record_status_transition (Some (status r)) (Some (status r')) s) (T(k := Some r'))"
proof (cases "submitted_total s = u64_max")
  case False
  then have size: "card (dom T) \<le> unat (submitted_total s)"
    and counts: "\<And>st. st \<noteq> Created \<Longrightarrow> counter st s = card (ids_with st T)"
    using ok by (simp_all add: stats_ok_def)
  have room: "card (dom T) \<le> usize_max"
    using size unat_le_usize_max by (rule le_trans)
  have dom: "dom (T(k := Some r')) = dom T"
    using r by auto
  have here: "k \<in> ids_with st T \<longleftrightarrow> status r = st" for st
    using r by (auto simp: ids_with_def)
  have fin': "finite (ids_with st T)" for st
    by (rule finite_ids_with [OF fin])
  have le: "card (ids_with st T) \<le> usize_max" for st
    using room card_mono [OF fin ids_with_subset [of st T]] by simp
  have "insert k (ids_with st T) \<subseteq> dom T" for st
    using r ids_with_subset [of st T] by auto
  then have grow: "card (insert k (ids_with st T)) \<le> usize_max" for st
    using room card_mono [OF fin, of "insert k (ids_with st T)"] by (meson le_trans)
  have "counter st (record_status_transition (Some (status r)) (Some (status r')) s) =
      card (ids_with st (T(k := Some r')))" if st: "st \<noteq> Created" for st
  proof -
    have pos: "status r = st \<Longrightarrow> 0 < card (ids_with st T)"
      using here [of st] fin' [of st] by (auto simp: card_gt_0_iff)
    note trans = counter_transition [OF st] and c = counts [OF st]
    show ?thesis
    proof (cases "status r = st"; cases "status r' = st")
      assume eq: "status r = st" "status r' = st"
      with here [of st] have "insert k (ids_with st T) = ids_with st T"
        by (simp add: insert_absorb)
      with eq c pos le [of st] show ?thesis
        by (simp add: trans Let_def ids_with_upd usize_sat_add_def)
    next
      assume eq: "status r = st" "status r' \<noteq> st"
      with here [of st] fin' [of st] c show ?thesis
        by (simp add: trans Let_def ids_with_upd card_Diff_singleton)
    next
      assume eq: "status r \<noteq> st" "status r' = st"
      with here [of st] fin' [of st] c grow [of st] show ?thesis
        by (simp add: trans Let_def ids_with_upd usize_sat_add_def)
    next
      assume eq: "status r \<noteq> st" "status r' \<noteq> st"
      with here [of st] c show ?thesis
        by (simp add: trans Let_def ids_with_upd)
    qed
  qed
  then show ?thesis
    using size dom by (simp add: stats_ok_def)
qed (simp add: stats_ok_def)

lemma stats_ok_insert:
  assumes ok: "stats_ok s T" and fin: "finite (dom T)" and k: "T k = None"
    and s': "s' = s\<lparr>submitted_total := sat_add (submitted_total s) 1\<rparr>"
  shows "stats_ok (record_status_transition None (Some (status r)) s') (T(k := Some r))"
proof (cases "submitted_total s' = u64_max")
  case False
  have "submitted_total s \<noteq> u64_max"
    using False sat_add_ge [of u64_max 1] by (auto simp: s' word_order.extremum_unique)
  then have size: "card (dom T) \<le> unat (submitted_total s)"
    and counts: "\<And>st. st \<noteq> Created \<Longrightarrow> counter st s' = card (ids_with st T)"
    using ok by (simp_all add: stats_ok_def s')
  have more_by_one: "unat (submitted_total s') = Suc (unat (submitted_total s))"
    using False unat_u64_less [of "submitted_total s"]
    by (simp add: s' unat_sat_add word_unat_eq_iff unat_u64_max)
  have new: "k \<notin> ids_with st T" "k \<notin> dom T" for st
    using k by (auto simp: ids_with_def)
  have "card (ids_with st T) \<le> unat (submitted_total s)" for st
    using size card_mono [OF fin ids_with_subset [of st T]] by simp
  then have "Suc (card (ids_with st T)) \<le> usize_max" for st
    using more_by_one unat_le_usize_max [of "submitted_total s'"] by (metis Suc_le_mono le_trans)
  then show ?thesis
    using size more_by_one new counts fin finite_ids_with [OF fin]
    by (simp add: stats_ok_def counter_transition Let_def ids_with_upd usize_sat_add_def)
qed (simp add: stats_ok_def)

lemma stats_ok_delete:
  assumes ok: "stats_ok s T" and fin: "finite (dom T)" and k: "T k = Some r"
  shows "stats_ok (record_status_transition (Some (status r)) None s) (T(k := None))"
proof -
  have here: "k \<in> ids_with st T \<longleftrightarrow> status r = st" for st
    using k by (auto simp: ids_with_def)
  have "card (dom T - {k}) \<le> card (dom T)"
    using fin by (intro card_mono) auto
  then show ?thesis
    using ok here finite_ids_with [OF fin]
    by (auto simp: stats_ok_def counter_transition Let_def ids_with_del card_Diff_singleton)
qed

text \<open>The other fields of the statistics do not matter to the counters.\<close>

lemma stats_ok_other_fields [simp]:
  "stats_ok (s\<lparr>attempts_started := a\<rparr>) T = stats_ok s T"
  "stats_ok (s\<lparr>cumulative_queue_steps := a\<rparr>) T = stats_ok s T"
  "stats_ok (s\<lparr>cumulative_execution_steps := a\<rparr>) T = stats_ok s T"
  "stats_ok (s\<lparr>stale_results_rejected := a\<rparr>) T = stats_ok s T"
  "stats_ok (s\<lparr>terminal_records_evicted := a\<rparr>) T = stats_ok s T"
  by (simp_all add: stats_ok_def)

section \<open>Replacing one record\<close>

definition put_rec ::
  "'v task_pool \<Rightarrow> string \<Rightarrow> 'v task_record \<Rightarrow> 'v task_record \<Rightarrow> 'v task_pool" where
  "put_rec p k r r' =
     p\<lparr>tasks := fmupd k r' (tasks p),
       indexes := update_record (update_record (indexes p) r False) r' True\<rparr>"

lemma mutate_None:
  "tab p k = None \<Longrightarrow> mutate_record_indexed p k f = (Inl (task_not_found k), p)"
  by (simp add: mutate_record_indexed_def)

lemma mutate_Some:
  "tab p k = Some r \<Longrightarrow> mutate_record_indexed p k f = (fst (f r), put_rec p k r (snd (f r)))"
  by (simp add: mutate_record_indexed_def put_rec_def remove_record_indexes_def
      insert_record_indexes_def update_record_indexes_def Let_def split: prod.splits)

lemma put_rec_simps [simp]:
  "tab (put_rec p k r r') = (tab p)(k := Some r')"
  "tasks (put_rec p k r r') = fmupd k r' (tasks p)"
  "statistics (put_rec p k r r') = statistics p"
  "waits_by_child (put_rec p k r r') = waits_by_child p"
  "waits_by_parent (put_rec p k r r') = waits_by_parent p"
  "terminal_order (put_rec p k r r') = terminal_order p"
  "history_retention (put_rec p k r r') = history_retention p"
  "evicted_task_ids (put_rec p k r r') = evicted_task_ids p"
  "evicted_task_order (put_rec p k r r') = evicted_task_order p"
  "payload_wire_bytes_map (put_rec p k r r') = payload_wire_bytes_map p"
  "ready_selector_cache (put_rec p k r r') = ready_selector_cache p"
  "next_sequence (put_rec p k r r') = next_sequence p"
  by (auto simp: put_rec_def)

lemma keyed_restrict: "keyed T \<Longrightarrow> keyed (T |` A)"
  by (simp add: keyed_def restrict_map_def)

lemma restrict_upd: "(T |` (- W))(k := Some r) = T(k := Some r) |` (- (W - {k}))"
  by (auto simp: restrict_map_def)

lemma core_inv_put:
  assumes inv: "core_inv W L p" and r: "tab p k = Some r"
    and k: "task_id (rec_task r') = k" and ok: "record_ok r'"
  shows "core_inv (W - {k}) (L - {k})
     (transition_stats (Some (status r)) (Some (status r')) (put_rec p k r r'))"
proof -
  have ix: "ix_ok (indexes p) (tab p) (tab p |` (- W)) (tab p |` (- L))" and kd: "keyed (tab p)"
    using inv by (simp_all add: core_inv_def)
  have "ix_ok (update_record (update_record (indexes p) r False) r' True)
      ((tab p)(k := Some r')) ((tab p |` (- W))(k := Some r')) ((tab p |` (- L))(k := Some r'))"
    by (rule ix_ok_replace [OF ix finite_dom_tab kd keyed_restrict [OF kd]
          keyed_restrict [OF kd] r]) (auto simp: restrict_map_def r)
  then have "ix_ok (indexes (put_rec p k r r')) ((tab p)(k := Some r'))
      ((tab p)(k := Some r') |` (- (W - {k}))) ((tab p)(k := Some r') |` (- (L - {k})))"
    by (simp add: restrict_upd put_rec_def)
  moreover have "stats_ok (record_status_transition (Some (status r)) (Some (status r'))
      (statistics p)) ((tab p)(k := Some r'))"
    using inv r by (intro stats_ok_replace) (simp_all add: core_inv_def)
  moreover have k_in: "finsert k (fmdom (tasks p)) = fmdom (tasks p)" "insert k (fmdom' (tasks p)) = fmdom' (tasks p)"
    using r by (auto simp: fmdomI fmdom'I)
  moreover have "keyed ((tab p)(k := Some r'))"
    using kd k by (simp add: keyed_def)
  ultimately show ?thesis
    using inv ok
    by (simp add: core_inv_def transition_stats_def evicted_ok_def cache_ok_def)
qed

lemma put_rec_same:
  assumes inv: "core_inv {} {} p" and r: "tab p k = Some r"
  shows "put_rec p k r r = p"
proof -
  have ix: "ix_ok (indexes p) (tab p) (tab p) (tab p)" and kd: "keyed (tab p)"
    using inv by (simp_all add: core_inv_def)
  have same: "(tab p)(k := Some r) = tab p"
    using r by auto
  have "ix_ok (update_record (update_record (indexes p) r False) r True) (tab p) (tab p) (tab p)"
    using ix_ok_replace [OF ix finite_dom_tab kd kd kd r, of r] r same by simp
  with ix have "update_record (update_record (indexes p) r False) r True = indexes p"
    by (rule ix_ok_unique [symmetric])
  moreover have "fmupd k r (tasks p) = tasks p"
    using r by (auto intro: fmap_ext)
  ultimately show ?thesis
    by (simp add: put_rec_def)
qed

lemma mutate_unchanged:
  "core_inv {} {} p \<Longrightarrow> tab p k = Some r \<Longrightarrow> f r = (res, r) \<Longrightarrow>
     mutate_record_indexed p k f = (res, p)"
  by (simp add: mutate_Some put_rec_same)

section \<open>Steps that keep most of the state\<close>

lemma transition_stats_simps [simp]:
  "tasks (transition_stats a b p) = tasks p"
  "indexes (transition_stats a b p) = indexes p"
  "waits_by_child (transition_stats a b p) = waits_by_child p"
  "waits_by_parent (transition_stats a b p) = waits_by_parent p"
  "terminal_order (transition_stats a b p) = terminal_order p"
  "history_retention (transition_stats a b p) = history_retention p"
  "evicted_task_ids (transition_stats a b p) = evicted_task_ids p"
  "evicted_task_order (transition_stats a b p) = evicted_task_order p"
  "payload_wire_bytes_map (transition_stats a b p) = payload_wire_bytes_map p"
  "ready_selector_cache (transition_stats a b p) = ready_selector_cache p"
  "next_sequence (transition_stats a b p) = next_sequence p"
  by (simp_all add: transition_stats_def)

lemma attempt_finished_simps [simp]:
  "tasks (record_attempt_finished l s p) = tasks p"
  "indexes (record_attempt_finished l s p) = indexes p"
  "waits_by_child (record_attempt_finished l s p) = waits_by_child p"
  "waits_by_parent (record_attempt_finished l s p) = waits_by_parent p"
  "terminal_order (record_attempt_finished l s p) = terminal_order p"
  "history_retention (record_attempt_finished l s p) = history_retention p"
  "evicted_task_ids (record_attempt_finished l s p) = evicted_task_ids p"
  "evicted_task_order (record_attempt_finished l s p) = evicted_task_order p"
  "payload_wire_bytes_map (record_attempt_finished l s p) = payload_wire_bytes_map p"
  "ready_selector_cache (record_attempt_finished l s p) = ready_selector_cache p"
  "next_sequence (record_attempt_finished l s p) = next_sequence p"
  by (simp_all add: record_attempt_finished_def Let_def)

lemma core_inv_attempt_finished [simp]:
  "core_inv W L (record_attempt_finished l s p) = core_inv W L p"
  by (simp add: core_inv_def evicted_ok_def cache_ok_def)
    (simp add: record_attempt_finished_def Let_def)

lemma hist_inv_cong:
  "history_retention q = history_retention p \<Longrightarrow> terminal_order q = terminal_order p \<Longrightarrow>
     terminal_ids (tab q) = terminal_ids (tab p) \<Longrightarrow> hist_inv P q = hist_inv P p"
  by (simp add: hist_inv_def)

lemma wait_inv_cong:
  "waits_by_child q = waits_by_child p \<Longrightarrow> waits_by_parent q = waits_by_parent p \<Longrightarrow>
     tasks q = tasks p \<Longrightarrow> wait_inv P q = wait_inv P p"
  by (simp add: wait_inv_def)

lemma hist_wait_attempt_finished [simp]:
  "hist_inv P (record_attempt_finished l s p) = hist_inv P p"
  "wait_inv P (record_attempt_finished l s p) = wait_inv P p"
  by (rule hist_inv_cong wait_inv_cong; simp)+

lemma hist_wait_transition_stats [simp]:
  "hist_inv P (transition_stats a b p) = hist_inv P p"
  "wait_inv P (transition_stats a b p) = wait_inv P p"
  by (rule hist_inv_cong wait_inv_cong; simp)+

lemma terminal_ids_upd:
  "terminal_ids (T(k := Some r)) =
     (if is_terminal_status (status r) then insert k (terminal_ids T) else terminal_ids T - {k})"
  by (auto simp: terminal_ids_def)

lemma hist_inv_put_live:
  assumes "hist_inv P p" and "tab p k = Some r"
    and "\<not> is_terminal_status (status r)" and "\<not> is_terminal_status (status r')"
  shows "hist_inv P (put_rec p k r r')"
proof -
  have "k \<notin> terminal_ids (tab p)"
    using assms(2,3) by (auto simp: terminal_ids_def)
  then show ?thesis
    using assms(1,4) by (simp add: hist_inv_def terminal_ids_upd)
qed

lemma hist_inv_put_terminal:
  assumes "hist_inv P p" and "tab p k = Some r"
    and "\<not> is_terminal_status (status r)" and "is_terminal_status (status r')"
  shows "hist_inv (insert k P) (put_rec p k r r')"
proof -
  have "k \<notin> terminal_ids (tab p)"
    using assms(2,3) by (auto simp: terminal_ids_def)
  then show ?thesis
    using assms(1,4) by (auto simp: hist_inv_def terminal_ids_upd)
qed

section \<open>Waits\<close>

lemma wait_inv_mono: "wait_inv P p \<Longrightarrow> P \<subseteq> Q \<Longrightarrow> wait_inv Q p"
  by (auto simp: wait_inv_def)

lemma wait_inv_drop:
  "wait_inv P p \<Longrightarrow> k \<notin> fmdom' (waits_by_parent p) \<Longrightarrow> wait_inv (P - {k}) p"
  by (auto simp: wait_inv_def)

lemma wait_inv_parent_waiting:
  "wait_inv P p \<Longrightarrow> k \<notin> P \<Longrightarrow> tab p k = Some r \<Longrightarrow> status r \<noteq> Waiting \<Longrightarrow>
     k \<notin> fmdom' (waits_by_parent p)"
  by (auto simp: wait_inv_def)

lemma wait_inv_put:
  assumes "wait_inv P p" and "tab p k = Some r"
  shows "wait_inv (insert k P) (put_rec p k r r')"
  using assms by (auto simp: wait_inv_def)

lemma wait_inv_put_running:
  assumes "wait_inv P p" and "k \<notin> P" and "tab p k = Some r" and "status r \<noteq> Waiting"
  shows "wait_inv P (put_rec p k r r')"
proof -
  have "k \<notin> fmdom' (waits_by_parent p)"
    by (rule wait_inv_parent_waiting [OF assms])
  then show ?thesis
    using wait_inv_drop [OF wait_inv_put [OF assms(1,3), of r'], of k] assms(2)
    by simp
qed

definition only_waits_differ :: "'v task_pool \<Rightarrow> 'v task_pool \<Rightarrow> bool" where
  "only_waits_differ p q \<longleftrightarrow>
     (\<exists>c m. q = p\<lparr>waits_by_child := c, waits_by_parent := m\<rparr>)"

lemma only_waits_differ_simps:
  assumes "only_waits_differ p q"
  shows "tasks q = tasks p" "indexes q = indexes p" "statistics q = statistics p"
    "terminal_order q = terminal_order p" "history_retention q = history_retention p"
    "core_inv W L q = core_inv W L p" "hist_inv P q = hist_inv P p"
    "evicted_task_ids q = evicted_task_ids p" "next_sequence q = next_sequence p"
proof -
  from assms obtain c m where q: "q = p\<lparr>waits_by_child := c, waits_by_parent := m\<rparr>"
    by (auto simp: only_waits_differ_def)
  show "tasks q = tasks p" "indexes q = indexes p" "statistics q = statistics p"
    "terminal_order q = terminal_order p" "history_retention q = history_retention p"
    "core_inv W L q = core_inv W L p" "hist_inv P q = hist_inv P p"
    "evicted_task_ids q = evicted_task_ids p" "next_sequence q = next_sequence p"
    by (simp_all add: q core_inv_def evicted_ok_def cache_ok_def hist_inv_def)
qed

lemma remove_waits_None:
  assumes "fmlookup (waits_by_parent p) k = None"
  shows "remove_waits_for_parent k p = p"
  using assms by (simp add: remove_waits_for_parent_def fm_get_or_def Let_def)

lemma remove_waits_Some:
  assumes "fmlookup (waits_by_parent p) k = Some [w]"
  shows "remove_waits_for_parent k p =
     p\<lparr>waits_by_child := retain_waits (\<lambda>item. parent_task_id item \<noteq> k) (await_child_id w)
         (waits_by_child p),
       waits_by_parent := fmdrop k (waits_by_parent p)\<rparr>"
  using assms by (simp add: remove_waits_for_parent_def fm_get_or_def Let_def)

lemma wait_inv_parentE:
  assumes "wait_inv P p" and "fmlookup (waits_by_parent p) k = Some ws"
  obtains w cs where "ws = [w]" and "parent_task_id w = k"
    and "fmlookup (waits_by_child p) (await_child_id w) = Some cs" and "w \<in> set cs"
  using assms unfolding wait_inv_def by blast

lemma wait_inv_child:
  assumes "wait_inv P p" and "fmlookup (waits_by_child p) c = Some cs"
  shows "cs \<noteq> []" and "distinct (map parent_task_id cs)" and "c \<in> dom (tab p)"
    and "\<And>w. w \<in> set cs \<Longrightarrow> await_child_id w = c"
    and "\<And>w. w \<in> set cs \<Longrightarrow> fmlookup (waits_by_parent p) (parent_task_id w) = Some [w]"
  using assms by (simp_all add: wait_inv_def)

lemma wait_inv_parent_record:
  assumes "wait_inv P p" and "k \<in> fmdom' (waits_by_parent p)" and "k \<notin> P"
  shows "\<exists>r. tab p k = Some r \<and> status r = Waiting"
  using assms by (simp add: wait_inv_def)

lemma wait_invI:
  assumes "\<And>k ws. fmlookup (waits_by_parent p) k = Some ws \<Longrightarrow>
      \<exists>w cs. ws = [w] \<and> parent_task_id w = k \<and>
        fmlookup (waits_by_child p) (await_child_id w) = Some cs \<and> w \<in> set cs"
    and "\<And>c cs. fmlookup (waits_by_child p) c = Some cs \<Longrightarrow>
      cs \<noteq> [] \<and> distinct (map parent_task_id cs) \<and> c \<in> dom (tab p) \<and>
      (\<forall>w \<in> set cs. await_child_id w = c \<and>
         fmlookup (waits_by_parent p) (parent_task_id w) = Some [w])"
    and "\<And>k. k \<in> fmdom' (waits_by_parent p) \<Longrightarrow> k \<notin> P \<Longrightarrow>
      \<exists>r. tab p k = Some r \<and> status r = Waiting"
  shows "wait_inv P p"
  unfolding wait_inv_def using assms by simp

lemma remove_waits_differ:
  assumes "wait_inv P p"
  shows "only_waits_differ p (remove_waits_for_parent k p)"
proof (cases "fmlookup (waits_by_parent p) k")
  case None
  then show ?thesis
    unfolding only_waits_differ_def
    by (intro exI [of _ "waits_by_child p"] exI [of _ "waits_by_parent p"])
      (simp add: remove_waits_None)
next
  case (Some ws)
  with assms obtain w where "ws = [w]"
    by (rule wait_inv_parentE)
  with Some show ?thesis
    unfolding only_waits_differ_def by (simp only: remove_waits_Some) blast
qed

lemma retain_waits_lookup:
  "fmlookup (retain_waits keep k m) c =
     (if c = k then (case fmlookup m k of
          None \<Rightarrow> None
        | Some ws \<Rightarrow> if filter keep ws = [] then None else Some (filter keep ws))
      else fmlookup m c)"
  by (cases "fmlookup m k") (simp_all add: retain_waits_def Let_def)

lemma remove_waits_inv:
  assumes inv: "wait_inv P p"
  shows "wait_inv (P - {k}) (remove_waits_for_parent k p)"
proof (cases "fmlookup (waits_by_parent p) k")
  case None
  then show ?thesis
    using wait_inv_drop [OF inv, of k] by (simp add: remove_waits_None fmdom'_lookup)
next
  case (Some ws)
  with inv obtain w cs where w: "ws = [w]" "parent_task_id w = k"
    "fmlookup (waits_by_child p) (await_child_id w) = Some cs" "w \<in> set cs"
    by (rule wait_inv_parentE)
  define q where "q = remove_waits_for_parent k p"
  have q: "q = p\<lparr>waits_by_child := retain_waits (\<lambda>item. parent_task_id item \<noteq> k)
         (await_child_id w) (waits_by_child p),
       waits_by_parent := fmdrop k (waits_by_parent p)\<rparr>"
    using Some w(1) by (simp add: q_def remove_waits_Some)
  have par: "fmlookup (waits_by_parent q) j = (if j = k then None else fmlookup (waits_by_parent p) j)"
    for j by (simp add: q)
  have tq: "tab q = tab p"
    by (simp add: q)
  have child: "fmlookup (waits_by_child q) c = (case fmlookup (waits_by_child p) c of
      None \<Rightarrow> None
    | Some cs \<Rightarrow> (let cs' = filter (\<lambda>item. parent_task_id item \<noteq> k) cs
        in if cs' = [] then None else Some cs'))" for c
  proof (cases "c = await_child_id w")
    case True
    then show ?thesis by (simp add: q retain_waits_lookup w(3) Let_def)
  next
    case False
    have "\<forall>item \<in> set cs'. parent_task_id item \<noteq> k"
      if "fmlookup (waits_by_child p) c = Some cs'" for cs'
    proof
      fix item
      assume "item \<in> set cs'"
      then have "await_child_id item = c"
        "fmlookup (waits_by_parent p) (parent_task_id item) = Some [item]"
        using wait_inv_child(4,5) [OF inv that] by simp_all
      with Some w(1) False show "parent_task_id item \<noteq> k" by auto
    qed
    moreover have "cs' \<noteq> []" if "fmlookup (waits_by_child p) c = Some cs'" for cs'
      using wait_inv_child(1) [OF inv that] .
    ultimately show ?thesis
      using False
      by (cases "fmlookup (waits_by_child p) c") (simp_all add: q retain_waits_lookup Let_def)
  qed
  have part1: "\<exists>w cs. ws = [w] \<and> parent_task_id w = j \<and>
      fmlookup (waits_by_child q) (await_child_id w) = Some cs \<and> w \<in> set cs"
    if j: "fmlookup (waits_by_parent q) j = Some ws" for j ws
  proof -
    from j have "j \<noteq> k" and "fmlookup (waits_by_parent p) j = Some ws"
      by (simp_all add: par split: if_splits)
    from inv this(2) obtain v vs where v: "ws = [v]" "parent_task_id v = j"
      "fmlookup (waits_by_child p) (await_child_id v) = Some vs" "v \<in> set vs"
      by (rule wait_inv_parentE)
    then have "v \<in> set (filter (\<lambda>item. parent_task_id item \<noteq> k) vs)"
      using \<open>j \<noteq> k\<close> by simp
    with v show ?thesis
      by (auto simp: child Let_def filter_empty_conv)
  qed
  have part2: "cs' \<noteq> [] \<and> distinct (map parent_task_id cs') \<and> c \<in> dom (tab q) \<and>
      (\<forall>w \<in> set cs'. await_child_id w = c \<and>
         fmlookup (waits_by_parent q) (parent_task_id w) = Some [w])"
    if c: "fmlookup (waits_by_child q) c = Some cs'" for c cs'
  proof -
    from c obtain vs where vs: "fmlookup (waits_by_child p) c = Some vs"
      "cs' = filter (\<lambda>item. parent_task_id item \<noteq> k) vs" "cs' \<noteq> []"
      by (auto simp: child Let_def split: option.splits if_splits)
    with wait_inv_child [OF inv vs(1)] show ?thesis
      by (simp add: par tq distinct_map_filter)
  qed
  have part3: "\<exists>r. tab q j = Some r \<and> status r = Waiting"
    if "j \<in> fmdom' (waits_by_parent q)" "j \<notin> P - {k}" for j
  proof -
    from that have "j \<in> fmdom' (waits_by_parent p)" "j \<notin> P"
      by (auto simp: fmdom'_lookup par split: if_splits)
    then show ?thesis
      using wait_inv_parent_record [OF inv] tq by simp
  qed
  show ?thesis
    unfolding q_def [symmetric] by (rule wait_invI) (fact part1 part2 part3)+
qed

lemma remove_waits_gone: "wait_inv P p \<Longrightarrow> k \<notin> fmdom' (waits_by_parent (remove_waits_for_parent k p))"
proof (cases "fmlookup (waits_by_parent p) k")
  case None
  then show ?thesis by (simp add: remove_waits_None fmdom'_lookup)
next
  case (Some ws)
  moreover assume "wait_inv P p"
  ultimately obtain w where "ws = [w]"
    using wait_inv_parentE by blast
  with Some show ?thesis
    by (simp add: remove_waits_Some fmdom'_lookup)
qed

section \<open>Eviction\<close>

lemma trim_eq:
  "trim_evicted_task_ids c p =
     p\<lparr>evicted_task_order := drop (length (evicted_task_order p) - c) (evicted_task_order p),
       evicted_task_ids := evicted_task_ids p |-|
         fset_of_list (take (length (evicted_task_order p) - c) (evicted_task_order p))\<rparr>"
proof (induction c p rule: trim_evicted_task_ids.induct)
  case (1 c p)
  show ?case
  proof (cases "c < length (evicted_task_order p)")
    case False
    then show ?thesis
      by (simp add: trim_evicted_task_ids.simps)
  next
    case True
    then obtain e es where es: "evicted_task_order p = e # es"
      by (cases "evicted_task_order p") auto
    with True have "Suc (length es) - c = Suc (length es - c)"
      by simp
    then show ?thesis
      using "1.IH" [OF True es] True es
      by (subst trim_evicted_task_ids.simps) (simp add: fminus_finsert2 [symmetric] funion_assoc)
  qed
qed

definition compacted :: "string set \<Rightarrow> 'v task_pool \<Rightarrow> 'v task_pool \<Rightarrow> bool" where
  "compacted E p q \<longleftrightarrow>
     tasks q = fmfilter (\<lambda>k. k \<notin> E) (tasks p) \<and>
     E \<subseteq> terminal_ids (tab p) \<and> E \<inter> fmdom' (waits_by_child p) = {} \<and>
     E \<inter> fmdom' (waits_by_parent p) = {} \<and>
     waits_by_child q = waits_by_child p \<and> waits_by_parent q = waits_by_parent p \<and>
     history_retention q = history_retention p \<and> next_sequence q = next_sequence p \<and>
     ready_selector_cache q = ready_selector_cache p"

lemma compacted_refl: "compacted {} p p"
  by (simp add: compacted_def)

lemma compacted_tab: "compacted E p q \<Longrightarrow> tab q k = (if k \<in> E then None else tab p k)"
  by (simp add: compacted_def)

lemma compacted_tab_fun: "compacted E p q \<Longrightarrow> tab q = tab p |` (- E)"
  by (rule ext) (simp add: compacted_tab restrict_map_def)

lemma compacted_trans: "compacted E p q \<Longrightarrow> compacted F q s \<Longrightarrow> compacted (E \<union> F) p s"
proof -
  assume a: "compacted E p q" and b: "compacted F q s"
  have "F \<subseteq> terminal_ids (tab p)"
    using b compacted_tab [OF a] by (auto simp: compacted_def terminal_ids_def split: if_splits)
  with a b show ?thesis
    by (auto simp: compacted_def intro!: fmap_ext)
qed

lemma wait_inv_compacted:
  assumes inv: "wait_inv P p" and c: "compacted E p q"
  shows "wait_inv P q"
proof (rule wait_invI)
  fix k ws
  assume "fmlookup (waits_by_parent q) k = Some ws"
  then show "\<exists>w cs. ws = [w] \<and> parent_task_id w = k \<and>
      fmlookup (waits_by_child q) (await_child_id w) = Some cs \<and> w \<in> set cs"
    using inv c by (simp add: compacted_def wait_inv_def)
next
  fix k cs
  assume "fmlookup (waits_by_child q) k = Some cs"
  then have cs: "fmlookup (waits_by_child p) k = Some cs"
    using c by (simp add: compacted_def)
  then have "k \<notin> E"
    using c by (auto simp: compacted_def fmdom'_lookup)
  then have "k \<in> dom (tab q)"
    using wait_inv_child(3) [OF inv cs] by (simp add: dom_def compacted_tab [OF c])
  with wait_inv_child [OF inv cs] c
  show "cs \<noteq> [] \<and> distinct (map parent_task_id cs) \<and> k \<in> dom (tab q) \<and>
      (\<forall>w \<in> set cs. await_child_id w = k \<and>
         fmlookup (waits_by_parent q) (parent_task_id w) = Some [w])"
    by (simp add: compacted_def)
next
  fix k
  assume "k \<in> fmdom' (waits_by_parent q)" and "k \<notin> P"
  moreover from this have "k \<notin> E"
    using c by (auto simp: compacted_def)
  ultimately show "\<exists>r. tab q k = Some r \<and> status r = Waiting"
    using wait_inv_parent_record [OF inv] c by (simp add: compacted_tab [OF c] compacted_def)
qed

lemma evict_eq:
  assumes "tab p k = Some r"
  shows "\<exists>ids order. evict_terminal ret k st p =
     p\<lparr>tasks := fmdrop k (tasks p),
       indexes := update_record (indexes p) r False,
       payload_wire_bytes_map := fmdrop k (payload_wire_bytes_map p),
       statistics := (record_status_transition (Some st) None (statistics p))
         \<lparr>terminal_records_evicted := sat_add (terminal_records_evicted
            (record_status_transition (Some st) None (statistics p))) 1\<rparr>,
       evicted_task_ids := ids, evicted_task_order := order\<rparr> \<and>
     (max_evicted_task_ids ret = 0 \<longrightarrow> ids = evicted_task_ids p \<and> order = evicted_task_order p) \<and>
     (max_evicted_task_ids ret \<noteq> 0 \<longrightarrow>
        (let full = evicted_task_order p @ [k]; n = length full - max_evicted_task_ids ret
         in order = drop n full \<and>
            ids = finsert k (evicted_task_ids p) |-| fset_of_list (take n full)))"
  using assms
  by (simp add: evict_terminal_def remember_evicted_task_id_def trim_eq transition_stats_def
      remove_record_indexes_def update_record_indexes_def Let_def)

lemma evicted_ids_remember:
  assumes "distinct (xs @ [k])" and "set xs = fset s"
  shows "set (drop n (xs @ [k])) = fset (finsert k s |-| fset_of_list (take n (xs @ [k])))"
proof -
  have "set (drop n (xs @ [k])) = set (xs @ [k]) - set (take n (xs @ [k]))"
    using assms(1) set_take_disj_set_drop_if_distinct [of "xs @ [k]" n n]
    by (metis Diff_cancel Un_Diff append_take_drop_id inf_commute order_refl set_append
        sup_bot_left Diff_triv)
  with assms(2) show ?thesis
    by (auto simp: fset_of_list.rep_eq)
qed

lemma evicted_ok_evict:
  assumes ok: "evicted_ok p" and r: "tab p k = Some r" and ret: "history_retention p = Some ret"
  shows "evicted_ok (evict_terminal ret k st p)"
proof -
  obtain ids order where q: "evict_terminal ret k st p =
     p\<lparr>tasks := fmdrop k (tasks p),
       indexes := update_record (indexes p) r False,
       payload_wire_bytes_map := fmdrop k (payload_wire_bytes_map p),
       statistics := (record_status_transition (Some st) None (statistics p))
         \<lparr>terminal_records_evicted := sat_add (terminal_records_evicted
            (record_status_transition (Some st) None (statistics p))) 1\<rparr>,
       evicted_task_ids := ids, evicted_task_order := order\<rparr>"
    and zero: "max_evicted_task_ids ret = 0 \<longrightarrow> ids = evicted_task_ids p \<and> order = evicted_task_order p"
    and pos: "max_evicted_task_ids ret \<noteq> 0 \<longrightarrow>
        (let full = evicted_task_order p @ [k]; n = length full - max_evicted_task_ids ret
         in order = drop n full \<and>
            ids = finsert k (evicted_task_ids p) |-| fset_of_list (take n full))"
    using evict_eq [OF r] by blast
  have old: "distinct (evicted_task_order p)" "set (evicted_task_order p) = fset (evicted_task_ids p)"
    "fset (evicted_task_ids p) \<inter> dom (tab p) = {}"
    "length (evicted_task_order p) \<le> max_evicted_task_ids ret"
    using ok ret by (simp_all add: evicted_ok_def)
  have k: "k \<notin> fset (evicted_task_ids p)"
    using old(3) fmdom'I [OF r] by auto
  have sub: "fset ids \<subseteq> insert k (fset (evicted_task_ids p))"
    using zero pos by (cases "max_evicted_task_ids ret = 0") (auto simp: Let_def)
  have "distinct order \<and> set order = fset ids \<and> length order \<le> max_evicted_task_ids ret"
  proof (cases "max_evicted_task_ids ret = 0")
    case True
    with zero old show ?thesis by simp
  next
    case False
    define full where "full = evicted_task_order p @ [k]"
    define n where "n = length full - max_evicted_task_ids ret"
    have dist: "distinct full"
      using old(1,2) k by (simp add: full_def)
    have new: "order = drop n full" "ids = finsert k (evicted_task_ids p) |-| fset_of_list (take n full)"
      using pos False by (simp_all only: Let_def full_def n_def simp_thms)
    have "set order = fset ids"
      unfolding new full_def
      by (rule evicted_ids_remember [OF dist [unfolded full_def] old(2)])
    moreover have "length order \<le> max_evicted_task_ids ret"
      by (simp add: new(1) n_def)
    ultimately show ?thesis
      using dist by (simp add: new(1))
  qed
  then show ?thesis
    using sub old(3) ret by (auto simp: q evicted_ok_def)
qed

lemma evict_simps:
  assumes "tab p k = Some r"
  shows "tasks (evict_terminal ret k st p) = fmdrop k (tasks p)"
    "indexes (evict_terminal ret k st p) = update_record (indexes p) r False"
    "payload_wire_bytes_map (evict_terminal ret k st p) = fmdrop k (payload_wire_bytes_map p)"
    "statistics (evict_terminal ret k st p) =
       (record_status_transition (Some st) None (statistics p))
         \<lparr>terminal_records_evicted := sat_add (terminal_records_evicted
            (record_status_transition (Some st) None (statistics p))) 1\<rparr>"
    "waits_by_child (evict_terminal ret k st p) = waits_by_child p"
    "waits_by_parent (evict_terminal ret k st p) = waits_by_parent p"
    "history_retention (evict_terminal ret k st p) = history_retention p"
    "next_sequence (evict_terminal ret k st p) = next_sequence p"
    "ready_selector_cache (evict_terminal ret k st p) = ready_selector_cache p"
  using evict_eq [OF assms, of ret st] by auto

lemma core_inv_evict:
  assumes inv: "core_inv {} {} p" and r: "tab p k = Some r"
    and ret: "history_retention p = Some ret"
  shows "core_inv {} {} (evict_terminal ret k (status r) p)"
proof -
  have ix: "ix_ok (indexes p) (tab p) (tab p) (tab p)" and kd: "keyed (tab p)"
    and ev: "evicted_ok p"
    using inv by (simp_all add: core_inv_def)
  have "ix_ok (update_record (indexes p) r False) ((tab p)(k := None)) ((tab p)(k := None))
      ((tab p)(k := None))"
    by (rule ix_ok_remove [OF ix finite_dom_tab kd kd kd r]) (simp_all add: r)
  moreover have "stats_ok (record_status_transition (Some (status r)) None (statistics p))
      ((tab p)(k := None))"
    using inv r by (intro stats_ok_delete) (simp_all add: core_inv_def)
  moreover have "keyed ((tab p)(k := None))"
    using kd by (simp add: keyed_def)
  ultimately show ?thesis
    using inv evicted_ok_evict [OF ev r ret]
    by (simp add: core_inv_def evict_simps [OF r] cache_ok_def)
qed

definition protected :: "'v task_pool \<Rightarrow> string \<Rightarrow> bool" where
  "protected p k \<longleftrightarrow> k \<in> fmdom' (waits_by_child p) \<or> k \<in> fmdom' (waits_by_parent p)"

text \<open>
  What holds at the head of the eviction loop: the last \<open>pe\<close> tasks of the history were looked at
  and are protected.
\<close>

definition compact_pre ::
  "task_history_retention \<Rightarrow> string set \<Rightarrow> nat \<Rightarrow> 'v task_pool \<Rightarrow> bool" where
  "compact_pre ret P pe p \<longleftrightarrow>
     core_inv {} {} p \<and> hist_inv P p \<and> history_retention p = Some ret \<and>
     pe \<le> length (terminal_order p) \<and>
     (\<forall>k \<in> set (drop (length (terminal_order p) - pe) (terminal_order p)). protected p k)"

definition compact_post ::
  "task_history_retention \<Rightarrow> string set \<Rightarrow> string set \<Rightarrow> 'v task_pool \<Rightarrow> 'v task_pool \<Rightarrow> bool" where
  "compact_post ret P E p q \<longleftrightarrow>
     core_inv {} {} q \<and> hist_inv P q \<and> compacted E p q \<and> E \<inter> P = {} \<and>
     (length (terminal_order q) \<le> max_terminal_records ret \<or>
      (\<forall>k \<in> set (terminal_order q). protected q k))"

lemma compacted_rotate: "compacted E (p\<lparr>terminal_order := ks\<rparr>) q = compacted E p q"
proof -
  have same: "tasks (p\<lparr>terminal_order := ks\<rparr>) = tasks p"
    "waits_by_child (p\<lparr>terminal_order := ks\<rparr>) = waits_by_child p"
    "waits_by_parent (p\<lparr>terminal_order := ks\<rparr>) = waits_by_parent p"
    "history_retention (p\<lparr>terminal_order := ks\<rparr>) = history_retention p"
    "next_sequence (p\<lparr>terminal_order := ks\<rparr>) = next_sequence p"
    "ready_selector_cache (p\<lparr>terminal_order := ks\<rparr>) = ready_selector_cache p"
    by simp_all
  show ?thesis
    unfolding compacted_def same ..
qed

lemma core_inv_terminal_order [simp]:
  "core_inv W L (p\<lparr>terminal_order := ks\<rparr>) = core_inv W L p"
  by (simp add: core_inv_def evicted_ok_def cache_ok_def)

lemma compact_pre_rotate:
  assumes pre: "compact_pre ret P pe p" and ks: "terminal_order p = k # ks"
    and less: "pe < length (terminal_order p)" and prot: "protected p k"
  shows "compact_pre ret P (pe + 1) (p\<lparr>terminal_order := ks @ [k]\<rparr>)"
proof -
  have "drop (length (k # ks) - pe) (k # ks) = drop (length ks - pe) ks"
    using less ks by (simp add: Suc_diff_le)
  then have "\<forall>j \<in> set (drop (length ks - pe) ks). protected p j"
    using pre ks by (simp add: compact_pre_def)
  with pre ks less prot show ?thesis
    by (auto simp: compact_pre_def protected_def hist_inv_def)
qed

lemma compact_pre_evict:
  assumes pre: "compact_pre ret P pe p" and ks: "terminal_order p = k # ks"
    and free: "\<not> protected p k"
  shows "\<exists>r. tab p k = Some r \<and> k \<notin> P \<and>
     compact_pre ret P 0 (evict_terminal ret k (status r) (p\<lparr>terminal_order := ks\<rparr>)) \<and>
     compacted {k} p (evict_terminal ret k (status r) (p\<lparr>terminal_order := ks\<rparr>))"
proof -
  have dist: "distinct (k # ks)" and elems: "set (k # ks) = terminal_ids (tab p) - P"
    and ret: "history_retention p = Some ret"
    using pre by (simp_all add: compact_pre_def hist_inv_def ks)
  then have k: "k \<in> terminal_ids (tab p)" "k \<notin> P"
    by auto
  then obtain r where r: "tab p k = Some r"
    by (auto simp: terminal_ids_def)
  define p0 where "p0 = p\<lparr>terminal_order := ks\<rparr>"
  define p' where "p' = evict_terminal ret k (status r) p0"
  have r0: "tab p0 k = Some r" and ret0: "history_retention p0 = Some ret"
    using r ret by (simp_all add: p0_def)
  have core': "core_inv {} {} p'"
    unfolding p'_def using pre r0 ret0
    by (intro core_inv_evict) (simp_all add: p0_def compact_pre_def)
  have tab': "tasks p' = fmdrop k (tasks p)" and ord': "terminal_order p' = ks"
    and ret': "history_retention p' = Some ret"
    using ret evict_simps [OF r0] by (simp_all add: p'_def p0_def)
  have "terminal_ids (tab p') = terminal_ids (tab p) - {k}"
    by (auto simp: terminal_ids_def tab')
  then have "hist_inv P p'"
    using dist elems ord' ret' by (auto simp: hist_inv_def)
  with core' ret' have "compact_pre ret P 0 p'"
    by (simp add: compact_pre_def)
  moreover have "compacted {k} p p'"
    using free k evict_simps [OF r0]
    by (auto simp: compacted_def p'_def p0_def protected_def intro!: fmap_ext)
  ultimately show ?thesis
    using r k unfolding p'_def p0_def by blast
qed

text \<open>
  The eviction loop does not panic, keeps the invariants, drops only unprotected terminal
  records, and stops within the limit or when everything left is protected.
\<close>

lemma compact_loop_ok:
  assumes "compact_pre ret P pe p"
  shows "\<exists>q E. compact_loop ret pe p = Some q \<and> compact_post ret P E p q"
  using assms
proof (induction ret pe p rule: compact_loop.induct)
  case (1 ret pe p)
  show ?case
  proof (cases "max_terminal_records ret < length (terminal_order p) \<and>
      pe < length (terminal_order p)")
    case False
    have "compact_loop ret pe p = Some p"
      by (subst compact_loop.simps) (rule if_not_P [OF False])
    moreover have "compact_post ret P {} p p"
      using False "1.prems" compacted_refl by (auto simp: compact_pre_def compact_post_def not_less)
    ultimately show ?thesis by blast
  next
    case True
    then obtain k ks where ks: "terminal_order p = k # ks"
      by (cases "terminal_order p") auto
    have prot: "protected p k \<longleftrightarrow> k |\<in>| fmdom (waits_by_child p) \<or> k |\<in>| fmdom (waits_by_parent p)"
      by (simp add: protected_def fmdom'_alt_def)
    show ?thesis
    proof (cases "protected p k")
      case p: True
      have "compact_loop ret pe p = compact_loop ret (pe + 1) (p\<lparr>terminal_order := ks @ [k]\<rparr>)"
        using True ks p prot by (simp add: compact_loop.simps [of ret pe p])
      with "1.IH"(1) [OF True ks p [unfolded prot]
          compact_pre_rotate [OF "1.prems" ks conjunct2 [OF True] p]]
      show ?thesis
        by (auto simp: compact_post_def compacted_rotate)
    next
      case free: False
      obtain r where r: "tab p k = Some r" "k \<notin> P"
        "compact_pre ret P 0 (evict_terminal ret k (status r) (p\<lparr>terminal_order := ks\<rparr>))"
        "compacted {k} p (evict_terminal ret k (status r) (p\<lparr>terminal_order := ks\<rparr>))"
        using compact_pre_evict [OF "1.prems" ks free] by blast
      have step: "compact_loop ret pe p =
          compact_loop ret 0 (evict_terminal ret k (status r) (p\<lparr>terminal_order := ks\<rparr>))"
        using True ks free prot r(1) by (simp add: compact_loop.simps [of ret pe p])
      obtain q E where q: "compact_loop ret 0
            (evict_terminal ret k (status r) (p\<lparr>terminal_order := ks\<rparr>)) = Some q"
        "compact_post ret P E (evict_terminal ret k (status r) (p\<lparr>terminal_order := ks\<rparr>)) q"
        using "1.IH"(2) [OF True ks free [unfolded prot] r(1,3)] by blast
      have "compact_post ret P ({k} \<union> E) p q"
        using q(2) r(2) compacted_trans [OF r(4), of E q] by (simp add: compact_post_def)
      with q(1) step show ?thesis by auto
    qed
  qed
qed

lemma compact_terminal_history_ok:
  assumes "core_inv {} {} p" and "hist_inv P p"
  shows "\<exists>q E. compact_terminal_history p = Some q \<and> core_inv {} {} q \<and> hist_inv P q \<and>
     compacted E p q \<and> E \<inter> P = {} \<and>
     (\<forall>ret. history_retention p = Some ret \<longrightarrow>
        length (terminal_order q) \<le> max_terminal_records ret \<or>
        (\<forall>k \<in> set (terminal_order q). protected q k)) \<and>
     (history_retention p = None \<longrightarrow> q = p \<and> E = {})"
proof (cases "history_retention p")
  case None
  with assms compacted_refl [of p] show ?thesis
    by (auto simp: compact_terminal_history_def)
next
  case (Some ret)
  with assms have "compact_pre ret P 0 p"
    by (simp add: compact_pre_def)
  from compact_loop_ok [OF this] Some show ?thesis
    by (auto simp: compact_terminal_history_def compact_post_def)
qed

lemma hist_inv_push:
  assumes "hist_inv (insert k P) p" and "k \<in> terminal_ids (tab p)" and "k \<notin> P"
    and "history_retention p \<noteq> None"
  shows "hist_inv P (p\<lparr>terminal_order := terminal_order p @ [k]\<rparr>)"
  using assms by (auto simp: hist_inv_def)

text \<open>
  What the effect on the table of tasks is when one record settles into \<open>r'\<close>: history may drop
  unprotected terminal records afterwards, and drops nothing without a retention.
\<close>

definition settles :: "'v task_pool \<Rightarrow> string \<Rightarrow> 'v task_record \<Rightarrow> 'v task_pool \<Rightarrow> bool" where
  "settles p k r' q \<longleftrightarrow>
     (\<exists>E. E \<subseteq> terminal_ids ((tab p)(k := Some r')) \<and> tab q = (tab p)(k := Some r') |` (- E) \<and>
        E \<inter> fmdom' (waits_by_child q) = {} \<and>
        (history_retention p = None \<longrightarrow> E = {}))"

lemma record_terminal_task_ok:
  assumes "core_inv {} {} p" and "hist_inv (insert k P) p" and "wait_inv Q p"
    and "k \<in> terminal_ids (tab p)" and "k \<notin> P"
  shows "\<exists>q E. record_terminal_task k p = Some q \<and> core_inv {} {} q \<and> hist_inv P q \<and>
     wait_inv Q q \<and> compacted E p q \<and> E \<inter> P = {} \<and>
     (\<forall>ret. history_retention p = Some ret \<longrightarrow>
        length (terminal_order q) \<le> max_terminal_records ret \<or>
        (\<forall>k \<in> set (terminal_order q). protected q k)) \<and>
     (history_retention p = None \<longrightarrow> q = p \<and> E = {})"
proof (cases "history_retention p = None")
  case True
  then have "hist_inv P p"
    using assms(2) by (simp add: hist_inv_def)
  with True assms compacted_refl [of p] show ?thesis
    by (auto simp: record_terminal_task_def)
next
  case False
  define p' where "p' = p\<lparr>terminal_order := terminal_order p @ [k]\<rparr>"
  have core: "core_inv {} {} p'"
    using assms(1) by (simp add: p'_def)
  have hist: "hist_inv P p'"
    unfolding p'_def by (rule hist_inv_push [OF assms(2,4,5) False])
  have ret: "history_retention p' = history_retention p"
    by (simp add: p'_def)
  obtain q E where q: "compact_terminal_history p' = Some q" "core_inv {} {} q" "hist_inv P q"
    "compacted E p' q" "E \<inter> P = {}"
    "\<forall>ret. history_retention p' = Some ret \<longrightarrow>
        length (terminal_order q) \<le> max_terminal_records ret \<or>
        (\<forall>k \<in> set (terminal_order q). protected q k)"
    using compact_terminal_history_ok [OF core hist] by blast
  have comp: "compacted E p q"
    using q(4) by (simp add: p'_def compacted_rotate)
  show ?thesis
    using False q comp wait_inv_compacted [OF assms(3) comp]
    by (auto simp: record_terminal_task_def p'_def [symmetric] ret)
qed

lemma terminal_status_simps [simp]:
  "is_terminal_status Completed" "is_terminal_status Failed" "is_terminal_status Cancelled"
  "is_terminal_status Expired" "is_terminal_status DeadLetter"
  "\<not> is_terminal_status Created" "\<not> is_terminal_status Ready" "\<not> is_terminal_status Running"
  "\<not> is_terminal_status Waiting" "\<not> is_terminal_status Blocked"
  by (simp_all add: is_terminal_status_def)

end
