(* ===== verification/Pool_Operations.thy ===== *)
theory Pool_Operations
  imports Pool_Invariant
begin

text \<open>
  Every operation of the task pool keeps the invariant and never panics, with its effect on
  the table of tasks on each branch. An operation that fails returns the pool it was given.
\<close>

section \<open>Records after a transition\<close>

lemma record_ok_make_ready: "record_ok (make_ready s r)"
  by (simp add: record_ok_def make_ready_def release_record_lease_def)

lemma record_ok_mark_terminal:
  "is_terminal_status st \<Longrightarrow> (st = Failed \<or> st = Expired \<or> st = DeadLetter \<longrightarrow> f \<noteq> None) \<Longrightarrow>
     record_ok (mark_terminal_record st f r)"
  by (cases st)
    (auto simp: record_ok_def mark_terminal_record_def release_record_lease_def
      clear_record_owner_def)

lemma mark_terminal_simps [simp]:
  "status (mark_terminal_record st f r) = st"
  "task_id (rec_task (mark_terminal_record st f r)) = task_id (rec_task r)"
  "lease (mark_terminal_record st f r) = None"
  "owner_runner (mark_terminal_record st f r) = None"
  "failure (mark_terminal_record st f r) = f"
  "attempt_generation (mark_terminal_record st f r) = attempt_generation r"
  "rec_output (mark_terminal_record st f r) = rec_output r"
  by (simp_all add: mark_terminal_record_def release_record_lease_def clear_record_owner_def)

lemma release_simps [simp]:
  "status (release_record_lease r) = status r"
  "task_id (rec_task (release_record_lease r)) = task_id (rec_task r)"
  "lease (release_record_lease r) = None"
  "claimed_by (release_record_lease r) = None"
  "owner_runner (release_record_lease r) = owner_runner r"
  "attempt_generation (release_record_lease r) = attempt_generation r"
  "failure (release_record_lease r) = failure r"
  by (simp_all add: release_record_lease_def)

lemma make_ready_simps [simp]:
  "status (make_ready s r) = Ready"
  "task_id (rec_task (make_ready s r)) = task_id (rec_task r)"
  "lease (make_ready s r) = None"
  "attempt_generation (make_ready s r) = attempt_generation r"
  by (simp_all add: make_ready_def)

section \<open>The two shapes of a step\<close>

lemma pool_inv_record_ok: "pool_inv p \<Longrightarrow> tab p k = Some r \<Longrightarrow> record_ok r"
  by (auto simp: pool_inv_def core_inv_def)

lemma pool_inv_keyed: "pool_inv p \<Longrightarrow> tab p k = Some r \<Longrightarrow> task_id (rec_task r) = k"
  by (auto simp: pool_inv_def core_inv_def keyed_def)

lemma record_ok_running: "record_ok r \<Longrightarrow> lease r = Some l \<Longrightarrow> status r = Running"
  by (simp add: record_ok_def)

text \<open>From one live status to another.\<close>

lemma live_step:
  assumes inv: "pool_inv p" and r: "tab p k = Some r" and ok: "record_ok r'"
    and k: "task_id (rec_task r') = k" and live: "\<not> is_terminal_status (status r)"
    "\<not> is_terminal_status (status r')" and nw: "status r \<noteq> Waiting"
  shows "pool_inv (transition_stats (Some (status r)) (Some (status r')) (put_rec p k r r'))"
proof -
  have "core_inv {} {} (transition_stats (Some (status r)) (Some (status r')) (put_rec p k r r'))"
    using core_inv_put [OF _ r k ok, of "{}" "{}"] inv by (simp add: pool_inv_def)
  moreover have "hist_inv {} (put_rec p k r r')"
    using inv r live by (auto simp: pool_inv_def intro: hist_inv_put_live)
  moreover have "wait_inv {} (put_rec p k r r')"
    using inv r nw by (auto simp: pool_inv_def intro: wait_inv_put_running)
  ultimately show ?thesis
    by (simp add: pool_inv_def)
qed

text \<open>From \<open>Waiting\<close> or another live status to a live one, with the waits of the task dropped.\<close>

lemma wake_step:
  assumes inv: "pool_inv p" and r: "tab p k = Some r" and ok: "record_ok r'"
    and k: "task_id (rec_task r') = k" and live: "\<not> is_terminal_status (status r)"
    "\<not> is_terminal_status (status r')"
  shows "pool_inv (remove_waits_for_parent k
     (transition_stats (Some (status r)) (Some (status r')) (put_rec p k r r')))"
proof -
  let ?q = "transition_stats (Some (status r)) (Some (status r')) (put_rec p k r r')"
  have "core_inv {} {} ?q"
    using core_inv_put [OF _ r k ok, of "{}" "{}"] inv by (simp add: pool_inv_def)
  moreover have "hist_inv {} ?q"
    using inv r live by (auto simp: pool_inv_def intro: hist_inv_put_live)
  moreover have w: "wait_inv {k} ?q"
    using wait_inv_put [of "{}" p k r r'] inv r by (simp add: pool_inv_def)
  ultimately show ?thesis
    using remove_waits_inv [OF w, of k] only_waits_differ_simps [OF remove_waits_differ [OF w, of k]]
    by (simp add: pool_inv_def)
qed

text \<open>
  From a live status to a terminal one, after the waits of the task are dropped or when there
  are none. \<open>g\<close> is the accounting in between: it touches neither tasks nor invariants.
\<close>

definition accounting :: "('v task_pool \<Rightarrow> 'v task_pool) \<Rightarrow> bool" where
  "accounting g \<longleftrightarrow> (\<forall>p. tasks (g p) = tasks p \<and> waits_by_child (g p) = waits_by_child p \<and>
     waits_by_parent (g p) = waits_by_parent p \<and> history_retention (g p) = history_retention p \<and>
     terminal_order (g p) = terminal_order p \<and> (\<forall>W L. core_inv W L (g p) = core_inv W L p))"

lemma accounting_id: "accounting (\<lambda>p. p)"
  by (simp add: accounting_def)

lemma accounting_attempt: "accounting (record_attempt_finished l s)"
  by (simp add: accounting_def)

lemma accounting_optional:
  "accounting (\<lambda>p. case o' of None \<Rightarrow> p | Some l \<Rightarrow> record_attempt_finished l s p)"
  by (cases o') (simp_all add: accounting_id accounting_attempt)

lemma accounting_hist: "accounting g \<Longrightarrow> hist_inv P (g p) = hist_inv P p"
  by (rule hist_inv_cong) (simp_all add: accounting_def)

lemma accounting_wait: "accounting g \<Longrightarrow> wait_inv P (g p) = wait_inv P p"
  by (rule wait_inv_cong) (simp_all add: accounting_def)

lemma settles_compacted:
  assumes "compacted E p' q" and "tab p' = (tab p)(k := Some r')"
    and "history_retention p = None \<longrightarrow> E = {}"
  shows "settles p k r' q"
  unfolding settles_def
proof (intro exI conjI)
  show "E \<subseteq> terminal_ids ((tab p)(k := Some r'))"
    using assms(1,2) by (simp add: compacted_def)
  show "tab q = (tab p)(k := Some r') |` (- E)"
    using compacted_tab_fun [OF assms(1)] assms(2) by simp
  show "E \<inter> fmdom' (waits_by_child q) = {}"
    using assms(1) by (simp add: compacted_def)
qed (rule assms(3))

definition within_retention :: "'v task_pool \<Rightarrow> bool" where
  "within_retention q \<longleftrightarrow>
     (\<forall>ret. history_retention q = Some ret \<longrightarrow>
        length (terminal_order q) \<le> max_terminal_records ret \<or>
        (\<forall>k \<in> set (terminal_order q). protected q k))"

lemma terminal_step:
  assumes inv: "pool_inv p" and r: "tab p k = Some r" and ok: "record_ok r'"
    and k: "task_id (rec_task r') = k" and live: "\<not> is_terminal_status (status r)"
    and trm: "is_terminal_status (status r')" and g: "accounting g"
    and drop: "status r = Waiting \<longrightarrow> dropw"
  shows "\<exists>q. record_terminal_task k
     ((if dropw then remove_waits_for_parent k else id)
       (g (transition_stats (Some (status r)) (Some (status r')) (put_rec p k r r')))) = Some q \<and>
     pool_inv q \<and> settles p k r' q \<and> within_retention q"
proof -
  let ?q = "g (transition_stats (Some (status r)) (Some (status r')) (put_rec p k r r'))"
  have core: "core_inv {} {} ?q"
    using core_inv_put [OF _ r k ok, of "{}" "{}"] inv g by (simp add: pool_inv_def accounting_def)
  have hist: "hist_inv {k} ?q"
    using hist_inv_put_terminal [OF _ r live trm, of "{}"] inv
    by (simp add: pool_inv_def accounting_hist [OF g])
  have w: "wait_inv {k} ?q"
    using wait_inv_put [of "{}" p k r r'] inv r by (simp add: pool_inv_def accounting_wait [OF g])
  have tabq: "tasks ?q = fmupd k r' (tasks p)" "history_retention ?q = history_retention p"
    using g by (simp_all add: accounting_def)
  define q1 where "q1 = (if dropw then remove_waits_for_parent k else id) ?q"
  have q1: "core_inv {} {} q1 \<and> hist_inv {k} q1 \<and> wait_inv {} q1 \<and>
      tab q1 = (tab p)(k := Some r') \<and> history_retention q1 = history_retention p"
  proof (cases dropw)
    case True
    then show ?thesis
      using core hist tabq remove_waits_inv [OF w, of k]
        only_waits_differ_simps [OF remove_waits_differ [OF w, of k]]
      by (simp add: q1_def)
  next
    case False
    with drop have "wait_inv {} (put_rec p k r r')"
      using inv r by (auto simp: pool_inv_def intro: wait_inv_put_running)
    with False core hist tabq show ?thesis
      by (simp add: q1_def accounting_wait [OF g])
  qed
  moreover have "k \<in> terminal_ids (tab q1)"
    using q1 trm by (auto simp: terminal_ids_def)
  ultimately obtain q E where q: "record_terminal_task k q1 = Some q" "core_inv {} {} q"
    "hist_inv {} q" "wait_inv {} q" "compacted E q1 q"
    "\<forall>ret. history_retention q1 = Some ret \<longrightarrow>
        length (terminal_order q) \<le> max_terminal_records ret \<or>
        (\<forall>k \<in> set (terminal_order q). protected q k)"
    "history_retention q1 = None \<longrightarrow> q = q1 \<and> E = {}"
    using record_terminal_task_ok [of q1 k "{}" "{}"] by auto
  have "settles p k r' q"
    using settles_compacted [OF q(5)] q1 q(7) by simp
  moreover have "within_retention q"
    using q(5,6) by (simp add: within_retention_def compacted_def)
  ultimately show ?thesis
    using q by (auto simp: q1_def pool_inv_def)
qed

section \<open>Leases\<close>

definition holds_lease :: "'v task_pool \<Rightarrow> task_lease \<Rightarrow> u64 \<Rightarrow> bool" where
  "holds_lease p l current_step \<longleftrightarrow>
     (\<exists>r. tab p (lease_task_id l) = Some r \<and> lease r = Some l) \<and>
     \<not> task_lease_expired l current_step"

definition lease_error :: "'v task_pool \<Rightarrow> task_lease \<Rightarrow> u64 \<Rightarrow> string \<Rightarrow> runtime_error" where
  "lease_error p l current_step action =
     (case tab p (lease_task_id l) of
        None \<Rightarrow> task_not_found (lease_task_id l)
      | Some r \<Rightarrow> lease_conflict r l current_step action)"

lemma validate_record_lease_iff:
  assumes "record_ok r"
  shows "validate_record_lease r l s a =
     (if lease r = Some l \<and> \<not> task_lease_expired l s then Inr () else Inl (lease_conflict r l s a))"
  using assms
  by (auto simp: validate_record_lease_def record_ok_def Let_def split: option.splits)

lemma with_lease_reject:
  assumes inv: "pool_inv p" and "\<not> holds_lease p l s"
  shows "mutate_record_indexed p (lease_task_id l) (with_lease l s a f) =
     (Inl (lease_error p l s a), p)"
proof (cases "tab p (lease_task_id l)")
  case None
  then show ?thesis by (simp add: mutate_None lease_error_def)
next
  case (Some r)
  with assms(2) have "\<not> (lease r = Some l \<and> \<not> task_lease_expired l s)"
    by (auto simp: holds_lease_def)
  then have "with_lease l s a f r = (Inl (lease_conflict r l s a), r)"
    by (simp add: with_lease_def validate_record_lease_iff [OF pool_inv_record_ok [OF inv Some]])
  with inv Some show ?thesis
    by (simp add: mutate_unchanged pool_inv_def lease_error_def)
qed

lemma with_lease_accept:
  assumes inv: "pool_inv p" and "holds_lease p l s" and r: "tab p (lease_task_id l) = Some r"
  shows "mutate_record_indexed p (lease_task_id l) (with_lease l s a f) =
     (Inr (), put_rec p (lease_task_id l) r (f r))"
proof -
  have "with_lease l s a f r = (Inr (), f r)"
    using assms
    by (simp add: with_lease_def holds_lease_def
        validate_record_lease_iff [OF pool_inv_record_ok [OF inv r]])
  with r show ?thesis
    by (simp add: mutate_Some)
qed

lemma holds_leaseE:
  assumes "pool_inv p" and "holds_lease p l s"
  obtains r where "tab p (lease_task_id l) = Some r" and "lease r = Some l"
    and "status r = Running" and "task_id (rec_task r) = lease_task_id l"
  using assms by (auto simp: holds_lease_def dest: pool_inv_record_ok pool_inv_keyed
      record_ok_running)

section \<open>Transitions under a lease\<close>

lemma complete_with_output_ok:
  assumes inv: "pool_inv p" and hold: "holds_lease p l s" and r: "tab p (lease_task_id l) = Some r"
  shows "\<exists>q. complete_with_output p l s out = Some (Inr (), q) \<and> pool_inv q \<and>
     settles p (lease_task_id l) (mark_terminal_record Completed None (r\<lparr>rec_output := out\<rparr>)) q \<and>
     within_retention q"
proof -
  have run: "status r = Running" "task_id (rec_task r) = lease_task_id l"
    using holds_leaseE [OF inv hold] r by (metis option.inject)+
  show ?thesis
    using terminal_step [OF inv r, of "mark_terminal_record Completed None (r\<lparr>rec_output := out\<rparr>)"
        "record_attempt_finished l s" False] run
    by (auto simp: complete_with_output_def with_lease_accept [OF inv hold r]
        record_ok_mark_terminal accounting_attempt)
qed

lemma complete_with_output_reject:
  "pool_inv p \<Longrightarrow> \<not> holds_lease p l s \<Longrightarrow>
     complete_with_output p l s out = Some (Inl (lease_error p l s ''complete''), p)"
  by (simp add: complete_with_output_def with_lease_reject)

lemma fail_ok:
  assumes inv: "pool_inv p" and hold: "holds_lease p l s" and r: "tab p (lease_task_id l) = Some r"
  shows "\<exists>q. fail p l s f = Some (Inr (), q) \<and> pool_inv q \<and>
     settles p (lease_task_id l) (mark_terminal_record Failed (Some f) r) q \<and> within_retention q"
proof -
  have run: "status r = Running" "task_id (rec_task r) = lease_task_id l"
    using holds_leaseE [OF inv hold] r by (metis option.inject)+
  show ?thesis
    using terminal_step [OF inv r, of "mark_terminal_record Failed (Some f) r"
        "record_attempt_finished l s" False] run
    by (auto simp: fail_def with_lease_accept [OF inv hold r]
        record_ok_mark_terminal accounting_attempt)
qed

lemma fail_reject:
  "pool_inv p \<Longrightarrow> \<not> holds_lease p l s \<Longrightarrow>
     fail p l s f = Some (Inl (lease_error p l s ''fail''), p)"
  by (simp add: fail_def with_lease_reject)

lemma cancel_task_ok:
  assumes inv: "pool_inv p" and hold: "holds_lease p l s" and r: "tab p (lease_task_id l) = Some r"
  shows "\<exists>q. cancel_task p l s = Some (Inr (), q) \<and> pool_inv q \<and>
     settles p (lease_task_id l) (mark_terminal_record Cancelled None r) q \<and> within_retention q"
proof -
  have run: "status r = Running" "task_id (rec_task r) = lease_task_id l"
    using holds_leaseE [OF inv hold] r by (metis option.inject)+
  show ?thesis
    using terminal_step [OF inv r, of "mark_terminal_record Cancelled None r"
        "record_attempt_finished l s" True] run
    by (auto simp: cancel_task_def with_lease_accept [OF inv hold r]
        record_ok_mark_terminal accounting_attempt)
qed

lemma cancel_task_reject:
  "pool_inv p \<Longrightarrow> \<not> holds_lease p l s \<Longrightarrow>
     cancel_task p l s = Some (Inl (lease_error p l s ''cancel''), p)"
  by (simp add: cancel_task_def with_lease_reject)

lemma pool_inv_attempt_finished [simp]: "pool_inv (record_attempt_finished l s p) = pool_inv p"
  by (simp add: pool_inv_def)

text \<open>The transitions that release the lease and leave the task alive.\<close>

lemma release_step:
  assumes inv: "pool_inv p" and hold: "holds_lease p l s" and r: "tab p (lease_task_id l) = Some r"
    and ok: "record_ok r'" and k: "task_id (rec_task r') = lease_task_id l"
    and live: "\<not> is_terminal_status (status r')"
  shows "pool_inv (record_attempt_finished l s
     (transition_stats (Some Running) (Some (status r')) (put_rec p (lease_task_id l) r r')))"
proof -
  have run: "status r = Running"
    using holds_leaseE [OF inv hold] r by (metis option.inject)
  show ?thesis
    using live_step [OF inv r ok k _ live] by (simp add: run)
qed

definition waiting_rec :: "u64 option \<Rightarrow> 'v task_record \<Rightarrow> 'v task_record" where
  "waiting_rec at r = release_record_lease (r\<lparr>status := Waiting,
     rec_task := (rec_task r)\<lparr>ready_at_step := at\<rparr>\<rparr>)"

definition deferred_rec :: "u64 \<Rightarrow> 'v task_record \<Rightarrow> 'v task_record" where
  "deferred_rec s r = clear_record_owner (make_ready s r)"

definition blocked_rec :: "'v task_record \<Rightarrow> 'v task_record" where
  "blocked_rec r = release_record_lease (r\<lparr>status := Blocked\<rparr>)"

definition awaiting_rec :: "task_await \<Rightarrow> 'v task_record \<Rightarrow> 'v task_record" where
  "awaiting_rec w r = release_record_lease (r\<lparr>status := Waiting,
     rec_task := (rec_task r)\<lparr>ready_at_step := ready_step_for_wait w,
       continuation_ref := Some (ref_id (continuation (await_continuation w)))\<rparr>\<rparr>)"

lemmas live_rec_defs = waiting_rec_def deferred_rec_def blocked_rec_def awaiting_rec_def

lemma live_rec_ok:
  "record_ok (waiting_rec at r)" "record_ok (deferred_rec s r)" "record_ok (blocked_rec r)"
  "record_ok (awaiting_rec w r)"
  by (simp_all add: live_rec_defs record_ok_def make_ready_def release_record_lease_def
      clear_record_owner_def)

lemma live_rec_simps [simp]:
  "status (waiting_rec at r) = Waiting" "status (deferred_rec s r) = Ready"
  "status (blocked_rec r) = Blocked" "status (awaiting_rec w r) = Waiting"
  "task_id (rec_task (waiting_rec at r)) = task_id (rec_task r)"
  "task_id (rec_task (deferred_rec s r)) = task_id (rec_task r)"
  "task_id (rec_task (blocked_rec r)) = task_id (rec_task r)"
  "task_id (rec_task (awaiting_rec w r)) = task_id (rec_task r)"
  "lease (waiting_rec at r) = None" "lease (deferred_rec s r) = None"
  "lease (blocked_rec r) = None" "lease (awaiting_rec w r) = None"
  by (simp_all add: live_rec_defs clear_record_owner_def make_ready_def)

lemma wait_ok:
  assumes inv: "pool_inv p" and hold: "holds_lease p l s" and r: "tab p (lease_task_id l) = Some r"
  shows "\<exists>q. wait p l s at = (Inr (), q) \<and> pool_inv q \<and>
     tab q = (tab p)(lease_task_id l := Some (waiting_rec at r))"
  using release_step [OF inv hold r live_rec_ok(1), of at] pool_inv_keyed [OF inv r]
  by (simp add: wait_def with_lease_accept [OF inv hold r] waiting_rec_def [symmetric])

lemma wait_reject:
  "pool_inv p \<Longrightarrow> \<not> holds_lease p l s \<Longrightarrow> wait p l s at = (Inl (lease_error p l s ''wait''), p)"
  by (simp add: wait_def with_lease_reject)

lemma defer_leased_ok:
  assumes inv: "pool_inv p" and hold: "holds_lease p l s" and r: "tab p (lease_task_id l) = Some r"
  shows "\<exists>q. defer_leased p l s = (Inr (), q) \<and> pool_inv q \<and>
     tab q = (tab p)(lease_task_id l := Some (deferred_rec s r))"
  using release_step [OF inv hold r live_rec_ok(2), of s] pool_inv_keyed [OF inv r]
  by (simp add: defer_leased_def with_lease_accept [OF inv hold r] make_ready_def [symmetric]
      deferred_rec_def [symmetric])

lemma defer_leased_reject:
  "pool_inv p \<Longrightarrow> \<not> holds_lease p l s \<Longrightarrow>
     defer_leased p l s = (Inl (lease_error p l s ''defer''), p)"
  by (simp add: defer_leased_def with_lease_reject)

lemma block_ok:
  assumes inv: "pool_inv p" and hold: "holds_lease p l s" and r: "tab p (lease_task_id l) = Some r"
  shows "\<exists>q. block p l s = (Inr (), q) \<and> pool_inv q \<and>
     tab q = (tab p)(lease_task_id l := Some (blocked_rec r))"
  using release_step [OF inv hold r live_rec_ok(3)] pool_inv_keyed [OF inv r]
  by (simp add: block_def with_lease_accept [OF inv hold r] blocked_rec_def [symmetric])

lemma block_reject:
  "pool_inv p \<Longrightarrow> \<not> holds_lease p l s \<Longrightarrow> block p l s = (Inl (lease_error p l s ''block''), p)"
  by (simp add: block_def with_lease_reject)

section \<open>Waiting on a task\<close>

lemma wait_inv_push:
  assumes inv: "wait_inv {} p" and new: "k \<notin> fmdom' (waits_by_parent p)"
    and w: "parent_task_id w = k" and child: "await_child_id w \<in> dom (tab p)"
    and r: "tab p k = Some r" "status r = Waiting"
  shows "wait_inv {} (p\<lparr>waits_by_child := push_wait (await_child_id w) w (waits_by_child p),
     waits_by_parent := push_wait k w (waits_by_parent p)\<rparr>)"
proof -
  define q where "q = p\<lparr>waits_by_child := push_wait (await_child_id w) w (waits_by_child p),
     waits_by_parent := push_wait k w (waits_by_parent p)\<rparr>"
  have fresh: "fmlookup (waits_by_parent p) k = None"
    using new by (simp add: fmdom'_lookup)
  have par: "fmlookup (waits_by_parent q) j =
      (if j = k then Some [w] else fmlookup (waits_by_parent p) j)" for j
    by (simp add: q_def push_wait_def fm_get_or_def fresh)
  have chi: "fmlookup (waits_by_child q) c = (if c = await_child_id w
      then Some (fm_get_or [] (waits_by_child p) c @ [w]) else fmlookup (waits_by_child p) c)" for c
    by (simp add: q_def push_wait_def)
  have tabq: "tab q = tab p"
    by (simp add: q_def)
  show ?thesis
    unfolding q_def [symmetric]
  proof (rule wait_invI)
    fix j ws
    assume j: "fmlookup (waits_by_parent q) j = Some ws"
    show "\<exists>w cs. ws = [w] \<and> parent_task_id w = j \<and>
        fmlookup (waits_by_child q) (await_child_id w) = Some cs \<and> w \<in> set cs"
    proof (cases "j = k")
      case True
      with j w show ?thesis by (intro exI [of _ w]) (auto simp: par chi)
    next
      case False
      with j have "fmlookup (waits_by_parent p) j = Some ws"
        by (simp add: par)
      with inv obtain v cs where "ws = [v]" "parent_task_id v = j"
        "fmlookup (waits_by_child p) (await_child_id v) = Some cs" "v \<in> set cs"
        by (rule wait_inv_parentE)
      then show ?thesis by (auto simp: chi fm_get_or_def)
    qed
  next
    fix c cs
    assume c: "fmlookup (waits_by_child q) c = Some cs"
    have old: "distinct (map parent_task_id vs) \<and> c \<in> dom (tab p) \<and> vs \<noteq> [] \<and>
        (\<forall>v \<in> set vs. parent_task_id v \<noteq> k \<and> await_child_id v = c \<and>
          fmlookup (waits_by_parent p) (parent_task_id v) = Some [v])"
      if "fmlookup (waits_by_child p) c = Some vs" for vs
      using wait_inv_child [OF inv that] fresh by auto
    show "cs \<noteq> [] \<and> distinct (map parent_task_id cs) \<and> c \<in> dom (tab q) \<and>
        (\<forall>w \<in> set cs. await_child_id w = c \<and>
           fmlookup (waits_by_parent q) (parent_task_id w) = Some [w])"
    proof (cases "fmlookup (waits_by_child p) c")
      case None
      with c w child show ?thesis
        by (auto simp: chi par fm_get_or_def tabq split: if_splits)
    next
      case (Some vs)
      note o' = old [OF Some]
      then have "k \<notin> parent_task_id ` set vs" by blast
      with c w o' Some show ?thesis
        by (cases "c = await_child_id w") (auto simp: chi par fm_get_or_def tabq)
    qed
  next
    fix j
    assume "j \<in> fmdom' (waits_by_parent q)"
    then show "\<exists>r. tab q j = Some r \<and> status r = Waiting"
      using r wait_inv_parent_record [OF inv, of j]
      by (auto simp: fmdom'_lookup par tabq split: if_splits)
  qed
qed

definition await_allowed :: "'v task_pool \<Rightarrow> task_lease \<Rightarrow> u64 \<Rightarrow> task_await \<Rightarrow> bool" where
  "await_allowed p l s w \<longleftrightarrow> wait_on_task_checks p l s w = Inr ()"

lemma await_allowedD:
  assumes inv: "pool_inv p" and ok: "await_allowed p l s w"
  shows "holds_lease p l s" and "parent_task_id w = lease_task_id l"
    and "\<exists>c. tab p (await_child_id w) = Some c \<and> \<not> is_terminal_status (status c)"
proof -
  from ok obtain r where par: "parent_task_id w = lease_task_id l"
    and r: "tab p (lease_task_id l) = Some r"
    and v: "validate_record_lease r l s ''wait'' = Inr ()"
    and c: "\<exists>c. tab p (await_child_id w) = Some c \<and> validate_task_await_child r c w = Inr ()"
    by (auto simp: await_allowed_def wait_on_task_checks_def pool_record_def
        split: if_splits option.splits sum.splits)
  show "parent_task_id w = lease_task_id l" by (rule par)
  show "holds_lease p l s"
    using v r by (auto simp: holds_lease_def
        validate_record_lease_iff [OF pool_inv_record_ok [OF inv r]] split: if_splits)
  show "\<exists>c. tab p (await_child_id w) = Some c \<and> \<not> is_terminal_status (status c)"
    using c by (auto simp: validate_task_await_child_def split: if_splits)
qed

lemma wait_on_task_ok:
  assumes inv: "pool_inv p" and ok: "await_allowed p l s w" and r: "tab p (lease_task_id l) = Some r"
  shows "\<exists>q. wait_on_task p l s w = (Inr (), q) \<and> pool_inv q \<and>
     tab q = (tab p)(lease_task_id l := Some (awaiting_rec w r)) \<and>
     awaits_for_parent q (lease_task_id l) = [w] \<and>
     w \<in> set (fm_get_or [] (waits_by_child q) (await_child_id w))"
proof -
  let ?k = "lease_task_id l"
  note hold = await_allowedD(1) [OF inv ok] and par = await_allowedD(2) [OF inv ok]
  obtain c where c: "tab p (await_child_id w) = Some c"
    using await_allowedD(3) [OF inv ok] by blast
  define q2 where "q2 = record_attempt_finished l s
    (transition_stats (Some Running) (Some Waiting) (put_rec p ?k r (awaiting_rec w r)))"
  have q2: "pool_inv q2"
    using release_step [OF inv hold r live_rec_ok(4), of w] pool_inv_keyed [OF inv r]
    by (simp add: q2_def)
  have run: "status r = Running"
    using holds_leaseE [OF inv hold] r by (metis option.inject)
  then have new: "?k \<notin> fmdom' (waits_by_parent q2)"
    using inv r by (auto simp: q2_def pool_inv_def dest: wait_inv_parent_waiting)
  let ?q = "q2\<lparr>waits_by_child := push_wait (await_child_id w) w (waits_by_child q2),
     waits_by_parent := push_wait ?k w (waits_by_parent q2)\<rparr>"
  have t: "tab q2 = (tab p)(?k := Some (awaiting_rec w r))"
    and q2w: "waits_by_child q2 = waits_by_child p" "waits_by_parent q2 = waits_by_parent p"
    by (simp_all add: q2_def)
  have "wait_inv {} ?q"
    using q2 new par c t by (intro wait_inv_push [of q2 ?k w "awaiting_rec w r"])
      (auto simp: pool_inv_def)
  then have "pool_inv ?q"
    using q2 by (simp add: pool_inv_def core_inv_def evicted_ok_def cache_ok_def hist_inv_def)
  moreover have "wait_on_task p l s w = (Inr (), ?q)"
    using ok by (simp add: wait_on_task_def await_allowed_def with_lease_accept [OF inv hold r]
        awaiting_rec_def [symmetric] q2_def [symmetric] q2w Let_def)
  moreover have "fmlookup (waits_by_parent q2) ?k = None"
    using new by (simp add: fmdom'_lookup)
  ultimately show ?thesis
    using t by (simp add: awaits_for_parent_def push_wait_def fm_get_or_def)
qed

lemma wait_on_task_reject:
  "\<not> await_allowed p l s w \<Longrightarrow> \<exists>e. wait_on_task p l s w = (Inl e, p) \<and>
     wait_on_task_checks p l s w = Inl e"
  by (cases "wait_on_task_checks p l s w") (simp_all add: wait_on_task_def await_allowed_def)

section \<open>Transitions by the core\<close>

lemma wake_ok:
  assumes inv: "pool_inv p" and r: "tab p k = Some r"
    and st: "status r = Waiting \<or> status r = Blocked"
  shows "\<exists>q. wake p k s = (Inr (), q) \<and> pool_inv q \<and> tab q = (tab p)(k := Some (make_ready s r)) \<and>
     k \<notin> fmdom' (waits_by_parent q)"
proof -
  let ?q = "transition_stats (Some (status r)) (Some Ready) (put_rec p k r (make_ready s r))"
  have "pool_inv (remove_waits_for_parent k ?q)"
    using wake_step [OF inv r record_ok_make_ready, of s] pool_inv_keyed [OF inv r] st by auto
  moreover have w: "wait_inv {k} ?q"
    using wait_inv_put [of "{}" p k r] inv r by (simp add: pool_inv_def)
  moreover have "wake p k s = (Inr (), remove_waits_for_parent k ?q)"
    using st by (auto simp: wake_def mutate_Some [OF r])
  ultimately show ?thesis
    using only_waits_differ_simps(1) [OF remove_waits_differ [OF w, of k]] remove_waits_gone [OF w]
    by simp
qed

lemma wake_reject:
  assumes inv: "pool_inv p"
    and st: "\<And>r. tab p k = Some r \<Longrightarrow> status r \<noteq> Waiting \<and> status r \<noteq> Blocked"
  shows "\<exists>e. wake p k s = (Inl e, p)"
proof (cases "tab p k")
  case None
  then show ?thesis by (simp add: wake_def mutate_None)
next
  case (Some r)
  with inv st [OF Some] show ?thesis
    by (simp add: wake_def pool_inv_def
        mutate_unchanged [where res = "Inl (runtime_failure ERR_TASK_CLAIM_CONFLICT
          ''runtime.task_pool'' (''task.wake.'' @ k))"])
qed

lemma reject_ready_ok:
  assumes inv: "pool_inv p" and r: "tab p k = Some r" and st: "status r = Ready"
  shows "\<exists>q. reject_ready p k f = Some (Inr (), q) \<and> pool_inv q \<and>
     settles p k (r\<lparr>status := Failed, failure := Some f\<rparr>) q \<and> within_retention q"
proof -
  have "record_ok (r\<lparr>status := Failed, failure := Some f\<rparr>)"
    using pool_inv_record_ok [OF inv r] st by (auto simp: record_ok_def split: option.splits)
  with terminal_step [OF inv r this, of "\<lambda>p. p" False] pool_inv_keyed [OF inv r] st show ?thesis
    by (auto simp: reject_ready_def mutate_Some [OF r] accounting_id)
qed

lemma reject_ready_reject:
  assumes inv: "pool_inv p" and st: "\<And>r. tab p k = Some r \<Longrightarrow> status r \<noteq> Ready"
  shows "\<exists>e. reject_ready p k f = Some (Inl e, p)"
proof (cases "tab p k")
  case None
  then show ?thesis by (simp add: reject_ready_def mutate_None)
next
  case (Some r)
  with inv st [OF Some] show ?thesis
    by (simp add: reject_ready_def pool_inv_def
        mutate_unchanged [where res = "Inl (runtime_failure ERR_TASK_CLAIM_CONFLICT
          ''runtime.task_pool'' (''task.reject.'' @ k))"])
qed

lemma terminal_by_core_ok:
  assumes inv: "pool_inv p" and r: "tab p k = Some r" and live: "\<not> is_terminal_status (status r)"
    and st: "is_terminal_status st"
    and f: "st = Failed \<or> st = Expired \<or> st = DeadLetter \<longrightarrow> f \<noteq> None"
  shows "\<exists>q. terminal_by_core p k st f a s = Some (Inr (), q) \<and> pool_inv q \<and>
     settles p k (mark_terminal_record st f r) q \<and> within_retention q"
  using terminal_step [OF inv r record_ok_mark_terminal [OF st f, of r], where dropw = True and
      g = "\<lambda>p. case lease r of None \<Rightarrow> p | Some l \<Rightarrow> record_attempt_finished l s p",
      unfolded mark_terminal_simps(1)]
    pool_inv_keyed [OF inv r] live st
  by (auto simp: terminal_by_core_def mutate_Some [OF r] accounting_optional Let_def)

lemma terminal_by_core_reject:
  assumes inv: "pool_inv p" and st: "\<And>r. tab p k = Some r \<Longrightarrow> is_terminal_status (status r)"
  shows "\<exists>e. terminal_by_core p k st f a s = Some (Inl e, p)"
proof (cases "tab p k")
  case None
  then show ?thesis by (simp add: terminal_by_core_def mutate_None)
next
  case (Some r)
  with inv st [OF Some] show ?thesis
    by (simp add: terminal_by_core_def pool_inv_def
        mutate_unchanged [where res = "Inl (runtime_failure ERR_TASK_CLAIM_CONFLICT
          ''runtime.task_pool'' (''task.'' @ a @ ''.'' @ k))"])
qed

section \<open>Submission\<close>

definition submitted_rec :: "'v task_pool \<Rightarrow> 'v task \<Rightarrow> u64 \<Rightarrow> 'v task_record" where
  "submitted_rec p t s = new_task_record
     (if created_sequence t = 0 then t\<lparr>created_sequence := next_sequence p + 1\<rparr> else t) s"

lemma submitted_rec_simps [simp]:
  "status (submitted_rec p t s) = Ready" "task_id (rec_task (submitted_rec p t s)) = task_id t"
  "lease (submitted_rec p t s) = None" "attempt_generation (submitted_rec p t s) = 0"
  by (simp_all add: submitted_rec_def new_task_record_def)

lemma record_ok_submitted: "record_ok (submitted_rec p t s)"
  by (simp add: record_ok_def submitted_rec_def new_task_record_def)

lemma enqueue_at_ok:
  assumes inv: "pool_inv p" and new: "\<not> contains_task_id p (task_id t)"
    and enc: "compact_json_len to_writer (payload t) = Inr n"
  shows "\<exists>q. enqueue_at to_writer p t s = (Inr (task_id t), q) \<and> pool_inv q \<and>
     tab q = (tab p)(task_id t := Some (submitted_rec p t s)) \<and>
     next_sequence q = next_sequence p + 1 \<and>
     fmlookup (payload_wire_bytes_map q) (task_id t) = Some n"
proof -
  let ?k = "task_id t" and ?r = "submitted_rec p t s"
  define q where "q = snd (enqueue_at to_writer p t s)"
  have none: "tab p ?k = None" and ev: "?k |\<notin>| evicted_task_ids p"
    using new by (auto simp: contains_task_id_def)
  have eq: "enqueue_at to_writer p t s = (Inr ?k, q)"
    and ix: "indexes q = update_record (indexes p) ?r True"
    and ts: "tasks q = fmupd ?k ?r (tasks p)"
    and pw: "payload_wire_bytes_map q = fmupd ?k n (payload_wire_bytes_map p)"
    and st: "statistics q = record_status_transition None (Some Ready)
      ((statistics p)\<lparr>submitted_total := sat_add (submitted_total (statistics p)) 1\<rparr>)"
    and rest: "waits_by_child q = waits_by_child p" "waits_by_parent q = waits_by_parent p"
      "terminal_order q = terminal_order p" "history_retention q = history_retention p"
      "evicted_task_ids q = evicted_task_ids p" "evicted_task_order q = evicted_task_order p"
      "ready_selector_cache q = ready_selector_cache p" "next_sequence q = next_sequence p + 1"
    using new enc
    by (simp_all add: q_def enqueue_at_def insert_record_indexes_def update_record_indexes_def
        submitted_rec_def transition_stats_def Let_def)
  have "ix_ok (indexes q) (tab q) (tab q) (tab q)"
    using inv none ix_ok_insert [of "indexes p" "tab p" "tab p" "tab p" ?k ?r]
    by (simp add: ix ts pool_inv_def core_inv_def)
  moreover have "stats_ok (statistics q) (tab q)"
    using inv none stats_ok_insert [of "statistics p" "tab p" ?k _ ?r]
    by (simp add: st ts pool_inv_def core_inv_def)
  moreover have "keyed (tab q)" "\<forall>k r. tab q k = Some r \<longrightarrow> record_ok r"
    using inv by (auto simp: ts pool_inv_def core_inv_def keyed_def record_ok_submitted)
  moreover have "evicted_ok q"
    using inv ev by (auto simp: pool_inv_def core_inv_def evicted_ok_def rest ts)
  ultimately have "core_inv {} {} q"
    using inv by (simp add: core_inv_def pool_inv_def cache_ok_def rest pw ts)
  moreover have "terminal_ids (tab q) = terminal_ids (tab p)"
    using none by (auto simp: ts terminal_ids_def)
  then have "hist_inv {} q"
    using inv by (simp add: pool_inv_def hist_inv_def rest)
  moreover have "wait_inv {} q"
  proof (rule wait_invI)
    fix j assume "j \<in> fmdom' (waits_by_parent q)"
    then obtain r where "tab p j = Some r" "status r = Waiting"
      using inv wait_inv_parent_record [of "{}" p j] by (auto simp: pool_inv_def rest)
    with none show "\<exists>r. tab q j = Some r \<and> status r = Waiting"
      by (auto simp: ts)
  qed (use inv in \<open>auto simp: pool_inv_def wait_inv_def rest ts\<close>)
  ultimately show ?thesis
    using eq rest pw ts by (simp add: pool_inv_def)
qed

lemma enqueue_at_duplicate:
  "contains_task_id p (task_id t) \<Longrightarrow> enqueue_at to_writer p t s =
     (Inl (runtime_failure ERR_TASK_DUPLICATE ''runtime.task_pool''
        (''task.enqueue.'' @ task_id t)), p)"
  by (simp add: enqueue_at_def)

lemma enqueue_at_unencodable:
  "\<not> contains_task_id p (task_id t) \<Longrightarrow> compact_json_len to_writer (payload t) = Inl e \<Longrightarrow>
     enqueue_at to_writer p t s =
     (Inl (runtime_failure ERR_RUNTIME_HOST_FAILED ''runtime.task_pool''
        (''task.payload.encode.'' @ task_id t @ '':'' @ e)), p)"
  by (simp add: enqueue_at_def)

end
