(* ===== verification/Pool_Loops.thy ===== *)
theory Pool_Loops
  imports Pool_Operations
begin

text \<open>
  The operations of the task pool that work through many tasks at once: waking due tasks,
  reclaiming expired leases, aborting everything, rebinding a generation, changing the
  retention and taking the waits of a finished child. Each keeps the invariant, cannot panic,
  and has its exact effect on the table of tasks.
\<close>

section \<open>Due entries of a step index\<close>

definition due_ids :: "step_buckets \<Rightarrow> u64 \<Rightarrow> string set" where
  "due_ids ix s = fst ` set (fst (take_due_buckets ix s))"

text \<open>The entries of a table name the key of their record.\<close>

definition owned :: "('v task_record \<Rightarrow> ('a \<times> string) option) \<Rightarrow> 'v task_table \<Rightarrow> bool" where
  "owned ent T \<longleftrightarrow> (\<forall>k r e. T k = Some r \<longrightarrow> ent r = Some e \<longrightarrow> snd e = k)"

lemma ownedD: "owned ent T \<Longrightarrow> T k = Some r \<Longrightarrow> ent r = Some (x, k') \<Longrightarrow> k' = k"
  by (auto simp: owned_def)

lemma due_ids_tracks:
  assumes tr: "mv.tracks ent ix T"
    and own: "owned ent T"
  shows "k \<in> due_ids ix s \<longleftrightarrow> (\<exists>r step. T k = Some r \<and> ent r = Some (step, k) \<and> step \<le> s)"
proof -
  have "k \<in> due_ids ix s \<longleftrightarrow> (\<exists>step. step \<le> s \<and> bucket_mem ix (step, k))"
    by (force simp: due_ids_def set_take_due image_iff Bex_def)
  also have "\<dots> \<longleftrightarrow> (\<exists>step. step \<le> s \<and> (\<exists>k' r. T k' = Some r \<and> ent r = Some (step, k)))"
    by (simp add: mv.tracks_mem [OF tr])
  also have "\<dots> \<longleftrightarrow> (\<exists>r step. T k = Some r \<and> ent r = Some (step, k) \<and> step \<le> s)"
    using ownedD [OF own] by blast
  finally show ?thesis .
qed

lemma tracks_take_due:
  assumes tr: "mv.tracks ent ix T"
    and own: "owned ent T"
  shows "mv.tracks ent (snd (take_due_buckets ix s)) (T |` (- due_ids ix s))"
proof -
  have "(\<exists>k r. (T |` (- due_ids ix s)) k = Some r \<and> ent r = Some (step, tid)) \<longleftrightarrow>
      \<not> step \<le> s \<and> (\<exists>k r. T k = Some r \<and> ent r = Some (step, tid))" for step tid
  proof
    assume "\<exists>k r. (T |` (- due_ids ix s)) k = Some r \<and> ent r = Some (step, tid)"
    then obtain k r where kr: "T k = Some r" "ent r = Some (step, tid)" "k \<notin> due_ids ix s"
      by (auto simp: restrict_map_def split: if_splits)
    with own have "tid = k" by (blast dest: ownedD)
    with kr have "\<not> step \<le> s"
      using due_ids_tracks [OF tr own] by blast
    with kr show "\<not> step \<le> s \<and> (\<exists>k r. T k = Some r \<and> ent r = Some (step, tid))"
      by blast
  next
    assume "\<not> step \<le> s \<and> (\<exists>k r. T k = Some r \<and> ent r = Some (step, tid))"
    then obtain k r where kr: "\<not> step \<le> s" "T k = Some r" "ent r = Some (step, tid)"
      by blast
    then have "k \<notin> due_ids ix s"
      using due_ids_tracks [OF tr own] by auto
    with kr show "\<exists>k r. (T |` (- due_ids ix s)) k = Some r \<and> ent r = Some (step, tid)"
      by (auto simp: restrict_map_def)
  qed
  with tr show ?thesis
    by (auto simp: mv.tracks_def no_empty_take_due bucket_mem_take_due)
qed

lemma distinct_due:
  assumes tr: "mv.tracks ent ix T"
    and own: "owned ent T"
  shows "distinct (map fst (fst (take_due_buckets ix s)))"
proof (rule distinct_take_due)
  fix tid step step'
  assume a: "bucket_mem ix (step, tid)" and b: "bucket_mem ix (step', tid)"
  from a obtain k r where kr: "T k = Some r" "ent r = Some (step, tid)"
    using mv.tracks_mem [OF tr] by blast
  from b obtain k' r' where kr': "T k' = Some r'" "ent r' = Some (step', tid)"
    using mv.tracks_mem [OF tr] by blast
  from kr kr' own have "k = k'" by (blast dest: ownedD)
  with kr kr' show "step = step'" by simp
qed

section \<open>Waking due tasks\<close>

definition make_ready_all :: "u64 \<Rightarrow> string set \<Rightarrow> 'v task_table \<Rightarrow> 'v task_table" where
  "make_ready_all s D T = (\<lambda>k. if k \<in> D then map_option (make_ready s) (T k) else T k)"

lemma wake_due_task_ok:
  assumes core: "core_inv W {} p" and hist: "hist_inv {} p" and wait: "wait_inv {} p"
    and r: "tab p k = Some r" and live: "\<not> is_terminal_status (status r)"
  shows "\<exists>q. wake_due_task s k p = Some q \<and> core_inv (W - {k}) {} q \<and> hist_inv {} q \<and>
     wait_inv {} q \<and> tab q = (tab p)(k := Some (make_ready s r))"
proof -
  let ?q = "transition_stats (Some (status r)) (Some Ready) (put_rec p k r (make_ready s r))"
  have k: "task_id (rec_task r) = k"
    using core r by (simp add: core_inv_def keyed_def)
  have "core_inv (W - {k}) {} ?q"
    using core_inv_put [OF core r _ record_ok_make_ready, of s] k by simp
  moreover have "hist_inv {} ?q"
    using hist_inv_put_live [OF hist r live, of "make_ready s r"] by simp
  moreover have w: "wait_inv {k} ?q"
    using wait_inv_put [OF wait r, of "make_ready s r"] by simp
  moreover have "wake_due_task s k p = Some (remove_waits_for_parent k ?q)"
    by (simp add: wake_due_task_def mutate_Some [OF r])
  ultimately show ?thesis
    using remove_waits_inv [OF w, of k] only_waits_differ_simps [OF remove_waits_differ [OF w, of k]]
    by simp
qed

lemma wake_due_loop_ok:
  assumes "core_inv (fst ` set due) {} p" and "hist_inv {} p" and "wait_inv {} p"
    and "distinct (map fst due)"
    and "\<forall>k \<in> fst ` set due. \<exists>r. tab p k = Some r \<and> \<not> is_terminal_status (status r)"
  shows "\<exists>q. wake_due_loop s due p = Some q \<and> pool_inv q \<and>
     tab q = make_ready_all s (fst ` set due) (tab p)"
  using assms
proof (induction due arbitrary: p)
  case Nil
  then show ?case
    by (simp add: pool_inv_def make_ready_all_def)
next
  case (Cons d due)
  obtain k step where d: "d = (k, step)" by (cases d)
  from Cons.prems(5) obtain r where r: "tab p k = Some r" "\<not> is_terminal_status (status r)"
    by (auto simp: d)
  obtain p' where p': "wake_due_task s k p = Some p'" "core_inv (fst ` set (d # due) - {k}) {} p'"
    "hist_inv {} p'" "wait_inv {} p'" "tab p' = (tab p)(k := Some (make_ready s r))"
    using wake_due_task_ok [OF Cons.prems(1,2,3) r] by blast
  have "fst ` set (d # due) - {k} = fst ` set due"
    using Cons.prems(4) by (auto simp: d)
  with p'(2) have core': "core_inv (fst ` set due) {} p'" by simp
  have "\<forall>j \<in> fst ` set due. \<exists>r. tab p' j = Some r \<and> \<not> is_terminal_status (status r)"
    using Cons.prems(5) by (simp add: p'(5))
  with Cons.IH [OF core' p'(3,4)] Cons.prems(4)
  obtain q where q: "wake_due_loop s due p' = Some q" "pool_inv q"
    "tab q = make_ready_all s (fst ` set due) (tab p')"
    by auto
  have "k \<notin> fst ` set due"
    using Cons.prems(4) by (simp add: d)
  then have "tab q = make_ready_all s (fst ` set (d # due)) (tab p)"
    using q(3) r(1) p'(5) by (auto simp: make_ready_all_def d)
  with q p'(1) show ?case
    by (simp add: d)
qed

lemma core_inv_owned:
  assumes "core_inv W L p"
  shows "owned wake_entry (tab p)" and "owned lease_entry (tab p)"
proof -
  have kd: "keyed (tab p)"
    using assms by (simp add: core_inv_def)
  show "owned wake_entry (tab p)" "owned lease_entry (tab p)"
    unfolding owned_def using keyed_owner(4,7) [OF kd] by blast+
qed

lemma wake_due_tasks_ok:
  assumes inv: "pool_inv p"
  shows "\<exists>due q. wake_due_tasks p s = Some (due, q) \<and> pool_inv q \<and> distinct (map fst due) \<and>
     (\<forall>k step. (k, step) \<in> set due \<longleftrightarrow>
        (\<exists>r. tab p k = Some r \<and> (status r = Waiting \<or> status r = Blocked) \<and>
           ready_at_step (rec_task r) = Some step \<and> step \<le> s)) \<and>
     tab q = make_ready_all s (fst ` set due) (tab p)"
proof -
  let ?ix = "wake_by_step (indexes p)"
  have core: "core_inv {} {} p"
    using inv by (simp add: pool_inv_def)
  then have tr: "mv.tracks wake_entry ?ix (tab p)"
    by (simp add: core_inv_def ix_ok_def)
  note own = core_inv_owned(1) [OF core]
  define due where "due = fst (take_due_buckets ?ix s)"
  define p1 where "p1 = p\<lparr>indexes := (indexes p)\<lparr>wake_by_step := snd (take_due_buckets ?ix s)\<rparr>\<rparr>"
  have ids: "fst ` set due = due_ids ?ix s"
    by (simp add: due_def due_ids_def)
  have core1: "core_inv (fst ` set due) {} p1"
    using core tracks_take_due [OF tr own]
    by (simp add: core_inv_def p1_def ix_ok_def ids evicted_ok_def cache_ok_def)
  have hw: "hist_inv {} p1" "wait_inv {} p1"
    using inv by (simp_all add: pool_inv_def p1_def hist_inv_def wait_inv_def)
  have dist: "distinct (map fst due)"
    unfolding due_def by (rule distinct_due [OF tr own])
  have mem: "(k, step) \<in> set due \<longleftrightarrow> (\<exists>r. tab p k = Some r \<and>
      (status r = Waiting \<or> status r = Blocked) \<and> ready_at_step (rec_task r) = Some step \<and> step \<le> s)"
    for k step
  proof -
    have "(k, step) \<in> set due \<longleftrightarrow> step \<le> s \<and> (\<exists>k' r. tab p k' = Some r \<and> wake_entry r = Some (step, k))"
      by (simp add: due_def set_take_due mv.tracks_mem [OF tr])
    moreover have "task_id (rec_task r) = k'" if "tab p k' = Some r" for k' r
      using inv that by (rule pool_inv_keyed)
    ultimately show ?thesis
      by (fastforce simp: wake_entry_def split: if_splits)
  qed
  have "\<forall>k \<in> fst ` set due. \<exists>r. tab p1 k = Some r \<and> \<not> is_terminal_status (status r)"
    using mem by (fastforce simp: p1_def)
  from wake_due_loop_ok [OF core1 hw dist this, of s]
  obtain q where q: "wake_due_loop s due p1 = Some q" "pool_inv q"
    "tab q = make_ready_all s (fst ` set due) (tab p)"
    by (auto simp: p1_def)
  have "wake_due_tasks p s = Some (due, q)"
    using q(1) by (simp add: wake_due_tasks_def take_due_wake_tasks_def due_def p1_def
        case_prod_beta)
  with q mem dist show ?thesis by blast
qed

section \<open>Reclaiming expired leases\<close>

lemma reclaim_loop_ok:
  assumes "core_inv {} (set tids) p" and "hist_inv {} p" and "wait_inv {} p" and "distinct tids"
    and "\<forall>k \<in> set tids. \<exists>r l. tab p k = Some r \<and> lease r = Some l \<and> task_lease_expired l s"
  shows "\<exists>q. reclaim_loop s tids acc p =
       Some (acc @ map (\<lambda>k. the (lease (the (tab p k)))) tids, q) \<and> pool_inv q \<and>
     tab q = make_ready_all s (set tids) (tab p)"
  using assms
proof (induction tids arbitrary: p acc)
  case Nil
  then show ?case
    by (simp add: pool_inv_def make_ready_all_def)
next
  case (Cons k tids)
  from Cons.prems(5) obtain r l where r: "tab p k = Some r" "lease r = Some l"
    "task_lease_expired l s" by auto
  have k: "task_id (rec_task r) = k" and ok: "record_ok r"
    using Cons.prems(1) r(1) by (auto simp: core_inv_def keyed_def)
  then have run: "status r = Running"
    using r(2) by (auto dest: record_ok_running)
  define p' where "p' = transition_stats (Some Running) (Some Ready) (put_rec p k r (make_ready s r))"
  have nk: "k \<notin> set tids" and dist: "distinct tids"
    using Cons.prems(4) by simp_all
  have "core_inv {} (set (k # tids) - {k}) p'"
    using core_inv_put [OF Cons.prems(1) r(1) _ record_ok_make_ready, of s] k run
    by (simp add: p'_def)
  moreover have "set (k # tids) - {k} = set tids"
    using nk by auto
  ultimately have core': "core_inv {} (set tids) p'" by simp
  have hist': "hist_inv {} p'"
    using hist_inv_put_live [OF Cons.prems(2) r(1), of "make_ready s r"] run by (simp add: p'_def)
  have wait': "wait_inv {} p'"
    using wait_inv_put_running [OF Cons.prems(3) _ r(1), of "make_ready s r"] run
    by (simp add: p'_def)
  have tab': "tab p' = (tab p)(k := Some (make_ready s r))"
    by (simp add: p'_def)
  have "\<forall>j \<in> set tids. \<exists>r l. tab p' j = Some r \<and> lease r = Some l \<and> task_lease_expired l s"
    using Cons.prems(5) nk by (auto simp: tab')
  from Cons.IH [OF core' hist' wait' dist this, of "acc @ [l]"]
  obtain q where q: "reclaim_loop s tids (acc @ [l]) p' =
      Some ((acc @ [l]) @ map (\<lambda>k. the (lease (the (tab p' k)))) tids, q)" "pool_inv q"
    "tab q = make_ready_all s (set tids) (tab p')"
    by blast
  have "map (\<lambda>k. the (lease (the (tab p' k)))) tids = map (\<lambda>k. the (lease (the (tab p k)))) tids"
    using nk by (auto simp: tab')
  moreover have "tab q = make_ready_all s (set (k # tids)) (tab p)"
    using q(3) nk r(1) by (auto simp: make_ready_all_def tab')
  moreover have "reclaim_loop s (k # tids) acc p = reclaim_loop s tids (acc @ [l]) p'"
    using r by (simp add: mutate_Some [OF r(1)] p'_def)
  ultimately show ?case
    using q r by simp
qed

lemma fold_attempt_finished:
  "tasks (fold (\<lambda>l. record_attempt_finished l s) ls p) = tasks p"
  "pool_inv (fold (\<lambda>l. record_attempt_finished l s) ls p) = pool_inv p"
  "core_inv W L (fold (\<lambda>l. record_attempt_finished l s) ls p) = core_inv W L p"
  "hist_inv P (fold (\<lambda>l. record_attempt_finished l s) ls p) = hist_inv P p"
  "wait_inv P (fold (\<lambda>l. record_attempt_finished l s) ls p) = wait_inv P p"
  by (induction ls arbitrary: p) simp_all

lemma fold_attempt_finished_frame:
  "waits_by_child (fold (\<lambda>l. record_attempt_finished l s) ls p) = waits_by_child p"
  "waits_by_parent (fold (\<lambda>l. record_attempt_finished l s) ls p) = waits_by_parent p"
  "terminal_order (fold (\<lambda>l. record_attempt_finished l s) ls p) = terminal_order p"
  "history_retention (fold (\<lambda>l. record_attempt_finished l s) ls p) = history_retention p"
  by (induction ls arbitrary: p) simp_all

lemma lease_entry_expired:
  assumes "record_ok r" and "task_id (rec_task r) = k"
  shows "(\<exists>step. lease_entry r = Some (step, k) \<and> step \<le> s) \<longleftrightarrow>
     (\<exists>l. lease r = Some l \<and> task_lease_expired l s)"
proof (cases "lease r")
  case None
  then show ?thesis by (simp add: lease_entry_def)
next
  case (Some l)
  then show ?thesis
    using assms
    by (cases "expires_at_step l") (simp_all add: lease_entry_def task_lease_expired_def record_ok_def)
qed

lemma reclaim_ok:
  assumes inv: "pool_inv p"
  shows "\<exists>reclaimed q. reclaim_expired_task_leases p s = Some (reclaimed, q) \<and> pool_inv q \<and>
     distinct (map lease_task_id reclaimed) \<and>
     (\<forall>l. l \<in> set reclaimed \<longleftrightarrow>
        (\<exists>r. tab p (lease_task_id l) = Some r \<and> lease r = Some l) \<and> task_lease_expired l s) \<and>
     tab q = make_ready_all s (lease_task_id ` set reclaimed) (tab p)"
proof -
  let ?ix = "leases_by_expiry (indexes p)"
  have core: "core_inv {} {} p"
    using inv by (simp add: pool_inv_def)
  then have tr: "mv.tracks lease_entry ?ix (tab p)"
    by (simp add: core_inv_def ix_ok_def)
  note own = core_inv_owned(2) [OF core]
  define tids where "tids = map fst (fst (take_due_buckets ?ix s))"
  define p1 where "p1 = p\<lparr>indexes := (indexes p)\<lparr>leases_by_expiry := snd (take_due_buckets ?ix s)\<rparr>\<rparr>"
  have ids: "set tids = due_ids ?ix s"
    by (simp add: tids_def due_ids_def)
  have core1: "core_inv {} (set tids) p1"
    using core tracks_take_due [OF tr own]
    by (simp add: core_inv_def p1_def ix_ok_def ids evicted_ok_def cache_ok_def)
  have hw: "hist_inv {} p1" "wait_inv {} p1"
    using inv by (simp_all add: pool_inv_def p1_def hist_inv_def wait_inv_def)
  have dist: "distinct tids"
    unfolding tids_def by (rule distinct_due [OF tr own])
  have mem: "k \<in> set tids \<longleftrightarrow>
      (\<exists>r l. tab p k = Some r \<and> lease r = Some l \<and> task_lease_expired l s)" for k
    unfolding ids due_ids_tracks [OF tr own]
    using lease_entry_expired [OF pool_inv_record_ok [OF inv] pool_inv_keyed [OF inv], of k _ k] by blast
  define ls where "ls = map (\<lambda>k. the (lease (the (tab p k)))) tids"
  have own_id: "lease_task_id l = k" if "tab p k = Some r" "lease r = Some l" for k r l
    using pool_inv_record_ok [OF inv that(1)] pool_inv_keyed [OF inv that(1)] that(2)
    by (simp add: record_ok_def)
  have map_id: "map lease_task_id ls = tids"
  proof -
    have "lease_task_id (the (lease (the (tab p k)))) = k" if "k \<in> set tids" for k
    proof -
      from that obtain r l where "tab p k = Some r" "lease r = Some l"
        using mem by blast
      with own_id show ?thesis by simp
    qed
    then show ?thesis
      by (simp add: ls_def map_idI)
  qed
  have tab1: "tab p1 = tab p"
    by (simp add: p1_def)
  obtain q where q: "reclaim_loop s tids [] p1 = Some (ls, q)" "pool_inv q"
    "tab q = make_ready_all s (set tids) (tab p)"
    using reclaim_loop_ok [OF core1 hw dist, of s "[]"] mem by (auto simp: tab1 ls_def)
  let ?q = "fold (\<lambda>l. record_attempt_finished l s) ls q"
  have "reclaim_expired_task_leases p s = Some (ls, ?q)"
    using q(1) by (simp add: reclaim_expired_task_leases_def take_expired_lease_tasks_def
        tids_def p1_def case_prod_beta)
  moreover have "l \<in> set ls \<longleftrightarrow>
      (\<exists>r. tab p (lease_task_id l) = Some r \<and> lease r = Some l) \<and> task_lease_expired l s" for l
  proof -
    have "l \<in> set ls \<longleftrightarrow> (\<exists>k \<in> set tids. l = the (lease (the (tab p k))))"
      by (auto simp: ls_def)
    also have "\<dots> \<longleftrightarrow> (\<exists>k r. tab p k = Some r \<and> lease r = Some l \<and> task_lease_expired l s)"
    proof
      assume "\<exists>k \<in> set tids. l = the (lease (the (tab p k)))"
      then obtain k r l' where "tab p k = Some r" "lease r = Some l'" "task_lease_expired l' s"
        "l = the (lease (the (tab p k)))" using mem by blast
      then show "\<exists>k r. tab p k = Some r \<and> lease r = Some l \<and> task_lease_expired l s" by auto
    next
      assume "\<exists>k r. tab p k = Some r \<and> lease r = Some l \<and> task_lease_expired l s"
      then obtain k r where kr: "tab p k = Some r" "lease r = Some l" "task_lease_expired l s"
        by blast
      then have "k \<in> set tids" using mem by blast
      moreover have "l = the (lease (the (tab p k)))" using kr by simp
      ultimately show "\<exists>k \<in> set tids. l = the (lease (the (tab p k)))" by blast
    qed
    finally show ?thesis
      using own_id by blast
  qed
  moreover have "lease_task_id ` set ls = set tids"
    using map_id by (metis set_map)
  ultimately show ?thesis
    using q map_id dist fold_attempt_finished(1,2) [of s ls q] by auto
qed

section \<open>Cancelling one invocation\<close>

lemma find_invocation_Some:
  assumes inv: "pool_inv p" and f: "find_invocation p rid inv_id = Some k"
  shows "\<exists>r l. tab p k = Some r \<and> lease r = Some l \<and> lease_id l = inv_id"
proof -
  from f obtain t r l where t: "tab p t = Some r" "lease r = Some l" "lease_id l = inv_id"
    "k = task_id (rec_task r)"
    by (force simp: find_invocation_def List.map_filter_def filter_eq_Cons_iff bind_eq_Some_conv
        map_eq_Cons_conv split: list.splits option.splits if_splits)
  with pool_inv_keyed [OF inv t(1)] show ?thesis by auto
qed

lemma cancel_running_invocation_ok:
  assumes inv: "pool_inv p"
  shows "(find_invocation p rid inv_id = None \<longrightarrow>
       cancel_running_invocation p rid inv_id s = Some (0, p)) \<and>
     (\<forall>k. find_invocation p rid inv_id = Some k \<longrightarrow>
       (\<exists>r l q. tab p k = Some r \<and> lease r = Some l \<and> lease_id l = inv_id \<and>
          cancel_running_invocation p rid inv_id s = Some (1, q) \<and> pool_inv q \<and>
          tab q = (tab p)(k := Some (make_ready s r))))"
proof (intro conjI impI allI)
  assume "find_invocation p rid inv_id = None"
  then show "cancel_running_invocation p rid inv_id s = Some (0, p)"
    by (simp add: cancel_running_invocation_def)
next
  fix k
  assume f: "find_invocation p rid inv_id = Some k"
  from find_invocation_Some [OF inv f] obtain r l where r: "tab p k = Some r" "lease r = Some l"
    "lease_id l = inv_id" by blast
  have run: "status r = Running"
    using pool_inv_record_ok [OF inv r(1)] r(2) by (rule record_ok_running)
  have comm: "transition_stats a b (record_attempt_finished l s q) =
      record_attempt_finished l s (transition_stats a b q)" for a b and q :: "'a task_pool"
  proof -
    have "record_status_transition a b (x\<lparr>cumulative_execution_steps := y\<rparr>) =
        (record_status_transition a b x)\<lparr>cumulative_execution_steps := y\<rparr> \<and>
        cumulative_execution_steps (record_status_transition a b x) = cumulative_execution_steps x"
      for x y
    proof -
      have "status_counter_upd st g (x\<lparr>cumulative_execution_steps := y\<rparr>) =
          (status_counter_upd st g x)\<lparr>cumulative_execution_steps := y\<rparr> \<and>
          cumulative_execution_steps (status_counter_upd st g x) = cumulative_execution_steps x"
        for st g x by (cases st) simp_all
      then show ?thesis
        by (simp add: record_status_transition_def Let_def split: option.splits)
    qed
    then show ?thesis
      by (simp add: transition_stats_def record_attempt_finished_def Let_def)
  qed
  have "pool_inv (transition_stats (Some Running) (Some Ready)
      (record_attempt_finished l s (put_rec p k r (make_ready s r))))"
    using live_step [OF inv r(1) record_ok_make_ready, of s] pool_inv_keyed [OF inv r(1)] run
    by (simp add: comm)
  then show "\<exists>r l q. tab p k = Some r \<and> lease r = Some l \<and> lease_id l = inv_id \<and>
      cancel_running_invocation p rid inv_id s = Some (1, q) \<and> pool_inv q \<and>
      tab q = (tab p)(k := Some (make_ready s r))"
    using f r by (simp add: cancel_running_invocation_def mutate_Some [OF r(1)])
qed

section \<open>Rebuilding the indexes\<close>

lemma rebuild_fold:
  assumes "distinct ks" and "set ks \<subseteq> dom T" and "set ks \<inter> A = {}" and "finite (dom T)"
    and "ix_ok ix (T |` A) (T |` A) (T |` A)"
  shows "ix_ok (fold (\<lambda>r ix. update_record ix r True) (map (\<lambda>k. the (T k)) ks) ix)
     (T |` (A \<union> set ks)) (T |` (A \<union> set ks)) (T |` (A \<union> set ks))"
  using assms
proof (induction ks arbitrary: ix A)
  case (Cons k ks)
  from Cons.prems(2) obtain r where r: "T k = Some r" by auto
  have "k \<notin> A"
    using Cons.prems(3) by simp
  then have upd: "(T |` A)(k := Some r) = T |` insert k A"
    using r by (auto simp: restrict_map_def)
  have "finite (dom (T |` A))"
    using Cons.prems(4) by simp
  with Cons.prems(5) \<open>k \<notin> A\<close>
  have "ix_ok (update_record ix r True) (T |` insert k A) (T |` insert k A) (T |` insert k A)"
    using ix_ok_insert [of ix "T |` A" "T |` A" "T |` A" k r] upd by simp
  with Cons.IH [of "insert k A" "update_record ix r True"] Cons.prems r show ?case
    by simp
qed simp

lemma ix_ok_rebuild:
  "ix_ok (indexes (rebuild_indexes p)) (tab p) (tab p) (tab p)"
proof -
  have "ix_ok task_indexes_default (tab p |` {}) (tab p |` {}) (tab p |` {})"
    using ix_ok_empty by (simp add: restrict_map_def)
  then have "ix_ok (indexes (rebuild_indexes p)) (tab p |` fmdom' (tasks p))
      (tab p |` fmdom' (tasks p)) (tab p |` fmdom' (tasks p))"
    using rebuild_fold [of "fm_keys (tasks p)" "tab p" "{}" task_indexes_default]
    by (simp add: rebuild_indexes_def fm_values_keys)
  moreover have "tab p |` fmdom' (tasks p) = tab p"
    by (rule ext) (auto simp: restrict_map_def fmdom'_lookup)
  ultimately show ?thesis by simp
qed

lemma rebuild_simps [simp]:
  "tasks (rebuild_indexes p) = tasks p" "statistics (rebuild_indexes p) = statistics p"
  "waits_by_child (rebuild_indexes p) = waits_by_child p"
  "waits_by_parent (rebuild_indexes p) = waits_by_parent p"
  "terminal_order (rebuild_indexes p) = terminal_order p"
  "history_retention (rebuild_indexes p) = history_retention p"
  "evicted_task_ids (rebuild_indexes p) = evicted_task_ids p"
  "evicted_task_order (rebuild_indexes p) = evicted_task_order p"
  "payload_wire_bytes_map (rebuild_indexes p) = payload_wire_bytes_map p"
  "ready_selector_cache (rebuild_indexes p) = ready_selector_cache p"
  by (simp_all add: rebuild_indexes_def)

lemma indexes_rebuilt:
  assumes "pool_inv p"
  shows "rebuild_indexes p = p"
proof -
  have "ix_ok (indexes p) (tab p) (tab p) (tab p)"
    using assms by (simp add: pool_inv_def core_inv_def)
  then have "indexes (rebuild_indexes p) = indexes p"
    using ix_ok_rebuild ix_ok_unique by blast
  then show ?thesis
    by (simp add: rebuild_indexes_def)
qed

section \<open>Aborting everything\<close>

definition aborted_rec :: "runtime_error \<Rightarrow> 'v task_record \<Rightarrow> 'v task_record" where
  "aborted_rec f r = (if is_terminal_status (status r) then r
     else mark_terminal_record Cancelled (Some f) r)"

definition live_ids :: "'v task_table \<Rightarrow> string set" where
  "live_ids T = {k. \<exists>r. T k = Some r \<and> \<not> is_terminal_status (status r)}"

definition abort_tab :: "runtime_error \<Rightarrow> string set \<Rightarrow> 'v task_table \<Rightarrow> 'v task_table" where
  "abort_tab f K T = (\<lambda>k. if k \<in> K then map_option (aborted_rec f) (T k) else T k)"

lemma record_ok_aborted: "record_ok r \<Longrightarrow> record_ok (aborted_rec f r)"
  by (simp add: aborted_rec_def record_ok_mark_terminal)

lemma aborted_rec_simps [simp]:
  "task_id (rec_task (aborted_rec f r)) = task_id (rec_task r)"
  "is_terminal_status (status (aborted_rec f r))"
  by (simp_all add: aborted_rec_def)

definition same_but_tasks :: "'v task_pool \<Rightarrow> 'v task_pool \<Rightarrow> bool" where
  "same_but_tasks p q \<longleftrightarrow>
     waits_by_child q = waits_by_child p \<and> waits_by_parent q = waits_by_parent p \<and>
     terminal_order q = terminal_order p \<and> history_retention q = history_retention p \<and>
     evicted_task_ids q = evicted_task_ids p \<and> evicted_task_order q = evicted_task_order p \<and>
     payload_wire_bytes_map q = payload_wire_bytes_map p \<and>
     ready_selector_cache q = ready_selector_cache p \<and> fmdom (tasks q) = fmdom (tasks p)"

lemma abort_fold:
  assumes "keyed (tab p)" and "stats_ok (statistics p) (tab p)" and "set ks \<subseteq> dom (tab p)"
    and "distinct ks"
  shows "\<exists>q ls'. fold (abort_record f) ks (p, as, ls) =
       (q, as @ filter (\<lambda>k. k \<in> live_ids (tab p)) ks, ls') \<and>
     tab q = abort_tab f (set ks) (tab p) \<and> stats_ok (statistics q) (tab q) \<and> same_but_tasks p q"
  using assms
proof (induction ks arbitrary: p as ls)
  case Nil
  then show ?case
    by (simp add: abort_tab_def same_but_tasks_def)
next
  case (Cons k ks)
  from Cons.prems(3) obtain r where r: "tab p k = Some r" by (auto simp: fmdom'_lookup)
  have k: "task_id (rec_task r) = k"
    using Cons.prems(1) r by (simp add: keyed_def)
  show ?case
  proof (cases "is_terminal_status (status r)")
    case True
    then have step: "abort_record f k (p, as, ls) = (p, as, ls)"
      by (simp add: abort_record_def r)
    have "k \<notin> live_ids (tab p)"
      using True r by (simp add: live_ids_def)
    moreover have "abort_tab f (set (k # ks)) (tab p) = abort_tab f (set ks) (tab p)"
      using True r by (auto simp: abort_tab_def aborted_rec_def)
    ultimately show ?thesis
      using Cons.IH [OF Cons.prems(1,2), of as ls] Cons.prems(3,4) step by simp
  next
    case False
    define r' where "r' = mark_terminal_record Cancelled (Some f) r"
    define p' where "p' = transition_stats (Some (status r)) (Some Cancelled)
      (p\<lparr>tasks := fmupd k r' (tasks p)\<rparr>)"
    have step: "abort_record f k (p, as, ls) = (p', as @ [k],
        (case lease r of None \<Rightarrow> ls | Some l \<Rightarrow> ls @ [l]))"
      using False by (simp add: abort_record_def r p'_def r'_def k)
    have tab': "tab p' = (tab p)(k := Some r')"
      by (simp add: p'_def)
    have "keyed (tab p')"
      using Cons.prems(1) k by (simp add: tab' keyed_def r'_def)
    moreover have "stats_ok (statistics p') (tab p')"
      using stats_ok_replace [OF Cons.prems(2) finite_dom_tab r, of r']
      by (simp add: tab' p'_def transition_stats_def r'_def)
    moreover have "set ks \<subseteq> dom (tab p')" "distinct ks"
      using Cons.prems(3,4) by (auto simp: tab')
    ultimately obtain q ls' where q: "fold (abort_record f) ks
        (p', as @ [k], case lease r of None \<Rightarrow> ls | Some l \<Rightarrow> ls @ [l]) =
        (q, (as @ [k]) @ filter (\<lambda>k. k \<in> live_ids (tab p')) ks, ls')"
      "tab q = abort_tab f (set ks) (tab p')" "stats_ok (statistics q) (tab q)"
      "same_but_tasks p' q"
      using Cons.IH [of p' "as @ [k]"] by blast
    have nk: "k \<notin> set ks"
      using Cons.prems(4) by simp
    have "filter (\<lambda>k. k \<in> live_ids (tab p')) ks = filter (\<lambda>k. k \<in> live_ids (tab p)) ks"
      by (rule filter_cong) (use nk in \<open>auto simp: live_ids_def tab'\<close>)
    moreover have "k \<in> live_ids (tab p)"
      using False r by (simp add: live_ids_def)
    moreover have "tab q = abort_tab f (set (k # ks)) (tab p)"
      using q(2) nk r False by (auto simp: abort_tab_def tab' r'_def aborted_rec_def)
    moreover have "finsert k (fmdom (tasks p)) = fmdom (tasks p)"
      using r by (auto simp: fmdomI)
    then have "same_but_tasks p p'"
      by (simp add: same_but_tasks_def p'_def)
    then have "same_but_tasks p q"
      using q(4) by (simp add: same_but_tasks_def)
    ultimately show ?thesis
      using q step by auto
  qed
qed

lemma terminal_ids_restrict: "terminal_ids (T |` (- E)) = terminal_ids T - E"
  by (auto simp: terminal_ids_def restrict_map_def)

lemma abort_finish_ok:
  assumes "core_inv {} {} p" and "hist_inv (set ks) p" and "wait_inv (set ks) p"
    and "set ks \<subseteq> terminal_ids (tab p)" and "distinct ks"
  shows "\<exists>q E. abort_finish_loop ks p = Some q \<and> pool_inv q \<and> tab q = tab p |` (- E) \<and>
     E \<subseteq> terminal_ids (tab p) \<and> history_retention q = history_retention p \<and>
     (history_retention p = None \<longrightarrow> E = {})"
  using assms
proof (induction ks arbitrary: p)
  case Nil
  then show ?case
    by (intro exI [of _ p] exI [of _ "{}"]) (simp add: pool_inv_def)
next
  case (Cons k ks)
  define p1 where "p1 = remove_waits_for_parent k p"
  note same = only_waits_differ_simps [OF remove_waits_differ [OF Cons.prems(3), of k],
      folded p1_def]
  have nk: "k \<notin> set ks" and dist: "distinct ks"
    using Cons.prems(5) by simp_all
  have "set (k # ks) - {k} = set ks"
    using nk by auto
  then have wait1: "wait_inv (set ks) p1"
    using remove_waits_inv [OF Cons.prems(3), of k] by (simp add: p1_def)
  have hist1: "hist_inv (insert k (set ks)) p1"
    using Cons.prems(2) same(7) by simp
  have core1: "core_inv {} {} p1"
    using Cons.prems(1) same(6) by simp
  have k1: "k \<in> terminal_ids (tab p1)"
    using Cons.prems(4) same(1) by simp
  obtain q E where q: "record_terminal_task k p1 = Some q" "core_inv {} {} q"
    "hist_inv (set ks) q" "wait_inv (set ks) q" "compacted E p1 q" "E \<inter> set ks = {}"
    "history_retention p1 = None \<longrightarrow> q = p1 \<and> E = {}"
    using record_terminal_task_ok [OF core1 hist1 wait1 k1 nk] by (elim exE conjE) (rule that)
  have tabq: "tab q = tab p |` (- E)"
    using compacted_tab_fun [OF q(5)] same(1) by simp
  have retq: "history_retention q = history_retention p"
    using q(5) same(5) by (simp add: compacted_def)
  have "set ks \<subseteq> terminal_ids (tab q)"
    using Cons.prems(4) q(6) by (auto simp: tabq terminal_ids_restrict)
  from Cons.IH [OF q(2,3,4) this dist] obtain q' F where q': "abort_finish_loop ks q = Some q'"
    "pool_inv q'" "tab q' = tab q |` (- F)" "F \<subseteq> terminal_ids (tab q)"
    "history_retention q' = history_retention q" "history_retention q = None \<longrightarrow> F = {}"
    by (elim exE conjE) (rule that)
  have "tab q' = tab p |` (- (E \<union> F))"
    by (simp add: q'(3) tabq)
  moreover have "E \<subseteq> terminal_ids (tab p)"
    using q(5) same(1) by (simp add: compacted_def)
  then have "E \<union> F \<subseteq> terminal_ids (tab p)"
    using q'(4) by (auto simp: tabq terminal_ids_restrict)
  moreover have "abort_finish_loop (k # ks) p = Some q'"
    using q(1) q'(1) by (simp add: p1_def)
  moreover have "history_retention p = None \<longrightarrow> E \<union> F = {}"
    using q(7) q'(6) retq same(5) by simp
  ultimately show ?case
    using q'(2,5) retq by (intro exI [of _ q'] exI [of _ "E \<union> F"]) simp
qed

lemma terminal_ids_aborted: "terminal_ids (\<lambda>k. map_option (aborted_rec f) (T k)) = dom T"
  by (auto simp: terminal_ids_def)

lemma dom_live_terminal: "dom T - live_ids T = terminal_ids T" "live_ids T \<subseteq> dom T"
  by (auto simp: live_ids_def terminal_ids_def)

lemma wait_inv_transfer:
  assumes "wait_inv P p" and "waits_by_child q = waits_by_child p"
    and "waits_by_parent q = waits_by_parent p" and "dom (tab p) \<subseteq> dom (tab q)"
    and "\<And>k. k \<in> fmdom' (waits_by_parent p) \<Longrightarrow> k \<notin> Q \<Longrightarrow>
       \<exists>r. tab q k = Some r \<and> status r = Waiting"
  shows "wait_inv Q q"
proof (rule wait_invI)
  fix k ws
  assume "fmlookup (waits_by_parent q) k = Some ws"
  with assms(1,2,3) show "\<exists>w cs. ws = [w] \<and> parent_task_id w = k \<and>
      fmlookup (waits_by_child q) (await_child_id w) = Some cs \<and> w \<in> set cs"
    by (simp add: wait_inv_def)
next
  fix c cs
  assume "fmlookup (waits_by_child q) c = Some cs"
  then have "fmlookup (waits_by_child p) c = Some cs" using assms(2) by simp
  from wait_inv_child [OF assms(1) this] assms(3,4)
  show "cs \<noteq> [] \<and> distinct (map parent_task_id cs) \<and> c \<in> dom (tab q) \<and>
      (\<forall>w \<in> set cs. await_child_id w = c \<and>
         fmlookup (waits_by_parent q) (parent_task_id w) = Some [w])"
    by auto
next
  fix k
  assume "k \<in> fmdom' (waits_by_parent q)" "k \<notin> Q"
  with assms(3,5) show "\<exists>r. tab q k = Some r \<and> status r = Waiting" by simp
qed

lemma abort_all_ok:
  assumes inv: "pool_inv p"
  shows "\<exists>aborted q E. abort_all p s f = Some (aborted, q) \<and> pool_inv q \<and>
     sorted aborted \<and> distinct aborted \<and> set aborted = live_ids (tab p) \<and>
     tab q = (\<lambda>k. map_option (aborted_rec f) (tab p k)) |` (- E) \<and>
     (history_retention p = None \<longrightarrow> E = {})"
proof -
  let ?ks = "fm_keys (tasks p)" and ?T = "\<lambda>k. map_option (aborted_rec f) (tab p k)"
  have core: "core_inv {} {} p" and hist: "hist_inv {} p" and wait: "wait_inv {} p"
    using inv by (simp_all add: pool_inv_def)
  obtain p1 ls where p1: "fold (abort_record f) ?ks (p, [], []) =
      (p1, filter (\<lambda>k. k \<in> live_ids (tab p)) ?ks, ls)"
    "tab p1 = abort_tab f (set ?ks) (tab p)" "stats_ok (statistics p1) (tab p1)"
    "same_but_tasks p p1"
    using abort_fold [of p ?ks f "[]" "[]"] core by (auto simp: core_inv_def)
  define as where "as = filter (\<lambda>k. k \<in> live_ids (tab p)) ?ks"
  have T1: "tab p1 = ?T"
  proof (rule ext)
    show "tab p1 k = map_option (aborted_rec f) (tab p k)" for k
      by (cases "tab p k") (simp_all add: p1(2) abort_tab_def fmdom'_lookup)
  qed
  define p3 where "p3 = fold (\<lambda>l. record_attempt_finished l s) ls (rebuild_indexes p1)"
  have "keyed (tab p1)" "\<forall>k r. tab p1 k = Some r \<longrightarrow> record_ok r"
    using pool_inv_keyed [OF inv] record_ok_aborted [OF pool_inv_record_ok [OF inv]]
    unfolding T1 keyed_def by auto
  moreover have "evicted_ok (rebuild_indexes p1)"
    using core p1(4) by (simp add: core_inv_def evicted_ok_def same_but_tasks_def fmdom'_alt_def)
  ultimately have "core_inv {} {} (rebuild_indexes p1)"
    using core p1(3,4) ix_ok_rebuild [of p1]
    by (simp add: core_inv_def cache_ok_def same_but_tasks_def)
  then have core3: "core_inv {} {} p3"
    by (simp add: p3_def fold_attempt_finished)
  have tab3: "tab p3 = ?T"
    by (simp add: p3_def fold_attempt_finished T1)
  have set_as: "set (sort as) = live_ids (tab p)"
    using dom_live_terminal(2) [of "tab p"] by (auto simp: as_def)
  have term3: "terminal_ids (tab p3) = dom (tab p)"
    by (simp add: tab3 terminal_ids_aborted)
  have same3: "waits_by_child p3 = waits_by_child p" "waits_by_parent p3 = waits_by_parent p"
    "terminal_order p3 = terminal_order p" "history_retention p3 = history_retention p"
    using p1(4) fold_attempt_finished_frame [of s ls "rebuild_indexes p1"]
    by (simp_all add: p3_def same_but_tasks_def)
  have hist3: "hist_inv (set (sort as)) p3"
    using hist unfolding hist_inv_def same3 term3 set_as dom_live_terminal(1) by simp
  have wait3: "wait_inv (set (sort as)) p3"
  proof (rule wait_inv_transfer [OF wait same3(1,2)])
    show "dom (tab p) \<subseteq> dom (tab p3)"
      unfolding tab3 by (auto simp: fmdom'_lookup)
    show "\<exists>r. tab p3 k = Some r \<and> status r = Waiting"
      if "k \<in> fmdom' (waits_by_parent p)" "k \<notin> set (sort as)" for k
    proof -
      from wait_inv_parent_record [OF wait that(1)] obtain r
        where "tab p k = Some r" "status r = Waiting" by auto
      then have "k \<in> set (sort as)"
        unfolding set_as by (simp add: live_ids_def)
      with that(2) show ?thesis by simp
    qed
  qed
  have "set (sort as) \<subseteq> terminal_ids (tab p3)" "distinct (sort as)"
    using dom_live_terminal(2) [of "tab p"] unfolding set_as term3 by (simp_all add: as_def)
  from abort_finish_ok [OF core3 hist3 wait3 this] obtain q E where
    q: "abort_finish_loop (sort as) p3 = Some q" "pool_inv q" "tab q = tab p3 |` (- E)"
      "history_retention p3 = None \<longrightarrow> E = {}"
    by (elim exE conjE) (rule that)
  have "abort_all p s f = Some (sort as, q)"
    using q(1) by (simp add: abort_all_def p1(1) as_def [symmetric] p3_def [symmetric])
  then show ?thesis
    using q(2,3,4) set_as tab3 same3(4) \<open>distinct (sort as)\<close>
    by (intro exI [of _ "sort as"] exI [of _ q] exI [of _ E]) simp
qed

section \<open>Rebinding a generation\<close>

definition rebound_rec :: "u64 \<Rightarrow> u64 \<Rightarrow> 'v task_record \<Rightarrow> 'v task_record" where
  "rebound_rec old new r = (if rebinds old r
     then r\<lparr>rec_task := (rec_task r)\<lparr>registry_generation := new\<rparr>\<rparr> else r)"

lemma rebound_rec_simps [simp]:
  "status (rebound_rec old new r) = status r"
  "task_id (rec_task (rebound_rec old new r)) = task_id (rec_task r)"
  "lease (rebound_rec old new r) = lease r"
  "attempt_generation (rebound_rec old new r) = attempt_generation r"
  by (simp_all add: rebound_rec_def)

lemma record_ok_rebound: "record_ok (rebound_rec old new r) = record_ok r"
  by (cases "lease r") (simp_all add: record_ok_def rebound_rec_def)

lemma card_filter_values:
  "length (filter P (fm_values m)) = card {k. \<exists>r. fmlookup m k = Some r \<and> P r}"
proof -
  have "length (filter P (fm_values m)) = length (filter (\<lambda>k. P (the (fmlookup m k))) (fm_keys m))"
    by (simp add: fm_values_keys filter_map comp_def)
  also have "\<dots> = card (set (filter (\<lambda>k. P (the (fmlookup m k))) (fm_keys m)))"
    by (rule distinct_card [symmetric]) simp
  also have "set (filter (\<lambda>k. P (the (fmlookup m k))) (fm_keys m)) =
      {k. \<exists>r. fmlookup m k = Some r \<and> P r}"
    by (auto simp: fmdom'_lookup)
  finally show ?thesis .
qed

lemma rebind_ok:
  assumes inv: "pool_inv p"
  shows "\<exists>q. rebind_ready_generation p old new =
       (card {k. \<exists>r. tab p k = Some r \<and> rebinds old r}, q) \<and> pool_inv q \<and>
     (\<forall>k. tab q k = map_option (rebound_rec old new) (tab p k))"
proof -
  define p1 where "p1 = p\<lparr>tasks := fmmap (rebound_rec old new) (tasks p)\<rparr>"
  define q where "q = rebuild_indexes p1"
  have fun_eq: "(\<lambda>record. if rebinds old record
      then record\<lparr>rec_task := (rec_task record)\<lparr>registry_generation := new\<rparr>\<rparr> else record) =
      rebound_rec old new"
    by (rule ext) (simp add: rebound_rec_def)
  have eq: "rebind_ready_generation p old new =
      (card {k. \<exists>r. tab p k = Some r \<and> rebinds old r}, q)"
    by (simp add: rebind_ready_generation_def fun_eq card_filter_values q_def p1_def)
  have tq: "tab q k = map_option (rebound_rec old new) (tab p k)" for k
    by (simp add: q_def p1_def)
  have ids: "ids_with st (tab q) = ids_with st (tab p)" "terminal_ids (tab q) = terminal_ids (tab p)"
    "dom (tab q) = dom (tab p)" for st
    unfolding ids_with_def terminal_ids_def dom_def tq by auto
  have kd: "keyed (tab q)" and ok: "\<forall>k r. tab q k = Some r \<longrightarrow> record_ok r"
    unfolding keyed_def tq using pool_inv_keyed [OF inv] pool_inv_record_ok [OF inv]
    by (auto simp: record_ok_rebound)
  have ix: "ix_ok (indexes q) (tab q) (tab q) (tab q)"
    using ix_ok_rebuild [of p1] by (simp add: q_def)
  have same: "statistics q = statistics p" "waits_by_child q = waits_by_child p"
    "waits_by_parent q = waits_by_parent p" "terminal_order q = terminal_order p"
    "history_retention q = history_retention p" "evicted_task_ids q = evicted_task_ids p"
    "evicted_task_order q = evicted_task_order p"
    "payload_wire_bytes_map q = payload_wire_bytes_map p"
    "ready_selector_cache q = ready_selector_cache p" "fmdom (tasks q) = fmdom (tasks p)"
    by (simp_all add: q_def p1_def)
  have "stats_ok (statistics q) (tab q)" "evicted_ok q" "cache_ok q"
    using inv unfolding pool_inv_def core_inv_def stats_ok_def evicted_ok_def cache_ok_def ids same
    by simp_all
  with kd ok ix have "core_inv {} {} q"
    using inv by (simp add: pool_inv_def core_inv_def same)
  moreover have "hist_inv {} q"
    using inv unfolding pool_inv_def hist_inv_def ids same by simp
  moreover have "wait_inv {} q"
  proof (rule wait_inv_transfer [of "{}" p])
    show "\<exists>r. tab q k = Some r \<and> status r = Waiting" if "k \<in> fmdom' (waits_by_parent p)" for k
      using inv wait_inv_parent_record [of "{}" p k] that by (auto simp: pool_inv_def tq)
    show "wait_inv {} p" using inv by (simp add: pool_inv_def)
    show "dom (tab p) \<subseteq> dom (tab q)" unfolding ids ..
  qed (simp_all only: same)
  ultimately show ?thesis
    using eq tq by (intro exI [of _ q]) (simp add: pool_inv_def)
qed

section \<open>Taking the waits of a child\<close>

lemma fold_retain_lookup:
  assumes "distinct (map parent_task_id ws)"
    and "\<forall>w \<in> set ws. fmlookup m (parent_task_id w) = Some [w] \<and> await_child_id w = c"
  shows "fmlookup (fold (\<lambda>w. retain_waits (\<lambda>item. await_child_id item \<noteq> c) (parent_task_id w)) ws m) j =
     (if j \<in> parent_task_id ` set ws then None else fmlookup m j)"
  using assms
proof (induction ws arbitrary: m)
  case (Cons w ws)
  define m1 where "m1 = retain_waits (\<lambda>item. await_child_id item \<noteq> c) (parent_task_id w) m"
  have w: "fmlookup m (parent_task_id w) = Some [w]" "await_child_id w = c"
    using Cons.prems(2) by simp_all
  then have m1: "fmlookup m1 i = (if i = parent_task_id w then None else fmlookup m i)" for i
    by (simp add: m1_def retain_waits_lookup)
  have nw: "parent_task_id w \<notin> parent_task_id ` set ws" and dist: "distinct (map parent_task_id ws)"
    using Cons.prems(1) by simp_all
  have "\<forall>v \<in> set ws. fmlookup m1 (parent_task_id v) = Some [v] \<and> await_child_id v = c"
  proof
    fix v
    assume v: "v \<in> set ws"
    with nw have "parent_task_id v \<noteq> parent_task_id w" by (metis imageI)
    with v Cons.prems(2) show "fmlookup m1 (parent_task_id v) = Some [v] \<and> await_child_id v = c"
      by (simp add: m1)
  qed
  from Cons.IH [OF dist this] show ?case
    by (simp add: m1_def [symmetric] m1)
qed simp

lemma take_waits_fold:
  "fold (\<lambda>w q. q\<lparr>waits_by_parent := f w (waits_by_parent q)\<rparr>) ws p =
     p\<lparr>waits_by_parent := fold f ws (waits_by_parent p)\<rparr>"
  by (induction ws arbitrary: p) simp_all

lemma take_waits_only_ok:
  fixes c :: string
  assumes wait: "wait_inv {} p"
  defines "ws \<equiv> fm_get_or [] (waits_by_child p) c"
  shows "\<exists>q. take_waits_for_child_only p c = (ws, q) \<and> only_waits_differ p q \<and> wait_inv {} q \<and>
     c \<notin> fmdom' (waits_by_child q) \<and>
     (\<forall>j. fmlookup (waits_by_parent q) j =
        (if j \<in> parent_task_id ` set ws then None else fmlookup (waits_by_parent p) j))"
proof -
  have "distinct (map parent_task_id ws) \<and>
      (\<forall>w \<in> set ws. fmlookup (waits_by_parent p) (parent_task_id w) = Some [w] \<and>
        await_child_id w = c)"
  proof (cases "fmlookup (waits_by_child p) c")
    case (Some cs)
    with wait_inv_child [OF wait Some] show ?thesis by (simp add: ws_def fm_get_or_def)
  qed (simp add: ws_def fm_get_or_def)
  then have dist: "distinct (map parent_task_id ws)"
    and all: "\<forall>w \<in> set ws. fmlookup (waits_by_parent p) (parent_task_id w) = Some [w] \<and>
      await_child_id w = c"
    by blast+
  define q where "q = p\<lparr>waits_by_child := fmdrop c (waits_by_child p), waits_by_parent :=
    fold (\<lambda>w. retain_waits (\<lambda>item. await_child_id item \<noteq> c) (parent_task_id w)) ws
      (waits_by_parent p)\<rparr>"
  have eq: "take_waits_for_child_only p c = (ws, q)"
    using take_waits_fold [of "\<lambda>w. retain_waits (\<lambda>item. await_child_id item \<noteq> c) (parent_task_id w)"
        ws "p\<lparr>waits_by_child := fmdrop c (waits_by_child p)\<rparr>"]
    by (simp add: take_waits_for_child_only_def ws_def [symmetric] q_def Let_def)
  have par: "fmlookup (waits_by_parent q) j =
      (if j \<in> parent_task_id ` set ws then None else fmlookup (waits_by_parent p) j)" for j
    using fold_retain_lookup [OF dist all, of j] by (simp add: q_def)
  have chi: "fmlookup (waits_by_child q) d = (if d = c then None else fmlookup (waits_by_child p) d)"
    for d by (simp add: q_def)
  have tq: "tab q = tab p" by (simp add: q_def)
  have "wait_inv {} q"
  proof (rule wait_invI)
    fix k vs
    assume "fmlookup (waits_by_parent q) k = Some vs"
    then have k: "k \<notin> parent_task_id ` set ws" "fmlookup (waits_by_parent p) k = Some vs"
      by (simp_all add: par split: if_splits)
    from wait k(2) obtain v cs where v: "vs = [v]" "parent_task_id v = k"
      "fmlookup (waits_by_child p) (await_child_id v) = Some cs" "v \<in> set cs"
      by (rule wait_inv_parentE)
    have "await_child_id v \<noteq> c"
    proof
      assume "await_child_id v = c"
      with v(3,4) have "v \<in> set ws" by (simp add: ws_def fm_get_or_def)
      then have "parent_task_id v \<in> parent_task_id ` set ws" by (rule imageI)
      with v(2) k(1) show False by simp
    qed
    with v show "\<exists>w cs. vs = [w] \<and> parent_task_id w = k \<and>
        fmlookup (waits_by_child q) (await_child_id w) = Some cs \<and> w \<in> set cs"
      by (simp add: chi)
  next
    fix d ds
    assume "fmlookup (waits_by_child q) d = Some ds"
    then have d: "d \<noteq> c" "fmlookup (waits_by_child p) d = Some ds"
      by (simp_all add: chi split: if_splits)
    note old = wait_inv_child [OF wait d(2)]
    have "parent_task_id w \<notin> parent_task_id ` set ws" if "w \<in> set ds" for w
    proof
      assume "parent_task_id w \<in> parent_task_id ` set ws"
      then obtain v where v: "v \<in> set ws" "parent_task_id w = parent_task_id v" by (rule imageE)
      from bspec [OF all v(1)] old(5) [OF that] have "v = w" unfolding v(2) by simp
      with bspec [OF all v(1)] old(4) [OF that] d(1) show False by simp
    qed
    with old show "ds \<noteq> [] \<and> distinct (map parent_task_id ds) \<and> d \<in> dom (tab q) \<and>
        (\<forall>w \<in> set ds. await_child_id w = d \<and>
           fmlookup (waits_by_parent q) (parent_task_id w) = Some [w])"
      by (simp add: par tq)
  next
    fix k
    assume "k \<in> fmdom' (waits_by_parent q)"
    then have "k \<in> fmdom' (waits_by_parent p)"
      by (simp add: fmdom'_lookup par split: if_splits)
    then show "\<exists>r. tab q k = Some r \<and> status r = Waiting"
      using wait_inv_parent_record [OF wait] tq by simp
  qed
  moreover have "only_waits_differ p q"
    unfolding only_waits_differ_def q_def by blast
  ultimately show ?thesis
    using eq par by (intro exI [of _ q]) (simp add: fmdom'_lookup chi)
qed

lemma take_waits_for_child_ok:
  assumes inv: "pool_inv p"
  shows "\<exists>q E. take_waits_for_child p c = Some (fm_get_or [] (waits_by_child p) c, q) \<and>
     pool_inv q \<and> within_retention q \<and> tab q = tab p |` (- E) \<and> E \<subseteq> terminal_ids (tab p) \<and>
     (history_retention p = None \<longrightarrow> E = {}) \<and> c \<notin> fmdom' (waits_by_child q)"
proof -
  have wait: "wait_inv {} p"
    using inv by (simp add: pool_inv_def)
  obtain p1 where p1: "take_waits_for_child_only p c = (fm_get_or [] (waits_by_child p) c, p1)"
    "only_waits_differ p p1" "wait_inv {} p1" "c \<notin> fmdom' (waits_by_child p1)"
    using take_waits_only_ok [OF wait, of c] by (elim exE conjE) (rule that)
  note same = only_waits_differ_simps [OF p1(2)]
  have core: "core_inv {} {} p1" and hist: "hist_inv {} p1"
    using inv same by (simp_all add: pool_inv_def)
  obtain q E where q: "compact_terminal_history p1 = Some q" "core_inv {} {} q" "hist_inv {} q"
    "compacted E p1 q"
    "\<forall>ret. history_retention p1 = Some ret \<longrightarrow>
        length (terminal_order q) \<le> max_terminal_records ret \<or>
        (\<forall>k \<in> set (terminal_order q). protected q k)"
    "history_retention p1 = None \<longrightarrow> q = p1 \<and> E = {}"
    using compact_terminal_history_ok [OF core hist] by (elim exE conjE) (rule that)
  have "pool_inv q"
    using q wait_inv_compacted [OF p1(3) q(4)] by (simp add: pool_inv_def)
  moreover have "within_retention q"
    using q(4,5) by (simp add: within_retention_def compacted_def)
  moreover have "tab q = tab p |` (- E)"
    using compacted_tab_fun [OF q(4)] same(1) by simp
  moreover have "E \<subseteq> terminal_ids (tab p)" "c \<notin> fmdom' (waits_by_child q)"
    using q(4) p1(4) same(1) by (simp_all add: compacted_def)
  ultimately show ?thesis
    using q(1,6) p1(1) same(5)
    by (intro exI [of _ q] exI [of _ E]) (simp add: take_waits_for_child_def)
qed

section \<open>Changing the retention\<close>

lemma trim_ids:
  assumes "distinct xs" and "set xs = fset s"
  shows "set (drop n xs) = fset (s |-| fset_of_list (take n xs))"
proof -
  have "set (take n xs) \<inter> set (drop n xs) = {}"
    using assms(1) by (simp add: set_take_disj_set_drop_if_distinct)
  moreover have "set xs = set (take n xs) \<union> set (drop n xs)"
    by (metis append_take_drop_id set_append)
  ultimately show ?thesis
    using assms(2) by (auto simp: fset_of_list.rep_eq)
qed

lemma terminal_list_elems:
  assumes "keyed (tab p)"
  defines "xs \<equiv> map (\<lambda>record. (created_sequence (rec_task record), task_id (rec_task record)))
     (filter (\<lambda>record. is_terminal_status (status record)) (fm_values (tasks p)))"
  shows "set (map snd (sort_key fst xs)) = terminal_ids (tab p)"
    and "distinct (map snd (sort_key fst xs))"
proof -
  have snds: "map snd xs = filter (\<lambda>k. is_terminal_status (status (the (tab p k)))) (fm_keys (tasks p))"
  proof -
    have "map snd xs = map (\<lambda>k. task_id (rec_task (the (tab p k))))
        (filter (\<lambda>k. is_terminal_status (status (the (tab p k)))) (fm_keys (tasks p)))"
      by (simp add: xs_def fm_values_keys filter_map comp_def)
    also have "\<dots> = filter (\<lambda>k. is_terminal_status (status (the (tab p k)))) (fm_keys (tasks p))"
      by (rule map_idI) (use assms(1) in \<open>auto simp: keyed_def fmdom'_lookup\<close>)
    finally show ?thesis .
  qed
  have "set (map snd (sort_key fst xs)) = set (map snd xs)" by simp
  also have "\<dots> = terminal_ids (tab p)"
    unfolding snds by (auto simp: terminal_ids_def fmdom'_lookup)
  finally show "set (map snd (sort_key fst xs)) = terminal_ids (tab p)" .
  have "mset (map snd (sort_key fst xs)) = mset (map snd xs)" by simp
  moreover have "distinct (map snd xs)" unfolding snds by simp
  ultimately show "distinct (map snd (sort_key fst xs))"
    using mset_eq_imp_distinct_iff by blast
qed

lemma configure_history_retention_ok:
  assumes inv: "pool_inv p"
  shows "\<exists>q E. configure_history_retention p ret = Some q \<and> pool_inv q \<and> within_retention q \<and>
     history_retention q = ret \<and> tab q = tab p |` (- E) \<and> E \<subseteq> terminal_ids (tab p) \<and>
     (ret = None \<longrightarrow> E = {})"
proof (cases ret)
  case None
  define q where "q = p\<lparr>history_retention := None, terminal_order := [], evicted_task_ids := {||},
    evicted_task_order := []\<rparr>"
  have "configure_history_retention p ret = Some q"
    by (simp add: configure_history_retention_def None q_def Let_def)
  moreover have "pool_inv q"
    using inv by (simp add: q_def pool_inv_def core_inv_def evicted_ok_def cache_ok_def hist_inv_def
        wait_inv_def)
  ultimately show ?thesis
    using None by (intro exI [of _ q] exI [of _ "{}"]) (simp add: q_def within_retention_def)
next
  case (Some r)
  have core: "core_inv {} {} p" and wait: "wait_inv {} p"
    using inv by (simp_all add: pool_inv_def)
  define xs where "xs = map (\<lambda>record. (created_sequence (rec_task record), task_id (rec_task record)))
     (filter (\<lambda>record. is_terminal_status (status record)) (fm_values (tasks p)))"
  define n where "n = length (evicted_task_order p) - max_evicted_task_ids r"
  define p2 where "p2 = p\<lparr>history_retention := Some r, terminal_order := map snd (sort_key fst xs),
    evicted_task_order := drop n (evicted_task_order p),
    evicted_task_ids := evicted_task_ids p |-| fset_of_list (take n (evicted_task_order p))\<rparr>"
  have eq: "configure_history_retention p ret = compact_terminal_history p2"
    by (simp add: configure_history_retention_def Some xs_def p2_def n_def Let_def trim_eq)
  have kd: "keyed (tab p)" using core by (simp add: core_inv_def)
  have ev: "distinct (evicted_task_order p)" "set (evicted_task_order p) = fset (evicted_task_ids p)"
    "fset (evicted_task_ids p) \<inter> dom (tab p) = {}"
    using core by (simp_all add: core_inv_def evicted_ok_def)
  have "evicted_ok p2"
    using ev trim_ids [OF ev(1,2), of n] by (auto simp: evicted_ok_def p2_def n_def)
  then have core2: "core_inv {} {} p2"
    using core by (simp add: core_inv_def p2_def cache_ok_def)
  have hist2: "hist_inv {} p2"
    using terminal_list_elems [OF kd] by (simp add: hist_inv_def p2_def xs_def)
  have wait2: "wait_inv {} p2"
    using wait by (simp add: wait_inv_def p2_def)
  obtain q E where q: "compact_terminal_history p2 = Some q" "core_inv {} {} q" "hist_inv {} q"
    "compacted E p2 q"
    "\<forall>ret. history_retention p2 = Some ret \<longrightarrow>
        length (terminal_order q) \<le> max_terminal_records ret \<or>
        (\<forall>k \<in> set (terminal_order q). protected q k)"
    using compact_terminal_history_ok [OF core2 hist2] by (elim exE conjE) (rule that)
  have "pool_inv q"
    using q wait_inv_compacted [OF wait2 q(4)] by (simp add: pool_inv_def)
  moreover have "within_retention q" "history_retention q = ret"
    using q(4,5) Some by (simp_all add: within_retention_def compacted_def p2_def)
  moreover have "tab q = tab p |` (- E)" "E \<subseteq> terminal_ids (tab p)"
    using compacted_tab_fun [OF q(4)] q(4) by (simp_all add: p2_def compacted_def)
  ultimately show ?thesis
    using q(1) eq Some by (intro exI [of _ q] exI [of _ E]) simp
qed

end
