(* ===== verification/Claim_Order.thy ===== *)
theory Claim_Order
  imports Pool_Loops
begin

text \<open>
  The order in which \<open>visit_candidate_records\<close> offers tasks: the heap merge over the ready
  queues of a runner visits exactly the claimable records, in ascending order of their ready
  keys. The reference is a plain sort of the claimable records of the pool.
\<close>

section \<open>Visiting a list of keys\<close>

fun visit_keys ::
  "('v task_record \<Rightarrow> 's \<Rightarrow> ('s \<times> bool) option) \<Rightarrow> (string, 'v task_record) fmap \<Rightarrow> u64
     \<Rightarrow> ready_key list \<Rightarrow> nat \<Rightarrow> 's \<Rightarrow> ('s \<times> nat) option" where
  "visit_keys visit ts gen [] visited s = Some (s, visited)"
| "visit_keys visit ts gen (key # keys) visited s =
     (case visit_turn visit ts gen key visited s of
        None \<Rightarrow> None
      | Some (s', continue, visited') \<Rightarrow>
          if continue then visit_keys visit ts gen keys visited' s' else Some (s', visited'))"

text \<open>The keys that a state of the merge has yet to visit.\<close>

definition due_keys :: "u64 \<Rightarrow> ready_key list \<Rightarrow> ready_key list" where
  "due_keys step ks = filter (\<lambda>k. is_due k step) ks"

definition pending :: "u64 \<Rightarrow> ready_key list list \<Rightarrow> merge_heap \<Rightarrow> ready_key multiset" where
  "pending step its heap =
     (\<Sum>(k, i) \<in># mset heap. add_mset k (mset (due_keys step (its ! i))))"

definition merge_ok :: "u64 \<Rightarrow> ready_key list list \<Rightarrow> merge_heap \<Rightarrow> bool" where
  "merge_ok step its heap \<longleftrightarrow>
     sorted heap \<and> distinct (map snd heap) \<and>
     (\<forall>(k, i) \<in> set heap. i < length its \<and> sorted (k # its ! i))"

lemma not_due_rest:
  assumes "sorted (k # ks)" and "\<not> is_due k step"
  shows "due_keys step (k # ks) = []"
proof -
  have "\<not> is_due x step" if "x \<in> set (k # ks)" for x
  proof -
    have "k \<le> x" using assms(1) that by auto
    then have "key_ready_at_step k \<le> key_ready_at_step x"
      by (auto simp: less_eq_ready_key_def less_ready_key_def)
    with assms(2) show ?thesis by (simp add: is_due_def)
  qed
  then show ?thesis by (simp add: due_keys_def filter_empty_conv)
qed

lemma pending_update:
  "i \<notin> snd ` set heap \<Longrightarrow> pending step (its[i := ks]) heap = pending step its heap"
proof -
  assume i: "i \<notin> snd ` set heap"
  have "its[i := ks] ! snd x = its ! snd x" if "x \<in> set heap" for x
    using i that by (metis imageI nth_list_update_neq)
  then show ?thesis
    unfolding pending_def
    by (intro arg_cong [where f = sum_mset] image_mset_cong) (auto simp: case_prod_beta)
qed

lemma pending_Cons:
  "pending step its ((k, i) # heap) =
     add_mset k (mset (due_keys step (its ! i)) + pending step its heap)"
  by (simp add: pending_def)

lemma pending_insort: "pending step its (insort x heap) = pending step its (x # heap)"
  by (simp add: pending_def)

lemma pending_ge:
  assumes "merge_ok step its ((k, i) # heap)" and "x \<in># pending step its ((k, i) # heap)"
  shows "k \<le> x"
proof -
  from assms(2) obtain k' i' where ki: "(k', i') \<in> set ((k, i) # heap)"
    "x = k' \<or> x \<in> set (due_keys step (its ! i'))"
    by (force simp: pending_def)
  have "k \<le> k'"
    using assms(1) ki(1) by (fastforce simp: merge_ok_def less_eq_prod_def)
  moreover have "k' \<le> x"
    using assms(1) ki by (fastforce simp: merge_ok_def due_keys_def)
  ultimately show ?thesis by simp
qed

lemma advance_ok:
  assumes ok: "merge_ok step its ((k, i) # heap)"
    and adv: "advance step i its heap = (its', heap')"
  shows "merge_ok step its' heap' \<and>
     pending step its' heap' = mset (due_keys step (its ! i)) + pending step its heap"
proof (cases "its ! i")
  case Nil
  with adv ok show ?thesis
    by (auto simp: advance_def merge_ok_def due_keys_def)
next
  case (Cons n rest)
  have i: "i < length its" "i \<notin> snd ` set heap" and srt: "sorted (n # rest)"
    and hs: "sorted heap" "distinct (map snd heap)"
    "\<forall>(k, i) \<in> set heap. i < length its \<and> sorted (k # its ! i)"
    using ok Cons by (auto simp: merge_ok_def)
  have its': "its' = its[i := rest]"
    using adv Cons by (simp add: advance_def)
  have old: "\<forall>(k, j) \<in> set heap. j < length its' \<and> sorted (k # its' ! j)"
  proof safe
    fix k j
    assume kj: "(k, j) \<in> set heap"
    with i(2) have "j \<noteq> i" by force
    with hs(3) kj show "j < length its'" "sorted (k # its' ! j)"
      by (auto simp: its')
  qed
  show ?thesis
  proof (cases "is_due n step")
    case True
    then have h': "heap' = insort (n, i) heap"
      using adv Cons by (simp add: advance_def heap_push_def)
    have "distinct (map snd heap')"
    proof -
      have "mset (map snd heap') = mset (i # map snd heap)"
        by (simp add: h')
      moreover have "distinct (i # map snd heap)"
        using i(2) hs(2) by simp
      ultimately show ?thesis
        using mset_eq_imp_distinct_iff by blast
    qed
    moreover have "\<forall>(k, j) \<in> set heap'. j < length its' \<and> sorted (k # its' ! j)"
      using old i(1) srt by (auto simp: h' set_insort_key its')
    moreover have "sorted heap'"
      using hs(1) by (simp add: h' sorted_insort)
    ultimately have "merge_ok step its' heap'"
      by (simp add: merge_ok_def)
    moreover have "pending step its' heap' = mset (due_keys step (n # rest)) + pending step its heap"
      using True i by (simp add: h' pending_insort pending_Cons its' pending_update due_keys_def)
    ultimately show ?thesis
      using Cons by simp
  next
    case False
    then have h': "heap' = heap"
      using adv Cons by (simp add: advance_def)
    have "due_keys step (n # rest) = []"
      by (rule not_due_rest [OF srt False])
    with Cons old hs i show ?thesis
      by (simp add: h' merge_ok_def its' pending_update)
  qed
qed

lemma visit_loop_sorted:
  assumes "merge_ok step its heap"
  shows "visit_loop visit ts step gen its heap n s =
     visit_keys visit ts gen (sorted_list_of_multiset (pending step its heap)) n s"
  using assms
proof (induction visit ts step gen its heap n s rule: visit_loop.induct)
  case (1 visit ts step gen its n s)
  then show ?case by (simp add: visit_loop.simps pending_def)
next
  case (2 visit ts step gen its k i heap n s)
  let ?M = "mset (due_keys step (its ! i)) + pending step its heap"
  have "k \<le> x" if "x \<in># ?M" for x
    using pending_ge [OF "2.prems", of x] that by (simp add: pending_Cons)
  then have lst: "sorted_list_of_multiset (pending step its ((k, i) # heap)) =
      k # sorted_list_of_multiset ?M"
    by (simp add: pending_Cons insort_is_Cons)
  have i: "i < length its"
    using "2.prems" by (simp add: merge_ok_def)
  obtain its' heap' where adv: "advance step i its heap = (its', heap')"
    by (cases "advance step i its heap")
  note ok = advance_ok [OF "2.prems" adv]
  show ?case
  proof (cases "visit_turn visit ts gen k n s")
    case None
    then show ?thesis by (simp add: lst visit_loop.simps)
  next
    case (Some t)
    obtain s' c n' where t: "t = (s', c, n')" by (cases t)
    show ?thesis
    proof (cases c)
      case True
      have "visit_loop visit ts step gen its' heap' n' s' =
          visit_keys visit ts gen (sorted_list_of_multiset (pending step its' heap')) n' s'"
        using "2.IH" [OF Some t [symmetric] refl _ i adv [symmetric] conjunct1 [OF ok]] True by simp
      with Some t True i adv ok show ?thesis
        by (simp add: lst visit_loop.simps)
    next
      case False
      with Some t show ?thesis by (simp add: lst visit_loop.simps)
    qed
  qed
qed

section \<open>The merge starts right\<close>

definition starts :: "u64 \<Rightarrow> (nat \<times> ready_key list) list \<Rightarrow> (ready_key \<times> nat) list" where
  "starts step xs = map (\<lambda>(i, it). (hd it, i)) (filter (\<lambda>(i, it). it \<noteq> [] \<and> is_due (hd it) step) xs)"

lemma fold_push_first:
  "mset (fold (push_first step) xs h) = mset h + mset (starts step xs)"
  "sorted h \<Longrightarrow> sorted (fold (push_first step) xs h)"
  by (induction xs arbitrary: h)
    (auto simp: starts_def push_first_def heap_push_def sorted_insort split: list.splits)

lemma init_heap_mset: "mset (init_heap step its) = mset (starts step (enumerate 0 its))"
  by (simp add: init_heap_def fold_push_first)

lemma init_heap_mem:
  "(k, i) \<in> set (init_heap step its) \<longleftrightarrow>
     i < length its \<and> its ! i \<noteq> [] \<and> hd (its ! i) = k \<and> is_due k step"
proof -
  have "set (init_heap step its) = set (starts step (enumerate 0 its))"
    using init_heap_mset by (metis set_mset_mset)
  then show ?thesis
    by (force simp: starts_def in_set_enumerate_eq)
qed

lemma merge_ok_init:
  assumes "\<forall>it \<in> set its. sorted it"
  shows "merge_ok step (map tl its) (init_heap step its)"
proof -
  have "mset (map snd (init_heap step its)) = mset (map snd (starts step (enumerate 0 its)))"
    by (simp add: init_heap_mset)
  moreover have "distinct (map snd (starts step (enumerate 0 its)))"
  proof -
    have "map snd (starts step (enumerate 0 its)) =
        map fst (filter (\<lambda>(i, it). it \<noteq> [] \<and> is_due (hd it) step) (enumerate 0 its))"
      by (simp add: starts_def comp_def case_prod_beta)
    then show ?thesis
      by (simp add: distinct_map_filter)
  qed
  ultimately have "distinct (map snd (init_heap step its))"
    using mset_eq_imp_distinct_iff by blast
  moreover have "sorted (init_heap step its)"
    by (simp add: init_heap_def fold_push_first)
  moreover have "i < length its \<and> sorted (k # tl (its ! i))" if "(k, i) \<in> set (init_heap step its)"
    for k i
  proof -
    from that have "i < length its" "its ! i \<noteq> []" "hd (its ! i) = k"
      by (simp_all add: init_heap_mem)
    with assms show ?thesis by (metis list.collapse nth_mem)
  qed
  ultimately show ?thesis
    by (fastforce simp: merge_ok_def)
qed

lemma pending_init:
  assumes "\<forall>it \<in> set its. sorted it"
  shows "pending step (map tl its) (init_heap step its) = mset (concat (map (due_keys step) its))"
proof -
  let ?xs = "enumerate 0 its" and ?P = "\<lambda>(i, it). it \<noteq> [] \<and> is_due (hd it) step"
  have on: "add_mset (hd it) (mset (due_keys step (map tl its ! i))) = mset (due_keys step it)"
    if "(i, it) \<in> set ?xs" "it \<noteq> []" "is_due (hd it) step" for i it
  proof -
    from that(1) have "i < length its" "its ! i = it"
      by (auto simp: in_set_enumerate_eq)
    with that(2,3) show ?thesis
      by (cases it) (simp_all add: due_keys_def)
  qed
  have off: "mset (due_keys step it) = {#}"
    if "(i, it) \<in> set ?xs" "\<not> (it \<noteq> [] \<and> is_due (hd it) step)" for i it
  proof -
    from that(1) have "it \<in> set its"
      by (auto simp: in_set_enumerate_eq)
    with assms have "sorted it" by blast
    then show ?thesis
      using that(2) not_due_rest [of "hd it" "tl it" step] by (cases it) (simp_all add: due_keys_def)
  qed
  have "pending step (map tl its) (init_heap step its) =
      (\<Sum>x\<leftarrow>starts step ?xs. case x of (k, i) \<Rightarrow> add_mset k (mset (due_keys step (map tl its ! i))))"
    unfolding pending_def init_heap_mset by (simp add: sum_mset_sum_list flip: mset_map)
  also have "\<dots> = (\<Sum>x\<leftarrow>filter ?P ?xs. mset (due_keys step (snd x)))"
    unfolding starts_def map_map by (intro arg_cong [where f = sum_list] map_cong refl) (use on in auto)
  also have "\<dots> = (\<Sum>x\<leftarrow>?xs. mset (due_keys step (snd x)))"
  proof (rule sum_list_map_filter)
    show "mset (due_keys step (snd x)) = {#}" if "x \<in> set ?xs" "\<not> ?P x" for x
      using that off [of "fst x" "snd x"] by (simp add: case_prod_beta)
  qed
  also have "\<dots> = mset (concat (map (due_keys step) its))"
  proof -
    have "map (\<lambda>x. mset (due_keys step (snd x))) ?xs = map (\<lambda>it. mset (due_keys step it)) (map snd ?xs)"
      by (simp only: map_map comp_def)
    then show ?thesis
      by (simp add: mset_concat comp_def)
  qed
  finally show ?thesis .
qed

lemma visit_merge:
  assumes "\<forall>it \<in> set its. sorted it"
  shows "visit_loop visit ts step gen (map tl its) (init_heap step its) n s =
     visit_keys visit ts gen (sort (concat (map (due_keys step) its))) n s"
  using visit_loop_sorted [OF merge_ok_init [OF assms]] by (simp add: pending_init [OF assms])

section \<open>Selectors\<close>

definition cached :: "'v task_pool \<Rightarrow> string \<Rightarrow> 'v task_pool" where
  "cached p rid =
     (if fmlookup (ready_selector_cache p) rid = None \<and>
         fcard (fmdom (ready_selector_cache p)) < READY_SELECTOR_CACHE_CAPACITY
      then p\<lparr>ready_selector_cache :=
             fmupd rid (build_ready_selectors rid) (ready_selector_cache p)\<rparr>
      else p)"

lemma with_selectors_eq:
  assumes "cache_ok p"
  shows "with_ready_selectors p rid f = (f (build_ready_selectors rid), cached p rid)"
  using assms
  by (auto simp: with_ready_selectors_def cached_def cache_ok_def split: option.splits)

lemma cached_simps [simp]:
  "tasks (cached p rid) = tasks p" "indexes (cached p rid) = indexes p"
  "statistics (cached p rid) = statistics p"
  "payload_wire_bytes_map (cached p rid) = payload_wire_bytes_map p"
  "history_retention (cached p rid) = history_retention p"
  by (simp_all add: cached_def)

lemma cache_ok_cached: "cache_ok p \<Longrightarrow> cache_ok (cached p rid)"
proof -
  assume ok: "cache_ok p"
  have "fcard (finsert rid (fmdom (ready_selector_cache p))) \<le> Suc (fcard (fmdom (ready_selector_cache p)))"
    by (simp add: fcard_finsert_if)
  with ok show ?thesis
    by (auto simp: cached_def cache_ok_def)
qed

lemma pool_inv_cached:
  assumes "pool_inv p"
  shows "pool_inv (cached p rid)"
proof -
  have "cache_ok (cached p rid)"
    using assms by (simp add: cache_ok_cached pool_inv_def core_inv_def)
  moreover have "evicted_ok (cached p rid) = evicted_ok p" "hist_inv {} (cached p rid) = hist_inv {} p"
    "wait_inv {} (cached p rid) = wait_inv {} p"
    by (simp_all add: cached_def evicted_ok_def hist_inv_def wait_inv_def)
  ultimately show ?thesis
    using assms by (simp add: pool_inv_def core_inv_def)
qed

lemma pool_inv_cache_ok: "pool_inv p \<Longrightarrow> cache_ok p"
  by (simp add: pool_inv_def core_inv_def)

section \<open>The claimable records\<close>

definition eligible :: "'v runner_descriptor \<Rightarrow> 'v task_record \<Rightarrow> bool" where
  "eligible runner r \<longleftrightarrow>
     status r = Ready \<and> protocol_id (rec_task r) \<in> set (accepted_protocol_ids runner) \<and>
     (runner_hint (rec_task r) = None \<or> runner_hint (rec_task r) = Some (runner_id runner)) \<and>
     (owner_runner r = None \<or> owner_runner r = Some (runner_id runner))"

definition claimable :: "'v runner_descriptor \<Rightarrow> u64 \<Rightarrow> u64 \<Rightarrow> 'v task_record \<Rightarrow> bool" where
  "claimable runner step gen r \<longleftrightarrow>
     eligible runner r \<and> unwrap_or (ready_at_step (rec_task r)) 0 \<le> step \<and>
     (gen = 0 \<or> registry_generation (rec_task r) = 0 \<or> registry_generation (rec_task r) = gen)"

definition claim_order ::
  "'v task_pool \<Rightarrow> 'v runner_descriptor \<Rightarrow> u64 \<Rightarrow> u64 \<Rightarrow> 'v task_record list" where
  "claim_order p runner step gen =
     sort_key record_ready_key (filter (claimable runner step gen) (fm_values (tasks p)))"

lemma selector_eligible:
  "record_selector r \<in> set (build_ready_selectors rid) \<longleftrightarrow>
     (runner_hint (rec_task r) = None \<or> runner_hint (rec_task r) = Some rid) \<and>
     (owner_runner r = None \<or> owner_runner r = Some rid)"
  by (auto simp: record_selector_def build_ready_selectors_def)

definition queue_at :: "ready_queues \<Rightarrow> string \<times> ready_selector \<Rightarrow> ready_key list" where
  "queue_at ix e = sorted_list_of_fset (fm_get_or {||} (fm_get_or fmempty ix (fst e)) (snd e))"

lemma map_filter_get:
  "concat (map g (List.map_filter (fmlookup m) xs)) = concat (map (\<lambda>x. g (fm_get_or d m x)) xs)"
  if "g d = []"
  using that by (induction xs) (auto simp: List.map_filter_simps fm_get_or_def split: option.splits)

lemma concat_queues:
  "concat (map sorted_list_of_fset (queues_of_selectors ix prots sels)) =
     concat (map (queue_at ix) (List.product prots sels))"
proof (induction prots)
  case (Cons prot prots)
  have "concat (map sorted_list_of_fset (case fmlookup ix prot of
        None \<Rightarrow> [] | Some by_selector \<Rightarrow> List.map_filter (fmlookup by_selector) sels)) =
      concat (map (\<lambda>sel. queue_at ix (prot, sel)) sels)"
  proof (cases "fmlookup ix prot")
    case None
    then show ?thesis by (simp add: queue_at_def fm_get_or_def sorted_list_of_fset.rep_eq)
  next
    case (Some m)
    then show ?thesis
      by (simp add: map_filter_get [of sorted_list_of_fset "{||}"] queue_at_def
          fm_get_or_def [of fmempty] sorted_list_of_fset.rep_eq)
  qed
  with Cons show ?case
    by (simp add: queues_of_selectors_def comp_def)
qed (simp add: queues_of_selectors_def)

lemma mem_queue_at:
  assumes "pool_inv p"
  shows "key \<in> set (queue_at (ready_by_protocol (indexes p)) (prot, sel)) \<longleftrightarrow>
     (\<exists>k r. tab p k = Some r \<and> status r = Ready \<and> protocol_id (rec_task r) = prot \<and>
        record_selector r = sel \<and> record_ready_key r = key)"
proof -
  have tr: "rq.tracks ready_entry (ready_by_protocol (indexes p)) (tab p)"
    using assms by (simp add: pool_inv_def core_inv_def ix_ok_def)
  have "key \<in> set (queue_at (ready_by_protocol (indexes p)) (prot, sel)) \<longleftrightarrow>
      ready_mem (ready_by_protocol (indexes p)) (prot, sel, key)"
    by (simp add: queue_at_def ready_mem_def bucket_mem_def)
  also have "\<dots> \<longleftrightarrow> (\<exists>k r. tab p k = Some r \<and> ready_entry r = Some (prot, sel, key))"
    by (rule rq.tracks_mem [OF tr])
  finally show ?thesis
    by (auto simp: ready_entry_def)
qed

end
