(* ===== verification/Pool_Claim.thy ===== *)
theory Pool_Claim
  imports Claim_Order
begin

text \<open>
  Claiming against its reference: \<open>visit_candidate_records\<close> offers exactly the claimable records
  of the pool in the order of their ready keys, \<open>queued_count\<close> counts them, the budget picks a
  bounded subsequence of them, and the claim loop leases each pick without a panic.
\<close>

section \<open>The visit is a walk over the sorted claimable records\<close>

fun visit_records ::
  "('v task_record \<Rightarrow> 's \<Rightarrow> ('s \<times> bool) option) \<Rightarrow> 'v task_record list \<Rightarrow> nat \<Rightarrow> 's
     \<Rightarrow> ('s \<times> nat) option" where
  "visit_records visit [] n s = Some (s, n)"
| "visit_records visit (r # rs) n s =
     (case visit r s of
        None \<Rightarrow> None
      | Some (s', continue) \<Rightarrow>
          if continue then visit_records visit rs (n + 1) s' else Some (s', n + 1))"

lemma visit_keys_records:
  assumes "\<forall>r \<in> set rs. fmlookup ts (task_id (rec_task r)) = Some r"
  shows "visit_keys visit ts gen (map record_ready_key rs) n s =
     visit_records visit (filter (\<lambda>r. runner_accepts_indexed_task (rec_task r) gen) rs) n s"
  using assms
  by (induction rs arbitrary: n s)
    (auto simp: visit_turn_def record_ready_key_def split: option.splits)

lemma is_due_record: "is_due (record_ready_key r) step \<longleftrightarrow> unwrap_or (ready_at_step (rec_task r)) 0 \<le> step"
  by (simp add: is_due_def record_ready_key_def)

lemma claimable_split:
  "claimable runner step gen r \<longleftrightarrow>
     (eligible runner r \<and> is_due (record_ready_key r) step) \<and>
     runner_accepts_indexed_task (rec_task r) gen"
  by (auto simp: claimable_def is_due_record runner_accepts_indexed_task_def)

lemma concat_due: "concat (map (due_keys step) its) = due_keys step (concat its)"
  by (induction its) (simp_all add: due_keys_def)

lemma pool_inv_lookup:
  assumes "pool_inv p" and "r \<in> set (fm_values (tasks p))"
  shows "tab p (task_id (rec_task r)) = Some r"
  using assms pool_inv_keyed [OF assms(1)] by (auto simp: set_fm_values)

lemma distinct_ids_values:
  assumes "pool_inv p"
  shows "distinct (map (\<lambda>r. task_id (rec_task r)) (fm_values (tasks p)))"
proof -
  have "map (\<lambda>r. task_id (rec_task r)) (fm_values (tasks p)) = map (\<lambda>k. k) (fm_keys (tasks p))"
    unfolding fm_values_keys map_map
    by (intro map_cong refl) (use pool_inv_keyed [OF assms] in \<open>auto simp: fmdom'_lookup\<close>)
  then show ?thesis by simp
qed

lemma record_ready_key_id: "key_task_id (record_ready_key r) = task_id (rec_task r)"
  by (simp add: record_ready_key_def)

lemma distinct_ready_keys:
  assumes "pool_inv p"
  shows "distinct (map record_ready_key (filter P (fm_values (tasks p))))"
proof -
  have "map key_task_id (map record_ready_key (fm_values (tasks p))) =
      map (\<lambda>r. task_id (rec_task r)) (fm_values (tasks p))"
    by (simp add: record_ready_key_id)
  then have "distinct (map record_ready_key (fm_values (tasks p)))"
    using distinct_ids_values [OF assms] by (metis distinct_map)
  then show ?thesis
    by (rule distinct_map_filter)
qed

lemma mset_queue_keys:
  assumes inv: "pool_inv p" and d: "distinct (accepted_protocol_ids runner)"
  shows "mset (concat (map (queue_at (ready_by_protocol (indexes p)))
       (List.product (accepted_protocol_ids runner) (build_ready_selectors (runner_id runner))))) =
     mset (map record_ready_key (filter (eligible runner) (fm_values (tasks p))))"
    (is "mset ?K = mset ?R")
proof -
  note mem = mem_queue_at [OF inv]
  have "distinct ?K"
  proof (rule distinct_concat_map)
    show "distinct (List.product (accepted_protocol_ids runner) (build_ready_selectors (runner_id runner)))"
      using d by (intro distinct_product) (simp_all add: build_ready_selectors_def)
    show "distinct (queue_at (ready_by_protocol (indexes p)) e)" for e
      by (simp add: queue_at_def sorted_list_of_fset.rep_eq)
    fix e e' key
    assume "key \<in> set (queue_at (ready_by_protocol (indexes p)) e)"
      and "key \<in> set (queue_at (ready_by_protocol (indexes p)) e')"
    then obtain k r k' r' where r: "tab p k = Some r" "record_ready_key r = key"
        "e = (protocol_id (rec_task r), record_selector r)"
      and r': "tab p k' = Some r'" "record_ready_key r' = key"
        "e' = (protocol_id (rec_task r'), record_selector r')"
      using mem [of key "fst e" "snd e"] mem [of key "fst e'" "snd e'"] by (metis prod.collapse)
    from r(1,2) r'(1,2) have "k = k'"
      using pool_inv_keyed [OF inv] record_ready_key_id by metis
    with r r' show "e = e'" by simp
  qed
  moreover have "set ?K = set ?R"
  proof (rule set_eqI)
    fix key
    have "key \<in> set ?K \<longleftrightarrow> (\<exists>prot \<in> set (accepted_protocol_ids runner).
        \<exists>sel \<in> set (build_ready_selectors (runner_id runner)).
          key \<in> set (queue_at (ready_by_protocol (indexes p)) (prot, sel)))"
      by force
    also have "\<dots> \<longleftrightarrow> (\<exists>k r. tab p k = Some r \<and> eligible runner r \<and> record_ready_key r = key)"
      unfolding mem eligible_def
      using selector_eligible [of _ "runner_id runner"] by blast
    also have "\<dots> \<longleftrightarrow> key \<in> set ?R"
      by (auto simp: set_fm_values)
    finally show "key \<in> set ?K \<longleftrightarrow> key \<in> set ?R" .
  qed
  ultimately show ?thesis
    using set_eq_iff_mset_eq_distinct distinct_ready_keys [OF inv] by blast
qed

lemma visit_candidate_records_eq:
  assumes inv: "pool_inv p" and d: "distinct (accepted_protocol_ids runner)"
  shows "visit_candidate_records p runner step gen visit s =
     map_option (\<lambda>(s', n). (s', n, cached p (runner_id runner)))
       (visit_records visit (claim_order p runner step gen) 0 s)"
proof -
  let ?qs = "queues_of_selectors (ready_by_protocol (indexes p)) (accepted_protocol_ids runner)
      (build_ready_selectors (runner_id runner))"
  let ?its = "map sorted_list_of_fset ?qs"
  let ?P = "\<lambda>r. eligible runner r \<and> is_due (record_ready_key r) step"
  let ?rs = "sort_key record_ready_key (filter ?P (fm_values (tasks p)))"
  have "mset (concat (map (due_keys step) ?its)) =
      mset (due_keys step (map record_ready_key (filter (eligible runner) (fm_values (tasks p)))))"
    unfolding concat_due concat_queues due_keys_def mset_filter mset_queue_keys [OF inv d] ..
  also have "\<dots> = mset (map record_ready_key (filter ?P (fm_values (tasks p))))"
    by (simp add: due_keys_def filter_map comp_def conj_commute)
  finally have keys: "sort (concat (map (due_keys step) ?its)) = map record_ready_key ?rs"
    by (intro properties_for_sort) simp_all
  have sorted: "\<forall>it \<in> set ?its. sorted it"
    by (auto simp: sorted_list_of_fset.rep_eq)
  have stored: "\<forall>r \<in> set ?rs. tab p (task_id (rec_task r)) = Some r"
    using pool_inv_lookup [OF inv] by simp
  have accepted: "filter (\<lambda>r. runner_accepts_indexed_task (rec_task r) gen) ?rs =
      claim_order p runner step gen"
    by (simp add: claim_order_def filter_sort claimable_split conj_commute cong: filter_cong)
  have "visit_loop visit (tasks p) step gen (map tl ?its) (init_heap step ?its) 0 s =
      visit_records visit (claim_order p runner step gen) 0 s"
    by (simp only: visit_merge [OF sorted] keys visit_keys_records [OF stored] accepted)
  then show ?thesis
    by (simp add: visit_candidate_records_def ready_dispatch_queues_def
        with_selectors_eq [OF pool_inv_cache_ok [OF inv]] del: map_map)
qed

section \<open>The queue count\<close>

lemma filter_get_or:
  "sum_list (map g (List.map_filter (fmlookup m) xs)) = sum_list (map (\<lambda>x. g (fm_get_or d m x)) xs)"
  if "g d = (0 :: nat)"
  using that by (induction xs) (auto simp: List.map_filter_simps fm_get_or_def split: option.splits)

lemma sum_list_map_concat:
  "sum_list (map g (concat (map f xs))) = sum_list (map (\<lambda>x. sum_list (map g (f x))) xs)"
  for g :: "'a \<Rightarrow> nat"
  by (induction xs) simp_all

definition bucket_admits :: "u64 \<Rightarrow> u64 \<Rightarrow> u64 \<times> u64 \<Rightarrow> bool" where
  "bucket_admits step gen b \<longleftrightarrow> fst b \<le> step \<and> (gen = 0 \<or> snd b = 0 \<or> snd b = gen)"

definition bucket_total :: "u64 \<Rightarrow> u64 \<Rightarrow> (u64 \<times> u64, nat) fmap \<Rightarrow> nat" where
  "bucket_total step gen by_bucket =
     sum_list (map (fm_get_or 0 by_bucket) (filter (bucket_admits step gen) (fm_keys by_bucket)))"

definition class_ids :: "'v task_pool \<Rightarrow> u64 \<Rightarrow> u64 \<Rightarrow> string \<times> ready_selector \<Rightarrow> string set" where
  "class_ids p step gen e = {k. \<exists>r. tab p k = Some r \<and> status r = Ready \<and>
     (protocol_id (rec_task r), record_selector r) = e \<and>
     bucket_admits step gen (unwrap_or (ready_at_step (rec_task r)) 0, registry_generation (rec_task r))}"

lemma bucket_total_class:
  assumes inv: "pool_inv p"
  shows "bucket_total step gen
     (fm_get_or fmempty (fm_get_or fmempty (ready_counts_by_protocol (indexes p)) prot) sel) =
     card (class_ids p step gen (prot, sel))"
proof -
  let ?m = "fm_get_or fmempty (fm_get_or fmempty (ready_counts_by_protocol (indexes p)) prot) sel"
  let ?ids = "\<lambda>b. rc.keys_of count_class (tab p) (prot, sel, b)"
  let ?B = "{b \<in> fmdom' ?m. bucket_admits step gen b}"
  have "rc.counts count_class (ready_counts_by_protocol (indexes p)) (tab p)"
    using inv by (simp add: pool_inv_def core_inv_def ix_ok_def)
  then have get: "fm_get_or 0 ?m b = card (?ids b)" for b
    using rc.counts_cnt [of count_class _ _ "(prot, sel, b)"] by (simp add: count_of_def)
  have fin: "finite (?ids b)" for b
    by (rule finite_subset [of _ "dom (tab p)"]) (auto simp: rc.keys_of_def fmdom'_lookup)
  have in_dom: "b \<in> fmdom' ?m" if "k \<in> ?ids b" for k b
  proof -
    from that fin [of b] have "card (?ids b) \<noteq> 0" by auto
    then show ?thesis
      using get [of b] by (auto simp: fm_get_or_def fmdom'_lookup split: option.splits)
  qed
  have "bucket_total step gen ?m = (\<Sum>b \<in> ?B. card (?ids b))"
    unfolding bucket_total_def get
    by (subst sum_list_distinct_conv_sum_set) simp_all
  also have "\<dots> = card (\<Union>b \<in> ?B. ?ids b)"
  proof (subst card_UN_disjoint)
    show "\<forall>b \<in> ?B. \<forall>b' \<in> ?B. b \<noteq> b' \<longrightarrow> ?ids b \<inter> ?ids b' = {}"
      by (auto simp: rc.keys_of_def)
    show "finite ?B" by simp
  qed (simp_all add: fin)
  also have "(\<Union>b \<in> ?B. ?ids b) = class_ids p step gen (prot, sel)"
  proof (rule set_eqI)
    fix k
    have "k \<in> (\<Union>b \<in> ?B. ?ids b) \<longleftrightarrow> (\<exists>b. bucket_admits step gen b \<and> k \<in> ?ids b)"
      using in_dom by blast
    also have "\<dots> \<longleftrightarrow> k \<in> class_ids p step gen (prot, sel)"
      by (cases "tab p k")
        (auto simp: class_ids_def rc.keys_of_def count_class_def simp del: fmlookup_dom'_iff)
    finally show "k \<in> (\<Union>b \<in> ?B. ?ids b) \<longleftrightarrow> k \<in> class_ids p step gen (prot, sel)" .
  qed
  finally show ?thesis .
qed

lemma counts_of_selectors_total:
  "counts_of_selectors ix prots step gen sels =
     sum_list (map (\<lambda>(prot, sel). bucket_total step gen (fm_get_or fmempty (fm_get_or fmempty ix prot) sel))
       (List.product prots sels))"
proof -
  have zero: "bucket_total step gen fmempty = 0"
    by (simp add: bucket_total_def fm_keys_def sorted_list_of_fset.rep_eq)
  have "counts_of_selectors ix prots step gen sels = sum_list (map (bucket_total step gen)
      (concat (map (\<lambda>m. List.map_filter (fmlookup m) sels) (List.map_filter (fmlookup ix) prots))))"
    by (simp add: counts_of_selectors_def bucket_total_def [abs_def] bucket_admits_def [abs_def]
        case_prod_beta')
  also have "\<dots> = sum_list (map (\<lambda>m. sum_list (map (bucket_total step gen)
      (List.map_filter (fmlookup m) sels))) (List.map_filter (fmlookup ix) prots))"
    by (rule sum_list_map_concat)
  also have "\<dots> = sum_list (map (\<lambda>prot. sum_list (map (\<lambda>sel. bucket_total step gen
      (fm_get_or fmempty (fm_get_or fmempty ix prot) sel)) sels)) prots)"
    by (simp add: filter_get_or [where d = fmempty] zero fm_get_or_def)
  also have "\<dots> = sum_list (map (\<lambda>(prot, sel). bucket_total step gen
      (fm_get_or fmempty (fm_get_or fmempty ix prot) sel)) (List.product prots sels))"
    by (induction prots) (simp_all add: comp_def)
  finally show ?thesis .
qed

definition claimable_ids ::
  "'v task_pool \<Rightarrow> 'v runner_descriptor \<Rightarrow> u64 \<Rightarrow> u64 \<Rightarrow> string set" where
  "claimable_ids p runner step gen = {k. \<exists>r. tab p k = Some r \<and> claimable runner step gen r}"

lemma queued_count_eq:
  assumes inv: "pool_inv p" and d: "distinct (accepted_protocol_ids runner)"
  shows "queued_count p runner step gen =
     (card (claimable_ids p runner step gen), cached p (runner_id runner))"
proof -
  let ?es = "List.product (accepted_protocol_ids runner) (build_ready_selectors (runner_id runner))"
  have "counts_of_selectors (ready_counts_by_protocol (indexes p)) (accepted_protocol_ids runner)
      step gen (build_ready_selectors (runner_id runner)) =
      sum_list (map (\<lambda>e. card (class_ids p step gen e)) ?es)"
    by (simp add: counts_of_selectors_total bucket_total_class [OF inv] case_prod_beta')
  also have "\<dots> = (\<Sum>e \<in> set ?es. card (class_ids p step gen e))"
    by (rule sum_list_distinct_conv_sum_set, rule distinct_product)
      (simp_all add: d build_ready_selectors_def)
  also have "\<dots> = card (\<Union>e \<in> set ?es. class_ids p step gen e)"
  proof (subst card_UN_disjoint)
    have "finite (class_ids p step gen e)" for e
      by (rule finite_subset [of _ "dom (tab p)"]) (auto simp: class_ids_def fmdom'_lookup)
    then show "\<forall>e \<in> set ?es. finite (class_ids p step gen e)" by simp
  qed (auto simp: class_ids_def)
  also have "(\<Union>e \<in> set ?es. class_ids p step gen e) = claimable_ids p runner step gen"
    unfolding claimable_ids_def class_ids_def claimable_def eligible_def bucket_admits_def
    using selector_eligible [of _ "runner_id runner"] by auto
  finally show ?thesis
    by (simp add: queued_count_def ready_dispatch_count_def
        with_selectors_eq [OF pool_inv_cache_ok [OF inv]])
qed

section \<open>The picks of a budget\<close>

text \<open>
  The reference for \<open>select_candidate_ids\<close>: walk the claimable records in order and take each
  one that still fits next to those taken so far, until the limit is reached.
\<close>

abbreviation rec_id :: "'v task_record \<Rightarrow> string" where
  "rec_id r \<equiv> task_id (rec_task r)"

definition picked_bytes :: "'v task_pool \<Rightarrow> 'v task_record list \<Rightarrow> nat" where
  "picked_bytes p rs =
     min (sum_list (map (\<lambda>r. fm_get_or 0 (payload_wire_bytes_map p) (rec_id r)) rs)) usize_max"

definition picked_in_lane :: "dispatch_lane \<Rightarrow> 'v task_record list \<Rightarrow> nat" where
  "picked_in_lane lane rs = length (filter (\<lambda>r. task_dispatch_lane (rec_task r) = lane) rs)"

definition fits ::
  "'v task_pool \<Rightarrow> dispatch_budget option \<Rightarrow> 'v task_record list \<Rightarrow> 'v task_record \<Rightarrow> bool" where
  "fits p budget taken r =
     (case budget of
        None \<Rightarrow> True
      | Some b \<Rightarrow>
          picked_bytes p (taken @ [r]) \<le> max_bytes b \<and>
          (\<forall>lb. fmlookup (lane_budgets b) (task_dispatch_lane (rec_task r)) = Some lb \<longrightarrow>
             picked_in_lane (task_dispatch_lane (rec_task r)) taken < lane_max_entries lb))"

fun picks ::
  "'v task_pool \<Rightarrow> dispatch_budget option \<Rightarrow> nat \<Rightarrow> 'v task_record list \<Rightarrow> 'v task_record list
     \<Rightarrow> 'v task_record list" where
  "picks p budget limit taken [] = taken"
| "picks p budget limit taken (r # rs) =
     (if limit \<le> length taken then taken
      else picks p budget limit (if fits p budget taken r then taken @ [r] else taken) rs)"

definition sel_ok ::
  "'v task_pool \<Rightarrow> dispatch_budget option \<Rightarrow> 'v task_record list \<Rightarrow> selection \<Rightarrow> bool" where
  "sel_ok p budget taken sel \<longleftrightarrow>
     selected sel = map rec_id taken \<and>
     (budget \<noteq> None \<longrightarrow> selected_bytes sel = picked_bytes p taken) \<and>
     (\<forall>lane. fm_get_or 0 (lane_counts sel) lane = picked_in_lane lane taken)"

lemma picks_full: "limit \<le> length taken \<Longrightarrow> picks p budget limit taken rs = taken"
  by (cases rs) simp_all

lemma picked_bytes_snoc:
  "usize_sat_add (picked_bytes p taken) (fm_get_or 0 (payload_wire_bytes_map p) (rec_id r)) =
     picked_bytes p (taken @ [r])"
  by (simp add: picked_bytes_def usize_sat_add_def)

lemma admits_fits:
  assumes "sel_ok p budget taken sel" and "budget \<noteq> None \<longrightarrow> w = fm_get_or 0 (payload_wire_bytes_map p) (rec_id r)"
  shows "budget_admits budget r w sel = fits p budget taken r"
  using assms
  by (auto simp: sel_ok_def budget_admits_def fits_def picked_bytes_snoc not_less not_le
      split: option.splits)

lemma sel_ok_take:
  assumes "sel_ok p budget taken sel" and "budget \<noteq> None \<longrightarrow> w = fm_get_or 0 (payload_wire_bytes_map p) (rec_id r)"
  shows "sel_ok p budget (taken @ [r]) (take_candidate r w sel)"
proof -
  from assms show ?thesis
    by (auto simp: sel_ok_def take_candidate_def Let_def picked_bytes_snoc picked_in_lane_def)
qed

lemma visit_select:
  assumes "\<forall>r \<in> set rs. rec_id r |\<in>| fmdom (payload_wire_bytes_map p)" and "sel_ok p budget taken sel"
  shows "\<exists>sel' n'. visit_records (select_visitor p budget limit) rs n sel = Some (sel', n') \<and>
     sel_ok p budget (picks p budget limit taken rs) sel'"
  using assms
proof (induction rs arbitrary: taken sel n)
  case (Cons r rs)
  show ?case
  proof (cases "limit \<le> length taken")
    case True
    with Cons.prems(2) show ?thesis
      by (simp add: select_visitor_def sel_ok_def)
  next
    case False
    let ?b = "fm_get_or 0 (payload_wire_bytes_map p) (rec_id r)"
    have len: "length (selected sel) = length taken"
      using Cons.prems(2) by (simp add: sel_ok_def)
    obtain w where w: "(case budget of None \<Rightarrow> Some 0 | Some _ \<Rightarrow> pool_payload_wire_bytes p (rec_id r)) = Some w"
      "budget \<noteq> None \<longrightarrow> w = ?b"
      using Cons.prems(1)
      by (cases budget) (auto simp: pool_payload_wire_bytes_def fm_get_or_def fmlookup_dom_iff)
    note adm = admits_fits [OF Cons.prems(2) w(2)] and tk = sel_ok_take [OF Cons.prems(2) w(2)]
    have lenk: "length (selected (take_candidate r w sel)) = Suc (length taken)"
      using tk by (simp add: sel_ok_def)
    show ?thesis
    proof (cases "fits p budget taken r")
      case True
      show ?thesis
      proof (cases "Suc (length taken) < limit")
        case go: True
        then show ?thesis
          using False True w(1) adm len lenk Cons.IH [OF _ tk] Cons.prems(1)
          by (simp add: select_visitor_def Let_def)
      next
        case stop: False
        then show ?thesis
          using False True w(1) adm len lenk tk by (simp add: select_visitor_def Let_def picks_full)
      qed
    next
      case nofit: False
      then show ?thesis
        using False w(1) adm len Cons.IH [OF _ Cons.prems(2)] Cons.prems(1)
        by (simp add: select_visitor_def)
    qed
  qed
qed simp

definition budget_exhausted :: "dispatch_budget option \<Rightarrow> bool" where
  "budget_exhausted budget \<longleftrightarrow>
     (\<exists>b. budget = Some b \<and> (max_batches b = 0 \<or> max_entries b = 0 \<or> max_bytes b = 0))"

definition entry_limit :: "nat \<Rightarrow> dispatch_budget option \<Rightarrow> nat" where
  "entry_limit limit budget = (case budget of None \<Rightarrow> limit | Some b \<Rightarrow> min limit (max_entries b))"

definition chosen ::
  "'v task_pool \<Rightarrow> 'v runner_descriptor \<Rightarrow> u64 \<Rightarrow> u64 \<Rightarrow> nat \<Rightarrow> dispatch_budget option
     \<Rightarrow> 'v task_record list" where
  "chosen p runner step gen limit budget =
     (if budget_exhausted budget then []
      else picks p budget (entry_limit limit budget) [] (claim_order p runner step gen))"

lemma claim_order_mem:
  assumes "pool_inv p" and "r \<in> set (claim_order p runner step gen)"
  shows "tab p (rec_id r) = Some r" and "claimable runner step gen r"
  using assms pool_inv_lookup [OF assms(1), of r] by (simp_all add: claim_order_def)

lemma select_candidate_ids_eq:
  assumes inv: "pool_inv p" and d: "distinct (accepted_protocol_ids runner)"
  shows "\<exists>q. select_candidate_ids p runner step gen limit budget =
     Some (map rec_id (chosen p runner step gen limit budget), q) \<and>
     (q = p \<or> q = cached p (runner_id runner))"
proof (cases "limit = 0 \<or> budget_exhausted budget")
  case True
  then have "chosen p runner step gen limit budget = []"
    by (cases budget) (auto simp: chosen_def entry_limit_def picks_full)
  with True show ?thesis
    by (cases budget) (simp_all add: select_candidate_ids_def budget_exhausted_def)
next
  case False
  let ?rs = "claim_order p runner step gen"
  have "fmdom (payload_wire_bytes_map p) = fmdom (tasks p)"
    using inv by (simp add: pool_inv_def core_inv_def)
  then have "\<forall>r \<in> set ?rs. rec_id r |\<in>| fmdom (payload_wire_bytes_map p)"
    using claim_order_mem(1) [OF inv] by (auto intro: fmdomI)
  moreover have "sel_ok p budget [] selection_empty"
    by (simp add: sel_ok_def selection_empty_def picked_bytes_def picked_in_lane_def fm_get_or_def)
  ultimately obtain sel n where
    "visit_records (select_visitor p budget (entry_limit limit budget)) ?rs 0 selection_empty = Some (sel, n)"
    "sel_ok p budget (picks p budget (entry_limit limit budget) [] ?rs) sel"
    using visit_select by blast
  moreover have "select_candidate_ids p runner step gen limit budget =
      map_option (\<lambda>(sel, visited, p1). (selected sel, p1))
        (visit_candidate_records p runner step gen
          (select_visitor p budget (entry_limit limit budget)) selection_empty)"
    using False by (cases budget) (simp_all add: select_candidate_ids_def budget_exhausted_def entry_limit_def)
  ultimately show ?thesis
    using False by (simp add: visit_candidate_records_eq [OF inv d] chosen_def sel_ok_def)
qed

section \<open>Bounds of the picks\<close>

lemma subset_picks: "set (picks p budget limit taken rs) \<subseteq> set taken \<union> set rs"
  by (induction p budget limit taken rs rule: picks.induct) auto

lemma distinct_picks:
  "distinct (map rec_id (taken @ rs)) \<Longrightarrow> distinct (map rec_id (picks p budget limit taken rs))"
  by (induction p budget limit taken rs rule: picks.induct) (auto split: if_splits)

lemma length_picks:
  "length taken \<le> limit \<Longrightarrow> length (picks p budget limit taken rs) \<le> limit"
  by (induction p budget limit taken rs rule: picks.induct) auto

lemma picks_within:
  assumes "picked_bytes p taken \<le> max_bytes b"
    and "\<And>lane lb. fmlookup (lane_budgets b) lane = Some lb \<Longrightarrow>
      picked_in_lane lane taken \<le> lane_max_entries lb"
  shows "picked_bytes p (picks p (Some b) limit taken rs) \<le> max_bytes b \<and>
     (\<forall>lane lb. fmlookup (lane_budgets b) lane = Some lb \<longrightarrow>
        picked_in_lane lane (picks p (Some b) limit taken rs) \<le> lane_max_entries lb)"
  using assms
proof (induction rs arbitrary: taken)
  case (Cons r rs)
  show ?case
  proof (cases "limit \<le> length taken \<or> \<not> fits p (Some b) taken r")
    case True
    with Cons show ?thesis by auto
  next
    case False
    then have "picked_bytes p (taken @ [r]) \<le> max_bytes b"
      by (simp add: fits_def)
    moreover have "picked_in_lane lane (taken @ [r]) \<le> lane_max_entries lb"
      if "fmlookup (lane_budgets b) lane = Some lb" for lane lb
      using False that Cons.prems(2) [OF that]
      by (auto simp: fits_def picked_in_lane_def Suc_le_eq)
    ultimately show ?thesis
      using False Cons.IH [of "taken @ [r]"] by simp
  qed
qed simp

lemma picks_unbounded:
  "length taken \<le> limit \<Longrightarrow> picks p None limit taken rs = taken @ take (limit - length taken) rs"
proof (induction rs arbitrary: taken)
  case (Cons r rs)
  show ?case
  proof (cases "limit \<le> length taken")
    case False
    then have "limit - length taken = Suc (limit - Suc (length taken))" by simp
    with False Cons.IH [of "taken @ [r]"] show ?thesis
      by (simp add: fits_def)
  qed simp
qed simp

lemma distinct_chosen:
  assumes "pool_inv p"
  shows "distinct (map rec_id (chosen p runner step gen limit budget))"
proof -
  have "distinct (map rec_id (filter (claimable runner step gen) (fm_values (tasks p))))"
    by (rule distinct_map_filter) (rule distinct_ids_values [OF assms])
  moreover have "mset (map rec_id (claim_order p runner step gen)) =
      mset (map rec_id (filter (claimable runner step gen) (fm_values (tasks p))))"
    by (simp add: claim_order_def)
  ultimately have "distinct (map rec_id (claim_order p runner step gen))"
    using mset_eq_imp_distinct_iff by blast
  then show ?thesis
    using distinct_picks [of "[]" "claim_order p runner step gen"] by (simp add: chosen_def)
qed

lemma chosen_mem:
  assumes "pool_inv p" and "r \<in> set (chosen p runner step gen limit budget)"
  shows "tab p (rec_id r) = Some r" and "claimable runner step gen r"
proof -
  have "r \<in> set (claim_order p runner step gen)"
    using assms(2) subset_picks [of p budget _ "[]" "claim_order p runner step gen"]
    by (auto simp: chosen_def split: if_splits)
  then show "tab p (rec_id r) = Some r" and "claimable runner step gen r"
    using claim_order_mem [OF assms(1)] by blast+
qed

section \<open>Leasing\<close>

definition leased_rec ::
  "'v runner_descriptor \<Rightarrow> string \<Rightarrow> u64 \<Rightarrow> u64 \<Rightarrow> u64 option \<Rightarrow> 'v task_record \<Rightarrow> 'v task_record" where
  "leased_rec runner ex step gen expires r = snd (lease_record runner ex step gen expires r)"

definition lease_of ::
  "'v runner_descriptor \<Rightarrow> string \<Rightarrow> u64 \<Rightarrow> u64 \<Rightarrow> u64 option \<Rightarrow> 'v task_record \<Rightarrow> task_lease" where
  "lease_of runner ex step gen expires r = fst (lease_record runner ex step gen expires r)"

lemma leased_rec_simps [simp]:
  "status (leased_rec runner ex step gen expires r) = Running"
  "rec_id (leased_rec runner ex step gen expires r) = rec_id r"
  "lease (leased_rec runner ex step gen expires r) = Some (lease_of runner ex step gen expires r)"
  "attempt_generation (leased_rec runner ex step gen expires r) = sat_add (attempt_generation r) 1"
  "lease_task_id (lease_of runner ex step gen expires r) = rec_id r"
  "lease_attempt_generation (lease_of runner ex step gen expires r) = sat_add (attempt_generation r) 1"
  "expires_at_step (lease_of runner ex step gen expires r) = expires"
  by (simp_all add: leased_rec_def lease_of_def lease_record_def new_lease_def Let_def)

lemma record_ok_leased: "record_ok (leased_rec runner ex step gen expires r)"
  by (simp add: record_ok_def leased_rec_def lease_record_def new_lease_def Let_def)

lemma claim_loop_Cons:
  assumes r: "tab p k = Some r"
  shows "\<exists>acc'. claim_loop runner ex step gen expires (k # ks) acc p =
      claim_loop runner ex step gen expires ks acc'
        (transition_stats (Some Ready) (Some Running)
          (put_rec p k r (leased_rec runner ex step gen expires r))) \<and>
     acc_leased acc' = acc_leased acc @
       [(lease_of runner ex step gen expires r, rec_task (leased_rec runner ex step gen expires r))] \<and>
     acc_attempts_started acc' = sat_add (acc_attempts_started acc) 1"
  by (rule exI [of _ "\<lparr>acc_leased = acc_leased acc @ [(lease_of runner ex step gen expires r,
        rec_task (leased_rec runner ex step gen expires r))],
      acc_queue_steps = sat_add (acc_queue_steps acc) (sat_sub step (ready_since_step r)),
      acc_attempts_started = sat_add (acc_attempts_started acc) 1\<rparr>"])
    (simp add: r remove_record_indexes_def insert_record_indexes_def update_record_indexes_def
      put_rec_def leased_rec_def lease_of_def Let_def case_prod_beta)

lemma claim_loop_ok:
  assumes "pool_inv p" and "distinct (map rec_id rs)"
    and "\<forall>r \<in> set rs. tab p (rec_id r) = Some r \<and> status r = Ready"
  shows "\<exists>acc' q. claim_loop runner ex step gen expires (map rec_id rs) acc p = Some (acc', q) \<and>
     pool_inv q \<and>
     acc_leased acc' = acc_leased acc @ map (\<lambda>r. (lease_of runner ex step gen expires r,
       rec_task (leased_rec runner ex step gen expires r))) rs \<and>
     tab q = (\<lambda>k. if k \<in> rec_id ` set rs then map_option (leased_rec runner ex step gen expires) (tab p k)
       else tab p k)"
  using assms
proof (induction rs arbitrary: acc p)
  case Nil
  then show ?case by simp
next
  case (Cons r rs)
  let ?L = "leased_rec runner ex step gen expires"
  define p1 where "p1 = transition_stats (Some Ready) (Some Running) (put_rec p (rec_id r) r (?L r))"
  have r: "tab p (rec_id r) = Some r" "status r = Ready"
    using Cons.prems(3) by simp_all
  have tab1: "tab p1 = (tab p)(rec_id r := Some (?L r))"
    by (simp add: p1_def)
  have inv1: "pool_inv p1"
    using live_step [OF Cons.prems(1) r(1) record_ok_leased] r(2) by (simp add: p1_def)
  have dist: "distinct (map rec_id rs)" and new: "rec_id r \<notin> rec_id ` set rs"
    using Cons.prems(2) by simp_all
  have stored: "\<forall>r' \<in> set rs. tab p1 (rec_id r') = Some r' \<and> status r' = Ready"
  proof
    fix r'
    assume r': "r' \<in> set rs"
    with new have "rec_id r' \<noteq> rec_id r" by (metis imageI)
    with r' Cons.prems(3) show "tab p1 (rec_id r') = Some r' \<and> status r' = Ready"
      by (simp add: tab1)
  qed
  obtain acc1 where acc1: "claim_loop runner ex step gen expires (map rec_id (r # rs)) acc p =
      claim_loop runner ex step gen expires (map rec_id rs) acc1 p1"
    "acc_leased acc1 = acc_leased acc @ [(lease_of runner ex step gen expires r, rec_task (?L r))]"
    using claim_loop_Cons [OF r(1), of runner ex step gen expires "map rec_id rs" acc]
    by (elim exE conjE) (rule that, simp_all add: p1_def del: claim_loop.simps)
  obtain acc' q where q:
    "claim_loop runner ex step gen expires (map rec_id rs) acc1 p1 = Some (acc', q)" "pool_inv q"
    "acc_leased acc' = acc_leased acc1 @ map (\<lambda>r. (lease_of runner ex step gen expires r, rec_task (?L r))) rs"
    "tab q = (\<lambda>k. if k \<in> rec_id ` set rs then map_option ?L (tab p1 k) else tab p1 k)"
    using Cons.IH [OF inv1 dist stored, of acc1] by (elim exE conjE) (rule that)
  have "tab q = (\<lambda>k. if k \<in> rec_id ` set (r # rs) then map_option ?L (tab p k) else tab p k)"
  proof
    fix k
    show "tab q k = (if k \<in> rec_id ` set (r # rs) then map_option ?L (tab p k) else tab p k)"
      using new r(1) by (cases "k = rec_id r") (simp_all add: q(4) tab1)
  qed
  with acc1 q show ?case
    by (intro exI [of _ acc'] exI [of _ q]) simp
qed

lemma claim_ok:
  fixes step gen :: u64 and limit :: nat and budget :: "dispatch_budget option"
  assumes inv: "pool_inv p" and d: "distinct (accepted_protocol_ids runner)"
  defines "rs \<equiv> chosen p runner step gen limit budget"
  shows "\<exists>q. claim_ready_for_executor_with_budget p runner ex step gen limit budget expires =
      Some (map (\<lambda>r. (lease_of runner ex step gen expires r,
        rec_task (leased_rec runner ex step gen expires r))) rs, q) \<and> pool_inv q \<and>
     tab q = (\<lambda>k. if k \<in> rec_id ` set rs then map_option (leased_rec runner ex step gen expires) (tab p k)
       else tab p k)"
proof -
  obtain p1 where p1: "select_candidate_ids p runner step gen limit budget = Some (map rec_id rs, p1)"
    "p1 = p \<or> p1 = cached p (runner_id runner)"
    using select_candidate_ids_eq [OF inv d] unfolding rs_def by blast
  have inv1: "pool_inv p1" and tab1: "tab p1 = tab p"
    using p1(2) inv pool_inv_cached [OF inv] by auto
  have "\<forall>r \<in> set rs. tab p1 (rec_id r) = Some r \<and> status r = Ready"
    using chosen_mem [OF inv] tab1 unfolding rs_def by (auto simp: claimable_def eligible_def)
  then have ready: "\<forall>r \<in> set rs. tab p (rec_id r) = Some r \<and> status r = Ready"
    by (simp only: tab1)
  have dist: "distinct (map rec_id rs)"
    unfolding rs_def by (rule distinct_chosen [OF inv])
  obtain acc q where q: "claim_loop runner ex step gen expires (map rec_id rs)
      \<lparr>acc_leased = [], acc_queue_steps = 0, acc_attempts_started = 0\<rparr> p1 = Some (acc, q)"
    "pool_inv q" "acc_leased acc = map (\<lambda>r. (lease_of runner ex step gen expires r,
        rec_task (leased_rec runner ex step gen expires r))) rs"
    "tab q = (\<lambda>k. if k \<in> rec_id ` set rs then map_option (leased_rec runner ex step gen expires) (tab p k)
       else tab p k)"
    using claim_loop_ok [OF inv1 dist, of runner ex step gen expires
        "\<lparr>acc_leased = [], acc_queue_steps = 0, acc_attempts_started = 0\<rparr>"]
    unfolding tab1 claim_acc.select_convs append_Nil using ready by (elim meta_impE exE conjE) (assumption, rule that)
  moreover have "pool_inv (q\<lparr>statistics := (statistics q)\<lparr>attempts_started := a, cumulative_queue_steps := b\<rparr>\<rparr>) = pool_inv q" for a b
    by (simp add: pool_inv_def core_inv_def evicted_ok_def cache_ok_def hist_inv_def wait_inv_def)
  ultimately show ?thesis
    by (simp add: claim_ready_for_executor_with_budget_def p1(1))
qed

end
