(* ===== verification/Pool_Machine.thy ===== *)
theory Pool_Machine
  imports Pool_Claim
begin

text \<open>
  The task pool as a state machine. A \<open>pool_call\<close> names a public method with its arguments and
  \<open>run_call\<close> runs it; \<open>pool_reach\<close> holds of the pools that calls lead to from the empty one. The
  abstract life of a task is the relation \<open>lifecycle\<close> on its status, and \<open>moves\<close> says what one
  call may do to one record. Every call keeps the invariant, returns, and moves every record
  along its life.
\<close>

section \<open>Calls\<close>

datatype 'v pool_call =
    Enqueue "'v task" u64
  | Claim "'v runner_descriptor" string u64 u64 nat "dispatch_budget option" "u64 option"
  | QueuedCount "'v runner_descriptor" u64 u64
  | CompleteLeased task_lease u64 "'v option"
  | FailLeased task_lease u64 runtime_error
  | WaitLeased task_lease u64 "u64 option"
  | DeferLeased task_lease u64
  | BlockLeased task_lease u64
  | CancelLeased task_lease u64
  | WaitOnTask task_lease u64 task_await
  | Wake string u64
  | WakeDue u64
  | RejectReady string runtime_error
  | CancelByCore string u64
  | ExpireByCore string runtime_error u64
  | DeadLetterByCore string runtime_error u64
  | CancelInvocation string string u64
  | ReclaimExpired u64
  | AbortAll u64 runtime_error
  | RebindReady u64 u64
  | TakeWaits string
  | ConfigureRetention "task_history_retention option"
  | RejectStaleResult

fun run_call :: "('v \<Rightarrow> string + string list) \<Rightarrow> 'v pool_call \<Rightarrow> 'v task_pool \<Rightarrow> 'v task_pool option"
where
  "run_call tw (Enqueue t s) p = Some (snd (enqueue_at tw p t s))"
| "run_call tw (Claim runner ex s gen limit budget expires) p =
     map_option snd (claim_ready_for_executor_with_budget p runner ex s gen limit budget expires)"
| "run_call tw (QueuedCount runner s gen) p = Some (snd (queued_count p runner s gen))"
| "run_call tw (CompleteLeased l s out) p = map_option snd (complete_with_output p l s out)"
| "run_call tw (FailLeased l s f) p = map_option snd (fail p l s f)"
| "run_call tw (WaitLeased l s at) p = Some (snd (wait p l s at))"
| "run_call tw (DeferLeased l s) p = Some (snd (defer_leased p l s))"
| "run_call tw (BlockLeased l s) p = Some (snd (block p l s))"
| "run_call tw (CancelLeased l s) p = map_option snd (cancel_task p l s)"
| "run_call tw (WaitOnTask l s w) p = Some (snd (wait_on_task p l s w))"
| "run_call tw (Wake tid s) p = Some (snd (wake p tid s))"
| "run_call tw (WakeDue s) p = map_option snd (wake_due_tasks p s)"
| "run_call tw (RejectReady tid f) p = map_option snd (reject_ready p tid f)"
| "run_call tw (CancelByCore tid s) p = map_option snd (cancel_by_core p tid s)"
| "run_call tw (ExpireByCore tid f s) p = map_option snd (expire_by_core p tid f s)"
| "run_call tw (DeadLetterByCore tid f s) p = map_option snd (dead_letter_by_core p tid f s)"
| "run_call tw (CancelInvocation rid iid s) p = map_option snd (cancel_running_invocation p rid iid s)"
| "run_call tw (ReclaimExpired s) p = map_option snd (reclaim_expired_task_leases p s)"
| "run_call tw (AbortAll s f) p = map_option snd (abort_all p s f)"
| "run_call tw (RebindReady old new) p = Some (snd (rebind_ready_generation p old new))"
| "run_call tw (TakeWaits child) p = map_option snd (take_waits_for_child p child)"
| "run_call tw (ConfigureRetention ret) p = configure_history_retention p ret"
| "run_call tw RejectStaleResult p = Some (record_stale_result_rejection p)"

text \<open>
  What a caller owes: the registry lists each protocol of a runner once.
\<close>

fun admissible :: "'v pool_call \<Rightarrow> 'v task_pool \<Rightarrow> bool" where
  "admissible (Claim runner ex s gen limit budget expires) p \<longleftrightarrow> distinct (accepted_protocol_ids runner)"
| "admissible c p \<longleftrightarrow> True"

inductive pool_reach :: "('v \<Rightarrow> string + string list) \<Rightarrow> 'v task_pool \<Rightarrow> bool" for tw where
  reach_new: "pool_reach tw task_pool_default"
| reach_call: "pool_reach tw p \<Longrightarrow> admissible c p \<Longrightarrow> run_call tw c p = Some q \<Longrightarrow> pool_reach tw q"

section \<open>The life of a task\<close>

inductive lifecycle :: "task_status \<Rightarrow> task_status \<Rightarrow> bool" where
  life_stay: "lifecycle st st"
| life_claim: "lifecycle Ready Running"
| life_release: "st \<in> {Ready, Waiting, Blocked} \<Longrightarrow> lifecycle Running st"
| life_wake: "st \<in> {Waiting, Blocked} \<Longrightarrow> lifecycle st Ready"
| life_complete: "lifecycle Running Completed"
| life_fail: "st \<in> {Ready, Running} \<Longrightarrow> lifecycle st Failed"
| life_stop: "\<not> is_terminal_status st \<Longrightarrow> st' \<in> {Cancelled, Expired, DeadLetter} \<Longrightarrow> lifecycle st st'"

inductive_simps lifecycle_simps: "lifecycle st st'"

definition record_moves :: "'v task_record \<Rightarrow> 'v task_record \<Rightarrow> bool" where
  "record_moves r r' \<longleftrightarrow>
     lifecycle (status r) (status r') \<and>
     (is_terminal_status (status r) \<longrightarrow> r' = r) \<and>
     task_id (rec_task r') = task_id (rec_task r) \<and>
     attempt_generation r' =
       (if status r = Ready \<and> status r' = Running then sat_add (attempt_generation r) 1
        else attempt_generation r) \<and>
     (status r = Running \<and> status r' = Running \<longrightarrow> lease r' = lease r)"

definition moves :: "bool \<Rightarrow> 'v task_record option \<Rightarrow> 'v task_record option \<Rightarrow> bool" where
  "moves evicts o1 o2 \<longleftrightarrow>
     (case (o1, o2) of
        (None, None) \<Rightarrow> True
      | (None, Some r') \<Rightarrow> status r' = Ready \<and> lease r' = None \<and> attempt_generation r' = 0
      | (Some r, None) \<Rightarrow> evicts
      | (Some r, Some r') \<Rightarrow> record_moves r r')"

fun may_evict :: "'v pool_call \<Rightarrow> 'v task_pool \<Rightarrow> bool" where
  "may_evict (ConfigureRetention ret) p \<longleftrightarrow> ret \<noteq> None"
| "may_evict c p \<longleftrightarrow> history_retention p \<noteq> None"

lemma record_moves_refl [simp]: "record_moves r r"
  by (auto simp: record_moves_def life_stay)

lemma moves_refl [simp]: "moves e o1 o1"
  by (simp add: moves_def split: option.splits)

lemma moves_Some [simp]: "moves e (Some r) (Some r') = record_moves r r'"
  by (simp add: moves_def)

lemma moves_new [simp]:
  "moves e None (Some r') \<longleftrightarrow> status r' = Ready \<and> lease r' = None \<and> attempt_generation r' = 0"
  by (simp add: moves_def)

lemma record_moves_make_ready:
  "status r = Waiting \<or> status r = Blocked \<or> status r = Running \<Longrightarrow> record_moves r (make_ready s r)"
  by (auto simp: record_moves_def intro: lifecycle.intros)

lemma record_moves_live_rec:
  assumes "status r = Running"
  shows "record_moves r (waiting_rec at r)" "record_moves r (deferred_rec s r)"
    "record_moves r (blocked_rec r)" "record_moves r (awaiting_rec w r)"
  using assms
  by (auto simp: record_moves_def live_rec_defs make_ready_def release_record_lease_def
      clear_record_owner_def intro: life_release)

lemma record_moves_terminal:
  assumes "\<not> is_terminal_status (status r)" and "lifecycle (status r) st" and "is_terminal_status st"
  shows "record_moves r (mark_terminal_record st f r)"
    and "record_moves r (mark_terminal_record st f (r\<lparr>rec_output := out\<rparr>))"
  using assms by (auto simp: record_moves_def is_terminal_status_def)

lemma record_moves_leased:
  "status r = Ready \<Longrightarrow> record_moves r (leased_rec runner ex step gen expires r)"
  by (simp add: record_moves_def is_terminal_status_def life_claim)

lemma record_moves_rebound: "record_moves r (rebound_rec old new r)"
  by (auto simp: record_moves_def rebound_rec_def rebinds_def is_terminal_status_def life_stay)

lemma record_moves_aborted: "record_moves r (aborted_rec f r)"
  by (auto simp: aborted_rec_def is_terminal_status_def intro!: record_moves_terminal life_stop)

lemma moves_upd:
  assumes "tab p k = Some r" and "record_moves r r'" and "tab q = (tab p)(k := Some r')"
  shows "moves e (tab p j) (tab q j)"
  using assms by simp

lemma moves_settles:
  assumes "settles p k r' q" and "tab p k = Some r" and "record_moves r r'"
  shows "moves (history_retention p \<noteq> None) (tab p j) (tab q j)"
proof -
  obtain E where E: "tab q = (tab p)(k := Some r') |` (- E)" "history_retention p = None \<longrightarrow> E = {}"
    using assms(1) unfolding settles_def by (elim exE conjE) (rule that)
  show ?thesis
    using E assms(2,3)
    by (cases "j \<in> E"; cases "tab p j") (auto simp: moves_def restrict_map_def split: option.splits)
qed

lemma moves_evict:
  assumes "tab q = (\<lambda>k. map_option f (tab p k)) |` (- E)" and "E \<noteq> {} \<longrightarrow> e"
    and "\<And>r. record_moves r (f r)"
  shows "moves e (tab p j) (tab q j)"
  using assms by (cases "j \<in> E"; cases "tab p j") (auto simp: moves_def restrict_map_def)

section \<open>One call\<close>

definition call_ok :: "('v \<Rightarrow> string + string list) \<Rightarrow> 'v pool_call \<Rightarrow> 'v task_pool \<Rightarrow> bool" where
  "call_ok tw c p \<longleftrightarrow>
     (\<exists>q. run_call tw c p = Some q \<and> pool_inv q \<and> (\<forall>k. moves (may_evict c p) (tab p k) (tab q k)))"

lemma call_okI:
  "run_call tw c p = Some q \<Longrightarrow> pool_inv q \<Longrightarrow> (\<And>k. moves (may_evict c p) (tab p k) (tab q k)) \<Longrightarrow>
     call_ok tw c p"
  by (simp add: call_ok_def)

lemma call_ok_same: "pool_inv p \<Longrightarrow> run_call tw c p = Some p \<Longrightarrow> call_ok tw c p"
  by (rule call_okI [of _ _ _ p]) simp_all

lemma leased_call_ok:
  assumes inv: "pool_inv p"
  shows "call_ok tw (CompleteLeased l s out) p" "call_ok tw (FailLeased l s f) p"
    "call_ok tw (CancelLeased l s) p" "call_ok tw (WaitLeased l s at) p"
    "call_ok tw (DeferLeased l s) p" "call_ok tw (BlockLeased l s) p"
proof -
  have "call_ok tw (CompleteLeased l s out) p \<and> call_ok tw (FailLeased l s f) p \<and>
    call_ok tw (CancelLeased l s) p \<and> call_ok tw (WaitLeased l s at) p \<and>
    call_ok tw (DeferLeased l s) p \<and> call_ok tw (BlockLeased l s) p"
  proof (cases "holds_lease p l s")
    case False
    then show ?thesis
      using inv by (intro conjI call_ok_same)
        (simp_all add: complete_with_output_reject fail_reject cancel_task_reject wait_reject
          defer_leased_reject block_reject)
  next
    case True
    then obtain r where r: "tab p (lease_task_id l) = Some r" "status r = Running"
      by (rule holds_leaseE [OF inv])
    note live = record_moves_live_rec [OF r(2)]
    have trm: "record_moves r (mark_terminal_record st f' r')"
      if "st \<in> {Completed, Failed, Cancelled}" "r' = r \<or> r' = r\<lparr>rec_output := out\<rparr>" for st f' r'
      using that r(2) by (auto simp: is_terminal_status_def lifecycle_simps intro!: record_moves_terminal)
    obtain q where q: "complete_with_output p l s out = Some (Inr (), q)" "pool_inv q"
      "settles p (lease_task_id l) (mark_terminal_record Completed None (r\<lparr>rec_output := out\<rparr>)) q"
      using complete_with_output_ok [OF inv True r(1), of out] by (elim exE conjE) (rule that)
    have 1: "call_ok tw (CompleteLeased l s out) p"
      using q moves_settles [OF q(3) r(1) trm] by (intro call_okI [of _ _ _ q]) simp_all
    obtain q where q: "fail p l s f = Some (Inr (), q)" "pool_inv q"
      "settles p (lease_task_id l) (mark_terminal_record Failed (Some f) r) q"
      using fail_ok [OF inv True r(1), of f] by (elim exE conjE) (rule that)
    have 2: "call_ok tw (FailLeased l s f) p"
      using q moves_settles [OF q(3) r(1) trm] by (intro call_okI [of _ _ _ q]) simp_all
    obtain q where q: "cancel_task p l s = Some (Inr (), q)" "pool_inv q"
      "settles p (lease_task_id l) (mark_terminal_record Cancelled None r) q"
      using cancel_task_ok [OF inv True r(1)] by (elim exE conjE) (rule that)
    have 3: "call_ok tw (CancelLeased l s) p"
      using q moves_settles [OF q(3) r(1) trm] by (intro call_okI [of _ _ _ q]) simp_all
    obtain q where q: "wait p l s at = (Inr (), q)" "pool_inv q"
      "tab q = (tab p)(lease_task_id l := Some (waiting_rec at r))"
      using wait_ok [OF inv True r(1), of at] by (elim exE conjE) (rule that)
    have 4: "call_ok tw (WaitLeased l s at) p"
      using q moves_upd [OF r(1) live(1) q(3)] by (intro call_okI [of _ _ _ q]) simp_all
    obtain q where q: "defer_leased p l s = (Inr (), q)" "pool_inv q"
      "tab q = (tab p)(lease_task_id l := Some (deferred_rec s r))"
      using defer_leased_ok [OF inv True r(1)] by (elim exE conjE) (rule that)
    have 5: "call_ok tw (DeferLeased l s) p"
      using q moves_upd [OF r(1) live(2) q(3)] by (intro call_okI [of _ _ _ q]) simp_all
    obtain q where q: "block p l s = (Inr (), q)" "pool_inv q"
      "tab q = (tab p)(lease_task_id l := Some (blocked_rec r))"
      using block_ok [OF inv True r(1)] by (elim exE conjE) (rule that)
    have 6: "call_ok tw (BlockLeased l s) p"
      using q moves_upd [OF r(1) live(3) q(3)] by (intro call_okI [of _ _ _ q]) simp_all
    from 1 2 3 4 5 6 show ?thesis by blast
  qed
  then show "call_ok tw (CompleteLeased l s out) p" "call_ok tw (FailLeased l s f) p"
    "call_ok tw (CancelLeased l s) p" "call_ok tw (WaitLeased l s at) p"
    "call_ok tw (DeferLeased l s) p" "call_ok tw (BlockLeased l s) p" by blast+
qed

lemma await_call_ok:
  assumes inv: "pool_inv p"
  shows "call_ok tw (WaitOnTask l s w) p"
proof (cases "await_allowed p l s w")
  case False
  then show ?thesis
    using inv wait_on_task_reject [OF False] by (intro call_ok_same) auto
next
  case True
  obtain r where r: "tab p (lease_task_id l) = Some r" "status r = Running"
    using holds_leaseE [OF inv await_allowedD(1) [OF inv True]] by blast
  obtain q where q: "wait_on_task p l s w = (Inr (), q)" "pool_inv q"
    "tab q = (tab p)(lease_task_id l := Some (awaiting_rec w r))"
    using wait_on_task_ok [OF inv True r(1)] by (elim exE conjE) (rule that)
  show ?thesis
    using q moves_upd [OF r(1) record_moves_live_rec(4) [OF r(2)] q(3)]
    by (intro call_okI [of _ _ _ q]) simp_all
qed

lemma wake_call_ok:
  assumes inv: "pool_inv p"
  shows "call_ok tw (Wake k s) p"
proof (cases "\<exists>r. tab p k = Some r \<and> (status r = Waiting \<or> status r = Blocked)")
  case False
  then have "\<exists>e. wake p k s = (Inl e, p)"
    by (intro wake_reject [OF inv]) auto
  with inv show ?thesis by (intro call_ok_same) auto
next
  case True
  then obtain r where r: "tab p k = Some r" "status r = Waiting \<or> status r = Blocked" by blast
  obtain q where q: "wake p k s = (Inr (), q)" "pool_inv q" "tab q = (tab p)(k := Some (make_ready s r))"
    using wake_ok [OF inv r, of s] by (elim exE conjE) (rule that)
  have "record_moves r (make_ready s r)"
    using r(2) by (intro record_moves_make_ready) blast
  then show ?thesis
    using q moves_upd [OF r(1) _ q(3)] by (intro call_okI [of _ _ _ q]) simp_all
qed

lemma moves_make_ready_all:
  assumes "tab q = make_ready_all s D (tab p)"
    and "\<And>k r. k \<in> D \<Longrightarrow> tab p k = Some r \<Longrightarrow> status r = Waiting \<or> status r = Blocked \<or> status r = Running"
  shows "moves e (tab p j) (tab q j)"
  using assms record_moves_make_ready
  by (cases "j \<in> D"; cases "tab p j") (auto simp: make_ready_all_def)

lemma due_call_ok:
  assumes inv: "pool_inv p"
  shows "call_ok tw (WakeDue s) p" and "call_ok tw (ReclaimExpired s) p"
proof -
  obtain due q where q: "wake_due_tasks p s = Some (due, q)" "pool_inv q"
    "\<forall>k step. (k, step) \<in> set due \<longleftrightarrow> (\<exists>r. tab p k = Some r \<and> (status r = Waiting \<or> status r = Blocked) \<and>
       ready_at_step (rec_task r) = Some step \<and> step \<le> s)"
    "tab q = make_ready_all s (fst ` set due) (tab p)"
    using wake_due_tasks_ok [OF inv, of s] by (elim exE conjE) (rule that)
  have "moves e (tab p j) (tab q j)" for e j
    using q(4)
  proof (rule moves_make_ready_all)
    fix k r
    assume "k \<in> fst ` set due" and r: "tab p k = Some r"
    then obtain step where "(k, step) \<in> set due" by force
    with q(3) r show "status r = Waiting \<or> status r = Blocked \<or> status r = Running" by auto
  qed
  with q show "call_ok tw (WakeDue s) p" by (intro call_okI [of _ _ _ q]) simp_all
next
  obtain ls q where q: "reclaim_expired_task_leases p s = Some (ls, q)" "pool_inv q"
    "\<forall>l. l \<in> set ls \<longleftrightarrow> (\<exists>r. tab p (lease_task_id l) = Some r \<and> lease r = Some l) \<and> task_lease_expired l s"
    "tab q = make_ready_all s (lease_task_id ` set ls) (tab p)"
    using reclaim_ok [OF inv, of s] by (elim exE conjE) (rule that)
  have "moves e (tab p j) (tab q j)" for e j
    using q(4)
  proof (rule moves_make_ready_all)
    fix k r
    assume "k \<in> lease_task_id ` set ls" and r: "tab p k = Some r"
    then obtain l where "l \<in> set ls" "k = lease_task_id l" by blast
    with q(3) r have "lease r = Some l" by auto
    then show "status r = Waiting \<or> status r = Blocked \<or> status r = Running"
      using record_ok_running [OF pool_inv_record_ok [OF inv r]] by simp
  qed
  with q show "call_ok tw (ReclaimExpired s) p" by (intro call_okI [of _ _ _ q]) simp_all
qed

lemma reject_call_ok:
  assumes inv: "pool_inv p"
  shows "call_ok tw (RejectReady k f) p"
proof (cases "\<exists>r. tab p k = Some r \<and> status r = Ready")
  case False
  then have "\<exists>e. reject_ready p k f = Some (Inl e, p)"
    by (intro reject_ready_reject [OF inv]) auto
  with inv show ?thesis by (intro call_ok_same) auto
next
  case True
  then obtain r where r: "tab p k = Some r" "status r = Ready" by blast
  obtain q where q: "reject_ready p k f = Some (Inr (), q)" "pool_inv q"
    "settles p k (r\<lparr>status := Failed, failure := Some f\<rparr>) q"
    using reject_ready_ok [OF inv r, of f] by (elim exE conjE) (rule that)
  have "record_moves r (r\<lparr>status := Failed, failure := Some f\<rparr>)"
    using r(2) by (simp add: record_moves_def is_terminal_status_def life_fail)
  then show ?thesis
    using q moves_settles [OF q(3) r(1)] by (intro call_okI [of _ _ _ q]) simp_all
qed

lemma core_call_ok:
  assumes inv: "pool_inv p" and st: "st \<in> {Cancelled, Expired, DeadLetter}"
    and f: "st \<noteq> Cancelled \<longrightarrow> f \<noteq> None"
  shows "\<exists>res q. terminal_by_core p k st f a s = Some (res, q) \<and> pool_inv q \<and>
     (\<forall>j. moves (history_retention p \<noteq> None) (tab p j) (tab q j))"
proof (cases "\<exists>r. tab p k = Some r \<and> \<not> is_terminal_status (status r)")
  case False
  then have "\<exists>e. terminal_by_core p k st f a s = Some (Inl e, p)"
    by (intro terminal_by_core_reject [OF inv]) auto
  with inv show ?thesis by auto
next
  case True
  then obtain r where r: "tab p k = Some r" "\<not> is_terminal_status (status r)" by blast
  have trm: "is_terminal_status st" and fs: "st = Failed \<or> st = Expired \<or> st = DeadLetter \<longrightarrow> f \<noteq> None"
    using st f by (auto simp: is_terminal_status_def)
  obtain q where q: "terminal_by_core p k st f a s = Some (Inr (), q)" "pool_inv q"
    "settles p k (mark_terminal_record st f r) q"
    using terminal_by_core_ok [OF inv r trm fs, of a s] by (elim exE conjE) (rule that)
  have "record_moves r (mark_terminal_record st f r)"
    by (rule record_moves_terminal(1) [OF r(2) life_stop [OF r(2) st] trm])
  with q moves_settles [OF q(3) r(1)] show ?thesis
    by (intro exI [of _ "Inr ()"] exI [of _ q]) simp
qed

lemma core_calls_ok:
  assumes inv: "pool_inv p"
  shows "call_ok tw (CancelByCore k s) p" "call_ok tw (ExpireByCore k f s) p"
    "call_ok tw (DeadLetterByCore k f s) p"
  using core_call_ok [OF inv, of Cancelled None k "''cancel''" s]
    core_call_ok [OF inv, of Expired "Some f" k "''expire''" s]
    core_call_ok [OF inv, of DeadLetter "Some f" k "''dead_letter''" s]
  by (auto simp: call_ok_def cancel_by_core_def expire_by_core_def dead_letter_by_core_def)

lemma invocation_call_ok:
  assumes inv: "pool_inv p"
  shows "call_ok tw (CancelInvocation rid iid s) p"
proof (cases "find_invocation p rid iid")
  case None
  then have "cancel_running_invocation p rid iid s = Some (0, p)"
    using cancel_running_invocation_ok [OF inv, of rid iid s] by blast
  with inv show ?thesis by (intro call_ok_same) simp_all
next
  case (Some k)
  then obtain r l q where q: "tab p k = Some r" "lease r = Some l"
    "cancel_running_invocation p rid iid s = Some (1, q)" "pool_inv q"
    "tab q = (tab p)(k := Some (make_ready s r))"
    using conjunct2 [OF cancel_running_invocation_ok [OF inv, of rid iid s], rule_format, OF Some]
    by (elim exE conjE) (rule that)
  have "status r = Running"
    using record_ok_running [OF pool_inv_record_ok [OF inv q(1)] q(2)] .
  then have "record_moves r (make_ready s r)"
    by (intro record_moves_make_ready) blast
  then show ?thesis
    using q moves_upd [OF q(1) _ q(5)] by (intro call_okI [of _ _ _ q]) simp_all
qed

lemma sweep_call_ok:
  assumes inv: "pool_inv p"
  shows "call_ok tw (AbortAll s f) p" "call_ok tw (RebindReady old new) p"
    "call_ok tw (TakeWaits c) p" "call_ok tw (ConfigureRetention ret) p"
    "call_ok tw RejectStaleResult p"
proof -
  obtain ids q E where q: "abort_all p s f = Some (ids, q)" "pool_inv q"
    "tab q = (\<lambda>k. map_option (aborted_rec f) (tab p k)) |` (- E)" "history_retention p = None \<longrightarrow> E = {}"
    using abort_all_ok [OF inv, of s f] by (elim exE conjE) (rule that)
  have "moves (history_retention p \<noteq> None) (tab p j) (tab q j)" for j
    using q(4) by (intro moves_evict [OF q(3)]) (auto simp: record_moves_aborted)
  with q show "call_ok tw (AbortAll s f) p" by (intro call_okI [of _ _ _ q]) simp_all
next
  obtain q where q: "rebind_ready_generation p old new = (card {k. \<exists>r. tab p k = Some r \<and> rebinds old r}, q)"
    "pool_inv q" "\<forall>k. tab q k = map_option (rebound_rec old new) (tab p k)"
    using rebind_ok [OF inv, of old new] by (elim exE conjE) (rule that)
  have "moves e (tab p j) (tab q j)" for e j
    using record_moves_rebound by (cases "tab p j") (simp_all add: q(3))
  with q show "call_ok tw (RebindReady old new) p" by (intro call_okI [of _ _ _ q]) simp_all
next
  have id: "tab p |` (- E) = (\<lambda>k. map_option (\<lambda>r. r) (tab p k)) |` (- E)" for E
    by (simp add: option.map_ident)
  obtain q E where q: "take_waits_for_child p c = Some (fm_get_or [] (waits_by_child p) c, q)"
    "pool_inv q" "tab q = tab p |` (- E)" "history_retention p = None \<longrightarrow> E = {}"
    using take_waits_for_child_ok [OF inv, of c] by (elim exE conjE) (rule that)
  have "moves (history_retention p \<noteq> None) (tab p j) (tab q j)" for j
    using q(4) by (intro moves_evict [OF q(3) [unfolded id]]) auto
  with q show "call_ok tw (TakeWaits c) p" by (intro call_okI [of _ _ _ q]) simp_all
  obtain q E where q: "configure_history_retention p ret = Some q" "pool_inv q"
    "tab q = tab p |` (- E)" "ret = None \<longrightarrow> E = {}"
    using configure_history_retention_ok [OF inv, of ret] by (elim exE conjE) (rule that)
  have "moves (ret \<noteq> None) (tab p j) (tab q j)" for j
    using q(4) by (intro moves_evict [OF q(3) [unfolded id]]) auto
  with q show "call_ok tw (ConfigureRetention ret) p" by (intro call_okI [of _ _ _ q]) simp_all
  have "pool_inv (record_stale_result_rejection p)"
    using inv by (simp add: record_stale_result_rejection_def pool_inv_def core_inv_def evicted_ok_def
        cache_ok_def hist_inv_def wait_inv_def)
  moreover have "tab (record_stale_result_rejection p) = tab p"
    by (simp add: record_stale_result_rejection_def)
  ultimately show "call_ok tw RejectStaleResult p"
    by (intro call_okI [of _ _ _ "record_stale_result_rejection p"]) simp_all
qed

lemma enqueue_call_ok:
  assumes inv: "pool_inv p"
  shows "call_ok tw (Enqueue t s) p"
proof (cases "contains_task_id p (task_id t)")
  case True
  with inv show ?thesis by (intro call_ok_same) (simp_all add: enqueue_at_duplicate)
next
  case new: False
  show ?thesis
  proof (cases "compact_json_len tw (payload t)")
    case (Inl e)
    with inv new show ?thesis by (intro call_ok_same) (simp_all add: enqueue_at_unencodable)
  next
    case (Inr n)
    obtain q where q: "enqueue_at tw p t s = (Inr (task_id t), q)" "pool_inv q"
      "tab q = (tab p)(task_id t := Some (submitted_rec p t s))"
      using enqueue_at_ok [OF inv new Inr, of s] by (elim exE conjE) (rule that)
    have "tab p (task_id t) = None"
      using new by (simp add: contains_task_id_def fmdom_notD)
    with q show ?thesis
      by (intro call_okI [of _ _ _ q]) simp_all
  qed
qed

lemma claim_call_ok:
  assumes inv: "pool_inv p" and d: "distinct (accepted_protocol_ids runner)"
  shows "call_ok tw (Claim runner ex s gen limit budget expires) p"
proof -
  let ?rs = "chosen p runner s gen limit budget"
  obtain ls q where q: "claim_ready_for_executor_with_budget p runner ex s gen limit budget expires = Some (ls, q)"
    "pool_inv q" "tab q = (\<lambda>k. if k \<in> rec_id ` set ?rs
      then map_option (leased_rec runner ex s gen expires) (tab p k) else tab p k)"
    using claim_ok [OF inv d, of ex s gen limit budget expires] by (elim exE conjE) (rule that)
  have "moves e (tab p j) (tab q j)" for e j
  proof (cases "j \<in> rec_id ` set ?rs")
    case True
    then obtain r where r: "r \<in> set ?rs" "j = rec_id r" by blast
    have "tab p j = Some r" "status r = Ready"
      using chosen_mem [OF inv r(1)] r(2) by (simp_all add: claimable_def eligible_def)
    with True show ?thesis
      using record_moves_leased by (simp add: q(3))
  qed (simp add: q(3))
  with q show ?thesis by (intro call_okI [of _ _ _ q]) simp_all
qed

lemma count_call_ok:
  assumes inv: "pool_inv p"
  shows "call_ok tw (QueuedCount runner s gen) p"
  by (intro call_okI [of _ _ _ "cached p (runner_id runner)"])
    (simp_all add: queued_count_def ready_dispatch_count_def pool_inv_cached [OF inv]
      with_selectors_eq [OF pool_inv_cache_ok [OF inv]])

lemma every_call_ok:
  assumes "pool_inv p" and "admissible c p"
  shows "call_ok tw c p"
  using assms
  by (cases c) (simp_all add: leased_call_ok await_call_ok wake_call_ok due_call_ok reject_call_ok
      core_calls_ok invocation_call_ok sweep_call_ok enqueue_call_ok claim_call_ok count_call_ok)

lemma pool_inv_default: "pool_inv task_pool_default"
proof -
  have tab: "tab (task_pool_default :: 'v task_pool) = (\<lambda>_. None)"
    by (simp add: task_pool_default_def fmempty.rep_eq fun_eq_iff)
  have "counter st statistics_default = 0" for st
    by (cases st) (simp_all add: statistics_default_def)
  then have "core_inv {} {} (task_pool_default :: 'v task_pool)"
    by (simp add: core_inv_def tab keyed_def stats_ok_def ids_with_def evicted_ok_def cache_ok_def)
      (simp add: task_pool_default_def ix_ok_empty fcard.rep_eq)
  moreover have "hist_inv {} (task_pool_default :: 'v task_pool)" "wait_inv {} (task_pool_default :: 'v task_pool)"
    by (simp_all add: hist_inv_def wait_inv_def task_pool_default_def)
  ultimately show ?thesis by (simp add: pool_inv_def)
qed

lemma reach_inv: "pool_reach tw p \<Longrightarrow> pool_inv p"
proof (induction rule: pool_reach.induct)
  case reach_new
  show ?case by (rule pool_inv_default)
next
  case (reach_call p c q)
  then show ?case
    using every_call_ok [of p c tw] by (simp add: call_ok_def)
qed

end
