(* ===== verification/Pool_Properties.thy ===== *)
theory Pool_Properties
  imports Pool_Machine
begin

text \<open>
  The properties of the task pool over the pools that its public methods can produce, each with
  a run of the machine on which its hypotheses hold.
\<close>

section \<open>Sample runs\<close>

text \<open>A payload is a number and is written in decimal.\<close>

definition sample_writer :: "nat \<Rightarrow> string + string list" where
  "sample_writer n = Inr [show_nat n]"

definition sample_runner :: "nat runner_descriptor" where
  "sample_runner =
     \<lparr>runner_id = ''r'', plugin_id = ''p'', plugin_generation = 1,
      accepted_protocol_ids = [''x'', ''y''], purity = Pure, execution_class = Cpu,
      invocation_mode = SyncExclusive, concurrency = Exclusive, input_schema = 0,
      output_schema = 0, rd_batch = runner_batch_capability_default,
      rd_payload = runner_payload_capability_default,
      rd_resources = runner_resource_capability_default,
      rd_ordering = runner_ordering_capability_default,
      rd_control = runner_control_capability_default, rd_metadata = fmempty,
      contract_surfaces = []\<rparr>"

fun run_calls :: "('v \<Rightarrow> string + string list) \<Rightarrow> 'v pool_call list \<Rightarrow> 'v task_pool \<Rightarrow> 'v task_pool"
where
  "run_calls tw [] p = p"
| "run_calls tw (c # cs) p = run_calls tw cs (the (run_call tw c p))"

text \<open>Three tasks are submitted; the third one has the highest priority and is claimed.\<close>

definition sample_ready :: "nat task_pool" where
  "sample_ready = run_calls sample_writer
     [Enqueue (task_new ''a'' ''x'' 7) 0, Enqueue ((task_new ''b'' ''y'' 8)\<lparr>ready_at_step := Some 5\<rparr>) 0,
      Enqueue ((task_new ''c'' ''x'' 9)\<lparr>priority := 3\<rparr>) 0] task_pool_default"

definition sample_lease :: task_lease where
  "sample_lease = \<lparr>lease_id = ''task-lease-0-c-1'', lease_task_id = ''c'', lease_attempt_generation = 1,
     lease_runner_id = ''r'', lease_executor_id = ''e'', lease_registry_generation = 0,
     acquired_at_step = 0, expires_at_step = Some 2\<rparr>"

definition sample_running :: "nat task_pool" where
  "sample_running = run_calls sample_writer
     [Claim sample_runner ''e'' 0 0 1 None (Some 2)] sample_ready"

definition sample_waiting :: "nat task_pool" where
  "sample_waiting = run_calls sample_writer [WaitLeased sample_lease 0 (Some 4)] sample_running"

lemma reach_step:
  assumes "pool_reach tw p" and "admissible c p"
  shows "pool_reach tw (the (run_call tw c p))"
proof -
  obtain q where "run_call tw c p = Some q"
    using every_call_ok [OF reach_inv [OF assms(1)] assms(2)] unfolding call_ok_def by blast
  with assms show ?thesis by (auto intro: reach_call)
qed

lemma run_call_the:
  assumes "pool_reach tw p" and "admissible c p"
  shows "run_call tw c p = Some (the (run_call tw c p))"
  using every_call_ok [OF reach_inv [OF assms(1)] assms(2), of tw] by (auto simp: call_ok_def)

lemma sample_ready_reach: "pool_reach sample_writer sample_ready"
  unfolding sample_ready_def run_calls.simps
  by (intro reach_step reach_new) simp_all

lemma sample_running_reach: "pool_reach sample_writer sample_running"
  unfolding sample_running_def run_calls.simps
  by (intro reach_step sample_ready_reach) (simp add: sample_runner_def)

lemma sample_waiting_reach: "pool_reach sample_writer sample_waiting"
  unfolding sample_waiting_def run_calls.simps
  by (intro reach_step sample_running_reach) simp

lemma sample_holds: "holds_lease sample_running sample_lease 1"
proof -
  have "map_option (\<lambda>r. lease r = Some sample_lease) (fmlookup (tasks sample_running) ''c'') = Some True"
    by code_simp
  moreover have "\<not> task_lease_expired sample_lease 1" "lease_task_id sample_lease = ''c''"
    by code_simp+
  ultimately show ?thesis
    by (auto simp: holds_lease_def)
qed

section \<open>The machine\<close>



text \<open>
  C2. In every reachable pool the secondary indexes (ready queues and their counts, wake and lease
  expiry buckets, tasks per runner, tasks with version expectations) are what rebuilding them from
  the records gives, so incremental maintenance never drifts from the records.
\<close>

theorem indexes_are_rebuilt:
  assumes "pool_reach tw p"
  shows "rebuild_indexes p = p"
  by (rule indexes_rebuilt [OF reach_inv [OF assms]])

theorem indexes_are_rebuilt_witness:
  "rebuild_indexes sample_waiting = sample_waiting \<and> fm_keys (wake_by_step (indexes sample_waiting)) = [4]"
proof
  show "rebuild_indexes sample_waiting = sample_waiting"
    by (rule indexes_are_rebuilt [OF sample_waiting_reach])
  show "fm_keys (wake_by_step (indexes sample_waiting)) = [4]"
    by code_simp
qed

text \<open>
  C3. Every call moves every task along its life cycle or leaves it alone: a new task starts
  \<open>Ready\<close> with attempt 0, only a \<open>Ready\<close> task is claimed and only claiming raises its attempt, a
  task completes only from \<open>Running\<close>, a terminal record never changes again, and a record
  disappears only under a retention policy.
\<close>

theorem calls_follow_lifecycle:
  assumes "pool_reach tw p" and "admissible c p" and "run_call tw c p = Some q"
  shows "moves (may_evict c p) (fmlookup (tasks p) k) (fmlookup (tasks q) k)"
  using every_call_ok [OF reach_inv [OF assms(1)] assms(2), of tw] assms(3)
  by (simp add: call_ok_def)

theorem calls_follow_lifecycle_witness:
  "moves False (fmlookup (tasks sample_ready) ''c'') (fmlookup (tasks sample_running) ''c'') \<and>
   map_option status (fmlookup (tasks sample_running) ''c'') = Some Running"
proof
  let ?c = "Claim sample_runner ''e'' 0 0 1 None (Some 2)"
  have adm: "admissible ?c sample_ready" by code_simp
  have "run_call sample_writer ?c sample_ready = Some sample_running"
    using run_call_the [OF sample_ready_reach adm] by (simp add: sample_running_def)
  moreover have "may_evict ?c sample_ready = False" by code_simp
  ultimately show "moves False (fmlookup (tasks sample_ready) ''c'') (fmlookup (tasks sample_running) ''c'')"
    using calls_follow_lifecycle [OF sample_ready_reach adm, of sample_running "''c''"] by simp
  show "map_option status (fmlookup (tasks sample_running) ''c'') = Some Running"
    by code_simp
qed

section \<open>Leases\<close>

lemma settled_not_held:
  assumes "settles p (lease_task_id l) r' q" and "lease r' = None"
  shows "\<not> holds_lease q l s"
proof -
  obtain E where "tab q = (tab p)(lease_task_id l := Some r') |` (- E)"
    using assms(1) unfolding settles_def by (elim exE conjE) (rule that)
  then show ?thesis
    using assms(2) by (auto simp: holds_lease_def restrict_map_def split: if_splits)
qed

lemma lease_results:
  assumes "pool_reach tw p"
  shows "map_option fst (complete_with_output p l s out) =
       Some (if holds_lease p l s then Inr () else Inl (lease_error p l s ''complete''))"
    and "map_option fst (fail p l s f) =
       Some (if holds_lease p l s then Inr () else Inl (lease_error p l s ''fail''))"
    and "map_option fst (cancel_task p l s) =
       Some (if holds_lease p l s then Inr () else Inl (lease_error p l s ''cancel''))"
    and "fst (wait p l s at) = (if holds_lease p l s then Inr () else Inl (lease_error p l s ''wait''))"
    and "fst (defer_leased p l s) =
       (if holds_lease p l s then Inr () else Inl (lease_error p l s ''defer''))"
    and "fst (block p l s) = (if holds_lease p l s then Inr () else Inl (lease_error p l s ''block''))"
proof -
  note inv = reach_inv [OF assms]
  have held: "\<exists>r. tab p (lease_task_id l) = Some r" if "holds_lease p l s"
    using that by (auto simp: holds_lease_def)
  show "map_option fst (complete_with_output p l s out) =
       Some (if holds_lease p l s then Inr () else Inl (lease_error p l s ''complete''))"
    using held complete_with_output_ok [OF inv, of l s _ out] complete_with_output_reject [OF inv, of l s out]
    by (cases "holds_lease p l s") fastforce+
  show "map_option fst (fail p l s f) =
       Some (if holds_lease p l s then Inr () else Inl (lease_error p l s ''fail''))"
    using held fail_ok [OF inv, of l s _ f] fail_reject [OF inv, of l s f]
    by (cases "holds_lease p l s") fastforce+
  show "map_option fst (cancel_task p l s) =
       Some (if holds_lease p l s then Inr () else Inl (lease_error p l s ''cancel''))"
    using held cancel_task_ok [OF inv, of l s] cancel_task_reject [OF inv, of l s]
    by (cases "holds_lease p l s") fastforce+
  show "fst (wait p l s at) = (if holds_lease p l s then Inr () else Inl (lease_error p l s ''wait''))"
    using held wait_ok [OF inv, of l s _ at] wait_reject [OF inv, of l s at]
    by (cases "holds_lease p l s") fastforce+
  show "fst (defer_leased p l s) =
       (if holds_lease p l s then Inr () else Inl (lease_error p l s ''defer''))"
    using held defer_leased_ok [OF inv, of l s] defer_leased_reject [OF inv, of l s]
    by (cases "holds_lease p l s") fastforce+
  show "fst (block p l s) = (if holds_lease p l s then Inr () else Inl (lease_error p l s ''block''))"
    using held block_ok [OF inv, of l s] block_reject [OF inv, of l s]
    by (cases "holds_lease p l s") fastforce+
qed

text \<open>
  C4. Results are fenced by leases. \<open>complete\<close>, \<open>fail\<close>, \<open>cancel\<close>, \<open>wait\<close>, \<open>defer\<close> and \<open>block\<close>
  succeed exactly for the lease that the record holds, unexpired; any other lease is answered
  with the claim conflict (or not-found) error.
\<close>

theorem lease_decides_result:
  assumes "pool_reach tw p"
  shows "map_option fst (complete_with_output p l s out) =
       Some (if holds_lease p l s then Inr () else Inl (lease_error p l s ''complete'')) \<and>
     map_option fst (fail p l s f) =
       Some (if holds_lease p l s then Inr () else Inl (lease_error p l s ''fail'')) \<and>
     map_option fst (cancel_task p l s) =
       Some (if holds_lease p l s then Inr () else Inl (lease_error p l s ''cancel'')) \<and>
     fst (wait p l s at) = (if holds_lease p l s then Inr () else Inl (lease_error p l s ''wait'')) \<and>
     fst (defer_leased p l s) =
       (if holds_lease p l s then Inr () else Inl (lease_error p l s ''defer'')) \<and>
     fst (block p l s) = (if holds_lease p l s then Inr () else Inl (lease_error p l s ''block''))"
  by (intro conjI lease_results [OF assms])

theorem lease_decides_result_witness:
  "map_option fst (complete_with_output sample_running sample_lease 1 None) = Some (Inr ()) \<and>
   map_option fst (complete_with_output sample_ready sample_lease 1 None) =
     Some (Inl (lease_error sample_ready sample_lease 1 ''complete''))"
proof
  show "map_option fst (complete_with_output sample_running sample_lease 1 None) = Some (Inr ())"
    using lease_decides_result [OF sample_running_reach, of sample_lease 1 None] sample_holds by simp
  have "map_option (\<lambda>r. lease r = None) (fmlookup (tasks sample_ready) ''c'') = Some True"
    "lease_task_id sample_lease = ''c''"
    by code_simp+
  then have "\<not> holds_lease sample_ready sample_lease 1"
    by (auto simp: holds_lease_def)
  then show "map_option fst (complete_with_output sample_ready sample_lease 1 None) =
     Some (Inl (lease_error sample_ready sample_lease 1 ''complete''))"
    using lease_decides_result [OF sample_ready_reach, of sample_lease 1 None] by simp
qed

definition uses_lease :: "'v pool_call \<Rightarrow> task_lease \<Rightarrow> u64 \<Rightarrow> bool" where
  "uses_lease c l s \<longleftrightarrow>
     (case c of
        CompleteLeased l' s' out \<Rightarrow> l' = l \<and> s' = s
      | FailLeased l' s' f \<Rightarrow> l' = l \<and> s' = s
      | WaitLeased l' s' at \<Rightarrow> l' = l \<and> s' = s
      | DeferLeased l' s' \<Rightarrow> l' = l \<and> s' = s
      | BlockLeased l' s' \<Rightarrow> l' = l \<and> s' = s
      | CancelLeased l' s' \<Rightarrow> l' = l \<and> s' = s
      | _ \<Rightarrow> False)"

lemma rejected_use:
  assumes inv: "pool_inv p" and "\<not> holds_lease p l s" and "uses_lease c l s"
  shows "run_call tw c p = Some p"
  using assms
  by (cases c) (simp_all add: uses_lease_def complete_with_output_reject fail_reject
      cancel_task_reject wait_reject defer_leased_reject block_reject)

lemma accepted_use:
  assumes inv: "pool_inv p" and hold: "holds_lease p l s" and c: "uses_lease c l s"
    and q: "run_call tw c p = Some q"
  shows "\<not> holds_lease q l s'"
proof -
  obtain r where r: "tab p (lease_task_id l) = Some r"
    using hold by (auto simp: holds_lease_def)
  from c show ?thesis
  proof (cases c)
    case (CompleteLeased l' s1 out)
    then have "snd (the (complete_with_output p l s out)) = q"
      using c q by (auto simp: uses_lease_def)
    then show ?thesis
      using complete_with_output_ok [OF inv hold r, of out] by (auto dest: settled_not_held [where s = s'])
  next
    case (FailLeased l' s1 f)
    then have "snd (the (fail p l s f)) = q"
      using c q by (auto simp: uses_lease_def)
    then show ?thesis
      using fail_ok [OF inv hold r, of f] by (auto dest: settled_not_held [where s = s'])
  next
    case (CancelLeased l' s1)
    then have "snd (the (cancel_task p l s)) = q"
      using c q by (auto simp: uses_lease_def)
    then show ?thesis
      using cancel_task_ok [OF inv hold r] by (auto dest: settled_not_held [where s = s'])
  next
    case (WaitLeased l' s1 at)
    then have "snd (wait p l s at) = q"
      using c q by (auto simp: uses_lease_def)
    then show ?thesis
      using wait_ok [OF inv hold r, of at] by (auto simp: holds_lease_def)
  next
    case (DeferLeased l' s1)
    then have "snd (defer_leased p l s) = q"
      using c q by (auto simp: uses_lease_def)
    then show ?thesis
      using defer_leased_ok [OF inv hold r] by (auto simp: holds_lease_def)
  next
    case (BlockLeased l' s1)
    then have "snd (block p l s) = q"
      using c q by (auto simp: uses_lease_def)
    then show ?thesis
      using block_ok [OF inv hold r] by (auto simp: holds_lease_def)
  qed (simp_all add: uses_lease_def)
qed



text \<open>Runs of the machine during which the record of one task stays in the pool.\<close>

inductive keeps_task :: "('v \<Rightarrow> string + string list) \<Rightarrow> string \<Rightarrow> 'v task_pool \<Rightarrow> 'v task_pool \<Rightarrow> bool"
  for tw k p where
  keep_now: "keeps_task tw k p p"
| keep_call: "keeps_task tw k p q \<Longrightarrow> admissible c q \<Longrightarrow> run_call tw c q = Some q' \<Longrightarrow>
     k \<in> fmdom' (tasks q') \<Longrightarrow> keeps_task tw k p q'"

lemma record_moves_attempt: "record_moves r r' \<Longrightarrow> attempt_generation r \<le> attempt_generation r'"
  using sat_add_ge [of "attempt_generation r" 1] by (auto simp: record_moves_def)

lemma stale_run:
  assumes "keeps_task tw (lease_task_id l) p q" and "pool_reach tw p"
    and "tab p (lease_task_id l) = Some r" and "lease r \<noteq> Some l"
    and "lease_attempt_generation l \<le> attempt_generation r"
  shows "pool_reach tw q \<and> (\<exists>r'. tab q (lease_task_id l) = Some r' \<and>
     (attempt_generation r' \<noteq> u64_max \<longrightarrow>
        lease r' \<noteq> Some l \<and> lease_attempt_generation l \<le> attempt_generation r'))"
  using assms(1)
proof induction
  case keep_now
  with assms(2-5) show ?case by simp
next
  case (keep_call q c q')
  then obtain r1 where r1: "pool_reach tw q" "tab q (lease_task_id l) = Some r1"
    "attempt_generation r1 \<noteq> u64_max \<longrightarrow>
       lease r1 \<noteq> Some l \<and> lease_attempt_generation l \<le> attempt_generation r1" by blast
  obtain r2 where r2: "tab q' (lease_task_id l) = Some r2"
    using keep_call.hyps(4) by (auto simp: fmdom'_lookup)
  have reach: "pool_reach tw q'"
    by (rule reach_call [OF r1(1) keep_call.hyps(2,3)])
  have mv: "record_moves r1 r2"
    using every_call_ok [OF reach_inv [OF r1(1)] keep_call.hyps(2), of tw] keep_call.hyps(3) r1(2) r2
    unfolding call_ok_def by (metis moves_Some option.inject)
  have ok: "record_ok r2"
    by (rule pool_inv_record_ok [OF reach_inv [OF reach] r2])
  have "lease r2 \<noteq> Some l \<and> lease_attempt_generation l \<le> attempt_generation r2"
    if live: "attempt_generation r2 \<noteq> u64_max"
  proof -
    have "attempt_generation r1 \<noteq> u64_max"
      using record_moves_attempt [OF mv] live by (metis word_order.extremum_unique)
    then have old: "lease r1 \<noteq> Some l" "lease_attempt_generation l \<le> attempt_generation r1"
      and up: "attempt_generation r1 < sat_add (attempt_generation r1) 1"
      using r1(3) sat_add_one_gt by blast+
    show ?thesis
    proof (cases "status r1 = Ready \<and> status r2 = Running")
      case True
      then have "lease_attempt_generation l < attempt_generation r2"
        using mv old(2) up by (simp add: record_moves_def)
      with ok show ?thesis by (auto simp: record_ok_def)
    next
      case False
      then have "attempt_generation r2 = attempt_generation r1"
        using mv by (auto simp: record_moves_def)
      moreover have "lease r2 \<noteq> Some l"
      proof
        assume "lease r2 = Some l"
        with ok have "status r2 = Running" by (rule record_ok_running)
        with mv False \<open>lease r2 = Some l\<close> old(1) show False
          by (auto simp: record_moves_def lifecycle_simps)
      qed
      ultimately show ?thesis using old(2) by simp
    qed
  qed
  with reach r2 show ?case by blast
qed

text \<open>
  C6. A lost lease never comes back. While a task's record stays in the pool and its attempt
  counter has not saturated, a lease of a past attempt that the record no longer holds is not
  held in any later pool, whatever calls are made: a late result of a reclaimed or cancelled
  attempt cannot overwrite the current one.
\<close>

theorem stale_lease_stays_stale:
  assumes "pool_reach tw p" and "keeps_task tw (lease_task_id l) p q"
    and "fmlookup (tasks p) (lease_task_id l) = Some r" and "lease r \<noteq> Some l"
    and "lease_attempt_generation l \<le> attempt_generation r"
    and "fmlookup (tasks q) (lease_task_id l) = Some r'" and "attempt_generation r' \<noteq> u64_max"
  shows "\<not> holds_lease q l s"
  using stale_run [OF assms(2,1,3-5)] assms(6,7) by (auto simp: holds_lease_def)

text \<open>The sample task is deferred and claimed again; the first lease is dead.\<close>

definition sample_again :: "nat task_pool" where
  "sample_again = run_calls sample_writer
     [Claim sample_runner ''e'' 0 0 1 None (Some 2)]
     (snd (defer_leased sample_running sample_lease 1))"

theorem stale_lease_stays_stale_witness:
  "\<not> holds_lease sample_again sample_lease 1 \<and>
   map_option status (fmlookup (tasks sample_again) ''c'') = Some Running"
proof
  let ?p = "snd (defer_leased sample_running sample_lease 1)"
  let ?c = "Claim sample_runner ''e'' 0 0 1 None (Some 2)"
  have reach: "pool_reach sample_writer ?p"
    by (rule reach_call [OF sample_running_reach, of "DeferLeased sample_lease 1"]) simp_all
  have id: "lease_task_id sample_lease = ''c''" and adm: "admissible ?c ?p"
    by code_simp+
  have again: "sample_again = the (run_call sample_writer ?c ?p)"
    by (simp only: sample_again_def run_calls.simps)
  have "map_option (\<lambda>r. (lease r = None, attempt_generation r)) (fmlookup (tasks ?p) ''c'') = Some (True, 1)"
    by code_simp
  then obtain r where r: "fmlookup (tasks ?p) ''c'' = Some r" "lease r = None" "attempt_generation r = 1"
    by auto
  have "map_option attempt_generation (fmlookup (tasks sample_again) ''c'') = Some 2"
    by code_simp
  then obtain r' where r': "fmlookup (tasks sample_again) ''c'' = Some r'" "attempt_generation r' = 2"
    by auto
  have "keeps_task sample_writer ''c'' ?p sample_again"
    by (rule keep_call [OF keep_now adm]) (use run_call_the [OF reach adm] r'(1) again in
      \<open>simp_all add: fmdom'_lookup del: run_call.simps\<close>)
  then show "\<not> holds_lease sample_again sample_lease 1"
    by (intro stale_lease_stays_stale [OF reach, of sample_lease _ r r'])
      (use id r r' in \<open>simp_all add: sample_lease_def\<close>)
  show "map_option status (fmlookup (tasks sample_again) ''c'') = Some Running"
    by code_simp
qed

end
