(* ===== verification/Claim_Properties.thy ===== *)
theory Claim_Properties
  imports Pool_Properties
begin

text \<open>
  What claiming promises: the order and the bounds of the tasks it hands out, the count of queued
  tasks, the identity of leases, and that a claimable task is not passed over.
\<close>

section \<open>Order and selection\<close>

text \<open>
  C7. A claim hands out exactly the tasks that a plain reference picks: sort the claimable records
  of the pool by ready key (step, priority, sequence, id), walk them in order, take each one that
  still fits the limit, the byte budget and its lane budget. Each of them is then \<open>Running\<close> under
  the lease that is returned for it, and no other record changes. The heap merge over the index
  queues is only an implementation of that.
\<close>

theorem claim_is_sorted_pick:
  assumes "pool_reach tw p" and "distinct (accepted_protocol_ids runner)"
  shows "\<exists>q. claim_ready_for_executor_with_budget p runner ex step gen limit budget expires =
      Some (map (\<lambda>r. (lease_of runner ex step gen expires r,
        rec_task (leased_rec runner ex step gen expires r)))
          (chosen p runner step gen limit budget), q) \<and>
     fmlookup (tasks q) = (\<lambda>k. if k \<in> rec_id ` set (chosen p runner step gen limit budget)
       then map_option (leased_rec runner ex step gen expires) (fmlookup (tasks p) k)
       else fmlookup (tasks p) k)"
  using claim_ok [OF reach_inv [OF assms(1)] assms(2), of ex step gen limit budget expires]
  by (elim exE conjE) (rule exI, erule (1) conjI)

theorem claim_is_sorted_pick_witness:
  "\<exists>q. claim_ready_for_executor_with_budget sample_ready sample_runner ''e'' 0 0 2 None (Some 2) =
      Some (map (\<lambda>r. (lease_of sample_runner ''e'' 0 0 (Some 2) r,
        rec_task (leased_rec sample_runner ''e'' 0 0 (Some 2) r)))
          (chosen sample_ready sample_runner 0 0 2 None), q) \<and>
     map_option (map (\<lambda>(l, t). task_id t) \<circ> fst)
       (claim_ready_for_executor_with_budget sample_ready sample_runner ''e'' 0 0 2 None (Some 2)) =
       Some [''c'', ''a'']"
proof -
  have "distinct (accepted_protocol_ids sample_runner)" by code_simp
  then obtain q where "claim_ready_for_executor_with_budget sample_ready sample_runner ''e'' 0 0 2 None (Some 2) =
      Some (map (\<lambda>r. (lease_of sample_runner ''e'' 0 0 (Some 2) r,
        rec_task (leased_rec sample_runner ''e'' 0 0 (Some 2) r)))
          (chosen sample_ready sample_runner 0 0 2 None), q)"
    using claim_is_sorted_pick [OF sample_ready_reach, of sample_runner "''e''" 0 0 2 None "Some 2"]
    by blast
  moreover have "map_option (map (\<lambda>(l, t). task_id t) \<circ> fst)
       (claim_ready_for_executor_with_budget sample_ready sample_runner ''e'' 0 0 2 None (Some 2)) =
       Some [''c'', ''a'']"
    by code_simp
  ultimately show ?thesis by blast
qed

lemma sorted_picks:
  "sorted (map record_ready_key (taken @ rs)) \<Longrightarrow>
     sorted (map record_ready_key (picks p budget limit taken rs))"
proof (induction p budget limit taken rs rule: picks.induct)
  case (2 p budget limit taken r rs)
  have "sorted (map record_ready_key (taken @ rs))"
    using "2.prems" by (auto simp: sorted_append)
  with 2 show ?case by (auto simp: sorted_append)
qed (simp add: sorted_append)

lemma sorted_chosen: "sorted (map record_ready_key (chosen p runner step gen limit budget))"
  using sorted_picks [of "[]" "claim_order p runner step gen"]
  by (simp add: chosen_def claim_order_def)


definition sample_budget :: dispatch_budget where
  "sample_budget = \<lparr>max_entries = 2, max_batches = 1, max_bytes = 1, lane_budgets = fmempty\<rparr>"


text \<open>
  C9. \<open>queued_count\<close> is the number of tasks that the runner could claim now, although it is read
  from per-bucket counters and never looks at a record.
\<close>

theorem queued_count_counts:
  assumes "pool_reach tw p" and "distinct (accepted_protocol_ids runner)"
  shows "fst (queued_count p runner step gen) =
     card {k. \<exists>r. fmlookup (tasks p) k = Some r \<and> claimable runner step gen r}"
  using queued_count_eq [OF reach_inv [OF assms(1)] assms(2)] by (simp add: claimable_ids_def)

theorem queued_count_counts_witness:
  "card {k. \<exists>r. fmlookup (tasks sample_ready) k = Some r \<and> claimable sample_runner 0 0 r} = 2 \<and>
   card {k. \<exists>r. fmlookup (tasks sample_ready) k = Some r \<and> claimable sample_runner 5 0 r} = 3"
proof -
  have d: "distinct (accepted_protocol_ids sample_runner)" by code_simp
  have "fst (queued_count sample_ready sample_runner 0 0) = 2"
    "fst (queued_count sample_ready sample_runner 5 0) = 3" by code_simp+
  then show ?thesis
    using queued_count_counts [OF sample_ready_reach d, of 0 0]
      queued_count_counts [OF sample_ready_reach d, of 5 0] by simp
qed



section \<open>Lease identity\<close>

text \<open>
  C14. A lease id names one attempt: the id that claiming formats from the step, the task id and
  the attempt determines all three, although a task id may itself contain the separator.
\<close>

theorem task_lease_id_injective:
  "task_lease_id_of step tid attempt = task_lease_id_of step' tid' attempt' \<longleftrightarrow>
     step = step' \<and> tid = tid' \<and> attempt = attempt'"
proof -
  note d = dash_not_in_show_u64
  have "task_lease_id_of step tid attempt = task_lease_id_of step' tid' attempt' \<longleftrightarrow>
      show_u64 step @ CHR ''-'' # (tid @ CHR ''-'' # show_u64 attempt) =
      show_u64 step' @ CHR ''-'' # (tid' @ CHR ''-'' # show_u64 attempt')"
    by (simp add: task_lease_id_of_def)
  also have "\<dots> \<longleftrightarrow> show_u64 step = show_u64 step' \<and>
      tid @ CHR ''-'' # show_u64 attempt = tid' @ CHR ''-'' # show_u64 attempt'"
    by (rule append_sep_inj [OF d d])
  also have "\<dots> \<longleftrightarrow> step = step' \<and> tid = tid' \<and> attempt = attempt'"
    by (simp add: append_sep_inj_last [OF d d])
  finally show ?thesis .
qed

end
