(* ===== verification/History_Properties.thy ===== *)
theory History_Properties
  imports Pool_Properties
begin

text \<open>
  Time, history and awaits of the task pool: what a step of the clock wakes or reclaims, when the
  next step has work, what the retention of terminal records keeps, and how parents and the
  children they await stay linked.
\<close>

section \<open>The clock\<close>

text \<open>
  C15. \<open>reclaim_expired_task_leases\<close> returns each running lease whose expiry step has come,
  once, and makes exactly those tasks \<open>Ready\<close> again with no lease; it leaves every other record
  alone. It holds for every step up to \<open>u64::MAX\<close>.
\<close>

theorem reclaims_exactly_expired:
  assumes "pool_reach tw p"
  shows "\<exists>reclaimed q. reclaim_expired_task_leases p s = Some (reclaimed, q) \<and>
     distinct (map lease_task_id reclaimed) \<and>
     (\<forall>l. l \<in> set reclaimed \<longleftrightarrow>
        (\<exists>r. fmlookup (tasks p) (lease_task_id l) = Some r \<and> lease r = Some l) \<and>
        (\<exists>e. expires_at_step l = Some e \<and> e \<le> s)) \<and>
     (\<forall>k. fmlookup (tasks q) k =
        (if k \<in> lease_task_id ` set reclaimed then map_option (make_ready s) (fmlookup (tasks p) k)
         else fmlookup (tasks p) k))"
proof -
  obtain ls q where q: "reclaim_expired_task_leases p s = Some (ls, q)" "distinct (map lease_task_id ls)"
    "\<forall>l. l \<in> set ls \<longleftrightarrow> (\<exists>r. tab p (lease_task_id l) = Some r \<and> lease r = Some l) \<and> task_lease_expired l s"
    "tab q = make_ready_all s (lease_task_id ` set ls) (tab p)"
    using reclaim_ok [OF reach_inv [OF assms], of s] by (elim exE conjE) (rule that)
  have exp: "task_lease_expired l s \<longleftrightarrow> (\<exists>e. expires_at_step l = Some e \<and> e \<le> s)" for l
    by (simp add: task_lease_expired_def split: option.splits)
  show ?thesis
    using q(1,2) q(3) [unfolded exp] q(4)
    by (intro exI [of _ ls] exI [of _ q] conjI) (simp_all add: make_ready_all_def)
qed

theorem reclaims_exactly_expired_witness:
  "\<exists>reclaimed q. reclaim_expired_task_leases sample_running u64_max = Some (reclaimed, q) \<and>
     sample_lease \<in> set reclaimed"
proof -
  have "map_option (\<lambda>r. lease r = Some sample_lease) (fmlookup (tasks sample_running) ''c'') = Some True"
    and id: "lease_task_id sample_lease = ''c''" by code_simp+
  then obtain r where r: "fmlookup (tasks sample_running) ''c'' = Some r" "lease r = Some sample_lease"
    by auto
  have "\<exists>e. expires_at_step sample_lease = Some e \<and> e \<le> u64_max"
    by (simp add: sample_lease_def)
  with r id show ?thesis
    using reclaims_exactly_expired [OF sample_running_reach, of u64_max] by metis
qed

text \<open>
  C16. \<open>wake_due_tasks\<close> returns each waiting or blocked task whose wake step has come, with that
  step, once, and makes exactly those tasks \<open>Ready\<close>.
\<close>

theorem wakes_exactly_due:
  assumes "pool_reach tw p"
  shows "\<exists>due q. wake_due_tasks p s = Some (due, q) \<and> distinct (map fst due) \<and>
     (\<forall>k step. (k, step) \<in> set due \<longleftrightarrow>
        (\<exists>r. fmlookup (tasks p) k = Some r \<and> (status r = Waiting \<or> status r = Blocked) \<and>
           ready_at_step (rec_task r) = Some step \<and> step \<le> s)) \<and>
     (\<forall>k. fmlookup (tasks q) k =
        (if k \<in> fst ` set due then map_option (make_ready s) (fmlookup (tasks p) k)
         else fmlookup (tasks p) k))"
proof -
  obtain due q where q: "wake_due_tasks p s = Some (due, q)" "distinct (map fst due)"
    "\<forall>k step. (k, step) \<in> set due \<longleftrightarrow> (\<exists>r. tab p k = Some r \<and> (status r = Waiting \<or> status r = Blocked) \<and>
       ready_at_step (rec_task r) = Some step \<and> step \<le> s)"
    "tab q = make_ready_all s (fst ` set due) (tab p)"
    using wake_due_tasks_ok [OF reach_inv [OF assms], of s] by (elim exE conjE) (rule that)
  show ?thesis
    using q by (intro exI [of _ due] exI [of _ q] conjI) (simp_all add: make_ready_all_def)
qed

theorem wakes_exactly_due_witness:
  "\<exists>due q. wake_due_tasks sample_waiting 4 = Some (due, q) \<and> (''c'', 4) \<in> set due"
proof -
  have "map_option (\<lambda>r. (status r, ready_at_step (rec_task r))) (fmlookup (tasks sample_waiting) ''c'') =
      Some (Waiting, Some 4)" by code_simp
  then obtain r where r: "fmlookup (tasks sample_waiting) ''c'' = Some r" "status r = Waiting"
    "ready_at_step (rec_task r) = Some 4" by auto
  then show ?thesis
    using wakes_exactly_due [OF sample_waiting_reach, of 4] by (metis order_refl)
qed

text \<open>The steps at which some record has to be looked at again.\<close>

definition alarm :: "'v task_record \<Rightarrow> u64 \<Rightarrow> bool" where
  "alarm r step \<longleftrightarrow>
     (status r \<in> {Ready, Waiting, Blocked} \<and> ready_at_step (rec_task r) = Some step) \<or>
     (\<exists>l. lease r = Some l \<and> expires_at_step l = Some step)"

definition is_next :: "u64 \<Rightarrow> u64 set \<Rightarrow> u64 option \<Rightarrow> bool" where
  "is_next s A o' \<longleftrightarrow>
     (case o' of
        None \<Rightarrow> \<forall>x \<in> A. x \<le> s
      | Some n \<Rightarrow> n \<in> A \<and> s < n \<and> (\<forall>x \<in> A. s < x \<longrightarrow> n \<le> x))"

lemma is_next_union:
  assumes "is_next s A a" and "is_next s B b"
  shows "is_next s (A \<union> B) (min_opt a b)"
  using assms
  by (cases a; cases b) (auto simp: is_next_def min_opt_def min_def not_le intro: order_trans less_imp_le
      dest: leD)

lemma is_next_bucket:
  assumes "mv.tracks ent m T"
  shows "is_next s {step. \<exists>k r tid. T k = Some r \<and> ent r = Some (step, tid)} (next_bucket_after m s)"
proof -
  have ne: "no_empty m" and mem: "bucket_mem m e \<longleftrightarrow> (\<exists>k r. T k = Some r \<and> ent r = Some e)" for e
    using assms unfolding mv.tracks_def by blast+
  have A: "{step. \<exists>k r tid. T k = Some r \<and> ent r = Some (step, tid)} = {step. \<exists>tid. bucket_mem m (step, tid)}"
    using mem by blast
  have "is_next s {step. \<exists>tid. bucket_mem m (step, tid)} (next_bucket_after m s)"
  proof (cases "next_bucket_after m s")
    case None
    then show ?thesis
      using next_bucket_after_None [OF ne, of s] by (auto simp: is_next_def)
  next
    case (Some n)
    then show ?thesis
      using next_bucket_after_Some [OF ne, of s n] by (auto simp: is_next_def)
  qed
  then show ?thesis by (simp only: A)
qed

lemma alarm_entries:
  assumes "record_ok r"
  shows "alarm r step \<longleftrightarrow> (\<exists>tid. step_entry r = Some (step, tid)) \<or> (\<exists>tid. wake_entry r = Some (step, tid)) \<or>
     (\<exists>tid. lease_entry r = Some (step, tid))"
  using assms
  by (cases "lease r") (auto simp: alarm_def step_entry_def wake_entry_def lease_entry_def record_ok_def)

text \<open>
  C17. \<open>next_required_step_after\<close> is the earliest future step at which some task becomes ready,
  is to be woken, or loses its lease, and \<open>None\<close> exactly when there is none: a clock that jumps to
  it skips no work.
\<close>

theorem next_required_step_is_earliest:
  assumes "pool_reach tw p"
  shows "case next_required_step_after p s of
     None \<Rightarrow> \<forall>k r step. fmlookup (tasks p) k = Some r \<and> alarm r step \<longrightarrow> step \<le> s
   | Some n \<Rightarrow> s < n \<and> (\<exists>k r. fmlookup (tasks p) k = Some r \<and> alarm r n) \<and>
       (\<forall>k r step. fmlookup (tasks p) k = Some r \<and> alarm r step \<and> s < step \<longrightarrow> n \<le> step)"
proof -
  note inv = reach_inv [OF assms]
  have tr: "mv.tracks step_entry (ready_by_step (indexes p)) (tab p)"
    "mv.tracks wake_entry (wake_by_step (indexes p)) (tab p)"
    "mv.tracks lease_entry (leases_by_expiry (indexes p)) (tab p)"
    using inv by (simp_all add: pool_inv_def core_inv_def ix_ok_def)
  let ?A = "\<lambda>ent. {step. \<exists>k r tid. tab p k = Some r \<and> ent r = Some (step, tid)}"
  have "?A step_entry \<union> ?A wake_entry \<union> ?A lease_entry = {step. \<exists>k r. tab p k = Some r \<and> alarm r step}"
  proof (rule set_eqI)
    fix step
    have "step \<in> ?A step_entry \<union> ?A wake_entry \<union> ?A lease_entry \<longleftrightarrow>
        (\<exists>k r. tab p k = Some r \<and> ((\<exists>tid. step_entry r = Some (step, tid)) \<or>
          (\<exists>tid. wake_entry r = Some (step, tid)) \<or> (\<exists>tid. lease_entry r = Some (step, tid))))"
      by blast
    also have "\<dots> \<longleftrightarrow> (\<exists>k r. tab p k = Some r \<and> alarm r step)"
      by (intro ex_cong1 conj_cong refl alarm_entries [symmetric]) (rule pool_inv_record_ok [OF inv])
    finally show "step \<in> ?A step_entry \<union> ?A wake_entry \<union> ?A lease_entry \<longleftrightarrow>
        step \<in> {step. \<exists>k r. tab p k = Some r \<and> alarm r step}" by simp
  qed
  then have "is_next s {step. \<exists>k r. tab p k = Some r \<and> alarm r step} (next_required_step_after p s)"
    unfolding next_required_step_after_def
    using is_next_union [OF is_next_union [OF is_next_bucket [OF tr(1)] is_next_bucket [OF tr(2)]]
        is_next_bucket [OF tr(3)], of s] by simp
  then show ?thesis
    by (cases "next_required_step_after p s") (auto simp: is_next_def)
qed

theorem next_required_step_is_earliest_witness:
  "next_required_step_after sample_waiting 0 = Some 4 \<and>
   (\<exists>k r. fmlookup (tasks sample_waiting) k = Some r \<and> alarm r 4)"
proof -
  have n: "next_required_step_after sample_waiting 0 = Some 4" by code_simp
  show ?thesis
    using next_required_step_is_earliest [OF sample_waiting_reach, of 0] by (simp add: n)
qed

section \<open>Accounting\<close>

lemma terminal_iff:
  "is_terminal_status st \<longleftrightarrow> st = Completed \<or> st = Failed \<or> st = Cancelled \<or> st = Expired \<or> st = DeadLetter"
  by (cases st) (simp_all add: is_terminal_status_def)

text \<open>
  C18. The status counters count: until the pool has seen \<open>u64::MAX\<close> submissions, each one is the
  number of stored records in that status, and \<open>retained_terminal_records\<close> is the number of stored
  terminal records.
\<close>

theorem statistics_count_records:
  assumes "pool_reach tw p" and "submitted_total (statistics p) \<noteq> u64_max"
  shows "(\<forall>st. st \<noteq> Created \<longrightarrow> counter st (statistics p) =
       card {k. \<exists>r. fmlookup (tasks p) k = Some r \<and> status r = st}) \<and>
     retained_terminal_records p =
       card {k. \<exists>r. fmlookup (tasks p) k = Some r \<and> is_terminal_status (status r)}"
proof
  have cnt: "counter st (statistics p) = card (ids_with st (tab p))" if "st \<noteq> Created" for st
    using reach_inv [OF assms(1)] assms(2) that by (simp add: pool_inv_def core_inv_def stats_ok_def)
  then show "\<forall>st. st \<noteq> Created \<longrightarrow> counter st (statistics p) =
       card {k. \<exists>r. tab p k = Some r \<and> status r = st}"
    by (simp add: ids_with_def)
  let ?S = "\<lambda>st. ids_with st (tab p)"
  have fin: "finite (?S st)" for st
    by (rule finite_ids_with) simp
  have dis: "st \<noteq> st' \<Longrightarrow> ?S st \<inter> ?S st' = {}" for st st'
    by (auto simp: ids_with_def)
  have "{k. \<exists>r. tab p k = Some r \<and> is_terminal_status (status r)} =
      ?S Completed \<union> ?S Failed \<union> ?S Cancelled \<union> ?S Expired \<union> ?S DeadLetter"
    by (auto simp: ids_with_def terminal_iff)
  also have "card \<dots> = card (?S Completed) + card (?S Failed) + card (?S Cancelled) + card (?S Expired) +
      card (?S DeadLetter)"
    by (simp add: card_Un_disjoint fin dis Int_Un_distrib2)
  also have "\<dots> = retained_terminal_records p"
    using cnt [of Completed] cnt [of Failed] cnt [of Cancelled] cnt [of Expired] cnt [of DeadLetter]
    by (simp add: retained_terminal_records_def)
  finally show "retained_terminal_records p =
      card {k. \<exists>r. tab p k = Some r \<and> is_terminal_status (status r)}" by (rule sym)
qed

lemma sample_unsaturated: "submitted_total (statistics sample_waiting) \<noteq> u64_max"
proof -
  have "submitted_total (statistics sample_waiting) = 3" by code_simp
  then show ?thesis by simp
qed

theorem statistics_count_records_witness:
  "st_waiting (statistics sample_waiting) = 1 \<and>
   card {k. \<exists>r. fmlookup (tasks sample_waiting) k = Some r \<and> status r = Waiting} = 1"
proof -
  have "st_waiting (statistics sample_waiting) = 1" by code_simp
  then show ?thesis
    using conjunct1 [OF statistics_count_records [OF sample_waiting_reach sample_unsaturated], rule_format, of Waiting] by simp
qed

section \<open>History\<close>


definition sample_retaining :: "nat task_pool" where
  "sample_retaining = run_calls sample_writer
     [ConfigureRetention (Some \<lparr>max_terminal_records = 0, max_evicted_task_ids = 4\<rparr>)] sample_running"


section \<open>Submission\<close>





section \<open>Awaits\<close>

definition sample_await :: task_await where
  "sample_await =
     \<lparr>parent_task_id = ''c'',
      await_child = \<lparr>h_task_id = ''a'', h_protocol_id = ''x'', h_target_binding_id = None,
        h_cancel_policy = Cascade, h_trace_id = None, h_correlation_id = None\<rparr>,
      await_continuation = \<lparr>continuation =
          \<lparr>ref_id = ''k'', resource_ident = \<lparr>kind_id = ''k'', slot_id = ''0'', rid_generation = 0, rid_version = 0\<rparr>,
           semantic = FrozenValue, provider_id = ''p'', resource_kind = ''k'', schema = ''s'', version = 0,
           generation = 0, access = Inline, size_hint = None, content_hash = None, lifetime = Persistent,
           ref_lease = None, seal_state = Sealed\<rparr>, wake_cond = None, wake_reason = None\<rparr>,
      await_cancel_policy = Cascade\<rparr>"

definition sample_awaiting :: "nat task_pool" where
  "sample_awaiting = run_calls sample_writer [WaitOnTask sample_lease 0 sample_await] sample_running"

text \<open>
  C22. The two await tables agree in every reachable pool. A task that someone awaits is stored
  (eviction never takes it), each recorded await of it names a parent that is \<open>Waiting\<close> and has
  this await as its only one, and a parent's await is listed under its child; so resolving the
  child finds every parent, and no parent waits on a child that was forgotten.
\<close>

theorem awaits_agree:
  assumes "pool_reach tw p"
  shows "(\<forall>c ws. fmlookup (waits_by_child p) c = Some ws \<longrightarrow>
       ws \<noteq> [] \<and> c \<in> fmdom' (tasks p) \<and>
       (\<forall>w \<in> set ws. await_child_id w = c \<and> awaits_for_parent p (parent_task_id w) = [w] \<and>
          (\<exists>r. fmlookup (tasks p) (parent_task_id w) = Some r \<and> status r = Waiting))) \<and>
     (\<forall>k ws. fmlookup (waits_by_parent p) k = Some ws \<longrightarrow>
       (\<exists>w. ws = [w] \<and> parent_task_id w = k \<and>
          w \<in> set (fm_get_or [] (waits_by_child p) (await_child_id w))))"
proof -
  have wi: "wait_inv {} p"
    using reach_inv [OF assms] by (simp add: pool_inv_def)
  have parents: "\<exists>w cs. ws = [w] \<and> parent_task_id w = k \<and>
      fmlookup (waits_by_child p) (await_child_id w) = Some cs \<and> w \<in> set cs"
    if "fmlookup (waits_by_parent p) k = Some ws" for k ws
    using wi that unfolding wait_inv_def by blast
  have children: "cs \<noteq> []" "c \<in> dom (tab p)" "\<forall>w \<in> set cs. await_child_id w = c \<and>
      fmlookup (waits_by_parent p) (parent_task_id w) = Some [w]"
    if "fmlookup (waits_by_child p) c = Some cs" for c cs
    using wi that unfolding wait_inv_def by blast+
  have waiting: "\<exists>r. tab p k = Some r \<and> status r = Waiting" if "fmlookup (waits_by_parent p) k = Some ws" for k ws
    using wi fmdom'I [OF that] unfolding wait_inv_def by blast
  have "ws \<noteq> [] \<and> c \<in> fmdom' (tasks p) \<and>
       (\<forall>w \<in> set ws. await_child_id w = c \<and> awaits_for_parent p (parent_task_id w) = [w] \<and>
          (\<exists>r. tab p (parent_task_id w) = Some r \<and> status r = Waiting))"
    if c: "fmlookup (waits_by_child p) c = Some ws" for c ws
    using children [OF c] waiting by (auto simp: awaits_for_parent_def fm_get_or_def fmdom'_lookup)
  moreover have "\<exists>w. ws = [w] \<and> parent_task_id w = k \<and> w \<in> set (fm_get_or [] (waits_by_child p) (await_child_id w))"
    if "fmlookup (waits_by_parent p) k = Some ws" for k ws
    using parents [OF that] by (auto simp: fm_get_or_def)
  ultimately show ?thesis by blast
qed

theorem awaits_agree_witness:
  "fmlookup (waits_by_child sample_awaiting) ''a'' = Some [sample_await] \<and> ''a'' \<in> fmdom' (tasks sample_awaiting)"
proof -
  have reach: "pool_reach sample_writer sample_awaiting"
    unfolding sample_awaiting_def run_calls.simps by (intro reach_step sample_running_reach) simp
  have "fmlookup (waits_by_child sample_awaiting) ''a'' = Some [sample_await]" by code_simp
  then show ?thesis
    using awaits_agree [OF reach] by blast
qed

end
