(* ===== verification/Observability.thy ===== *)
theory Observability
  imports Contracts
begin

text \<open>
  Bounded event and trace logs, \<open>crates/mutsuki-runtime-core/src/logs.rs\<close>, and the closure check of
  a trace, \<open>crates/mutsuki-runtime-core/src/trace.rs\<close>, with the types of
  \<open>crates/mutsuki-runtime-contracts/src/event.rs\<close>, \<open>trace.rs\<close> and \<open>observability.rs\<close>.

  A log numbers every record, keeps at most its capacity of them and counts what it drops. The
  locale \<open>sequenced_log\<close> is the contract of a client: the record that it builds for a number
  carries that number. The event log and the trace log both interpret it.

  An \<open>f64\<close> is the number it stands for, an infinity or \<open>NaN\<close>; \<open>as f64\<close> rounds to 53 bits, ties to
  even.
\<close>

section \<open>Events, spans and profiles\<close>

datatype runtime_event_kind =
    KLifecycle | KPlugin | KResource | KTrace | KHost | KTask | KRunner | KState | KEffect | KReload

record runtime_event =
  ev_sequence :: u64
  ev_kind :: runtime_event_kind
  ev_name :: string
  ev_subject_id :: "string option"
  ev_attributes :: "(string, scalar_value) fmap"
  ev_error :: "runtime_error option"

datatype f64 = Finite rat | PosInf | NegInf | NaN

fun f64_less :: "f64 \<Rightarrow> f64 \<Rightarrow> bool" where
  "f64_less NaN y = False"
| "f64_less x NaN = False"
| "f64_less (Finite x) (Finite y) = (x < y)"
| "f64_less NegInf y = (y \<noteq> NegInf)"
| "f64_less x NegInf = False"
| "f64_less PosInf y = False"
| "f64_less x PosInf = True"

fun bit_length :: "nat \<Rightarrow> nat" where
  "bit_length n = (if n = 0 then 0 else Suc (bit_length (n div 2)))"

declare bit_length.simps [simp del]

definition round53 :: "nat \<Rightarrow> nat" where
  "round53 n =
     (let k = bit_length n - 53; q = n div 2 ^ k; r = 2 * (n mod 2 ^ k)
      in (if r > 2 ^ k \<or> (r = 2 ^ k \<and> odd q) then q + 1 else q) * 2 ^ k)"

definition u64_as_f64 :: "u64 \<Rightarrow> f64" where
  "u64_as_f64 n = Finite (of_nat (round53 (unat n)))"

datatype span_status = SpanOk | SpanError

record trace_span =
  sp_sequence :: u64
  sp_trace_id :: string
  span_id :: string
  parent_span_id :: "string option"
  sp_name :: string
  sp_start :: f64
  sp_end :: "f64 option"
  sp_attributes :: "(string, scalar_value) fmap"
  sp_status :: span_status

datatype overflow_policy = DropOldest | DropNew

record outlet_profile =
  capacity :: nat
  overflow_policy :: overflow_policy

definition DEFAULT_EVENT_CAPACITY :: nat where
  "DEFAULT_EVENT_CAPACITY = 4096"

definition DEFAULT_TRACE_CAPACITY :: nat where
  "DEFAULT_TRACE_CAPACITY = 4096"

record observability_profile =
  prof_events :: outlet_profile
  prof_traces :: outlet_profile
  detailed_scheduler_decisions :: bool
  dispatch_spans :: bool

definition observability_profile_default :: observability_profile where
  "observability_profile_default =
     \<lparr>prof_events = \<lparr>capacity = DEFAULT_EVENT_CAPACITY, overflow_policy = DropNew\<rparr>,
      prof_traces = \<lparr>capacity = DEFAULT_TRACE_CAPACITY, overflow_policy = DropOldest\<rparr>,
      detailed_scheduler_decisions = False, dispatch_spans = False\<rparr>"

record 'a observability_page =
  page_items :: "'a list"
  page_next_sequence :: u64
  earliest_available_sequence :: "u64 option"
  latest_sequence :: u64
  lost :: u64
  truncated :: bool
  page_dropped :: u64

definition cursor_lost :: "'a observability_page \<Rightarrow> bool" where
  "cursor_lost page \<longleftrightarrow> lost page > 0"

section \<open>Bounded logs\<close>

record 'a bounded_log =
  log_records :: "'a list"
  log_next_sequence :: u64
  log_profile :: outlet_profile
  log_dropped :: u64

definition log_new :: "outlet_profile \<Rightarrow> 'a bounded_log" where
  "log_new profile =
     \<lparr>log_records = [], log_next_sequence = 0, log_profile = profile, log_dropped = 0\<rparr>"

text \<open>\<open>configure\<close> drops records until the new capacity holds the rest; shrinking gives memory back.\<close>

function log_shrink :: "'a bounded_log \<Rightarrow> 'a bounded_log" where
  "log_shrink l =
     (if capacity (log_profile l) < length (log_records l) then
        log_shrink (l\<lparr>log_records :=
            (case overflow_policy (log_profile l) of
               DropOldest \<Rightarrow> tl (log_records l) | DropNew \<Rightarrow> butlast (log_records l)),
          log_dropped := sat_add (log_dropped l) 1\<rparr>)
      else l)"
  by pat_completeness auto
termination
  by (relation "measure (\<lambda>l. length (log_records l))") (auto split: overflow_policy.splits)

declare log_shrink.simps [simp del]

definition log_configure :: "'a bounded_log \<Rightarrow> outlet_profile \<Rightarrow> 'a bounded_log" where
  "log_configure l profile = log_shrink (l\<lparr>log_profile := profile\<rparr>)"

definition log_set_capacity :: "'a bounded_log \<Rightarrow> nat \<Rightarrow> 'a bounded_log" where
  "log_set_capacity l cap =
     log_configure l \<lparr>capacity = cap, overflow_policy = overflow_policy (log_profile l)\<rparr>"

definition log_advance :: "'a bounded_log \<Rightarrow> u64 \<times> 'a bounded_log" where
  "log_advance l =
     (let n = sat_add (log_next_sequence l) 1 in (n, l\<lparr>log_next_sequence := n\<rparr>))"

definition is_enabled :: "'a bounded_log \<Rightarrow> bool" where
  "is_enabled l \<longleftrightarrow> capacity (log_profile l) > 0"

definition will_retain_next :: "'a bounded_log \<Rightarrow> bool" where
  "will_retain_next l \<longleftrightarrow>
     is_enabled l \<and> (length (log_records l) < capacity (log_profile l) \<or>
       overflow_policy (log_profile l) = DropOldest)"

definition make_room :: "'a bounded_log \<Rightarrow> bool \<times> 'a bounded_log" where
  "make_room l =
     (if \<not> will_retain_next l then (False, l\<lparr>log_dropped := sat_add (log_dropped l) 1\<rparr>)
      else if length (log_records l) = capacity (log_profile l) then
        (True, l\<lparr>log_records := tl (log_records l), log_dropped := sat_add (log_dropped l) 1\<rparr>)
      else (True, l))"

definition log_retain :: "'a bounded_log \<Rightarrow> 'a \<Rightarrow> 'a bounded_log" where
  "log_retain l r =
     (let (room, l1) = make_room l
      in if room then l1\<lparr>log_records := log_records l1 @ [r]\<rparr> else l1)"

definition log_record_with :: "'a bounded_log \<Rightarrow> (u64 \<Rightarrow> 'a) \<Rightarrow> 'a option \<times> 'a bounded_log" where
  "log_record_with l build =
     (let (n, l1) = log_advance l
      in if \<not> will_retain_next l1 then (None, l1\<lparr>log_dropped := sat_add (log_dropped l1) 1\<rparr>)
         else (Some (build n), log_retain l1 (build n)))"

definition log_page_after ::
  "('a \<Rightarrow> u64) \<Rightarrow> 'a bounded_log \<Rightarrow> u64 \<Rightarrow> nat \<Rightarrow> 'a observability_page" where
  "log_page_after item_sequence l cursor limit =
     (let items = take limit (filter (\<lambda>r. item_sequence r > cursor) (log_records l));
          nxt = (if limit = 0 then cursor
                 else if items = [] then max cursor (log_next_sequence l)
                 else item_sequence (last items))
      in \<lparr>page_items = items, page_next_sequence = nxt,
          earliest_available_sequence =
            (case log_records l of [] \<Rightarrow> None | r # _ \<Rightarrow> Some (item_sequence r)),
          latest_sequence = log_next_sequence l,
          lost = (if limit = 0 then 0 else sat_sub (sat_sub nxt cursor) (of_nat (length items))),
          truncated = log_next_sequence l > nxt,
          page_dropped = log_dropped l\<rparr>)"

definition log_drain :: "'a bounded_log \<Rightarrow> 'a list \<times> 'a bounded_log" where
  "log_drain l = (log_records l, l\<lparr>log_records := []\<rparr>)"

section \<open>The event log and the trace log\<close>

type_synonym event_log = "runtime_event bounded_log"
type_synonym trace_log = "trace_span bounded_log"

definition event_log_default :: event_log where
  "event_log_default = log_new \<lparr>capacity = DEFAULT_EVENT_CAPACITY, overflow_policy = DropNew\<rparr>"

definition build_event ::
  "runtime_event_kind \<times> string \<times> string option \<times> (string, scalar_value) fmap \<times> runtime_error option
     \<Rightarrow> u64 \<Rightarrow> runtime_event" where
  "build_event args n =
     (case args of (kind, name, subject, attributes, err) \<Rightarrow>
        \<lparr>ev_sequence = n, ev_kind = kind, ev_name = name, ev_subject_id = subject,
         ev_attributes = attributes, ev_error = err\<rparr>)"

definition event_record ::
  "event_log \<Rightarrow> runtime_event_kind \<Rightarrow> string \<Rightarrow> string option \<Rightarrow> (string, scalar_value) fmap
     \<Rightarrow> runtime_error option \<Rightarrow> runtime_event option \<times> event_log" where
  "event_record l kind name subject attributes err =
     log_record_with l (build_event (kind, name, subject, attributes, err))"

definition event_page_after :: "event_log \<Rightarrow> u64 \<Rightarrow> nat \<Rightarrow> runtime_event observability_page" where
  "event_page_after = log_page_after ev_sequence"

definition trace_log_default :: trace_log where
  "trace_log_default = log_new \<lparr>capacity = DEFAULT_TRACE_CAPACITY, overflow_policy = DropOldest\<rparr>"

definition trace_with_capacity :: "nat \<Rightarrow> trace_log" where
  "trace_with_capacity cap = log_new \<lparr>capacity = cap, overflow_policy = DropOldest\<rparr>"

definition build_span ::
  "string \<times> string \<times> string option \<times> span_status \<times> (string, scalar_value) fmap \<Rightarrow> u64 \<Rightarrow> trace_span" where
  "build_span args n =
     (case args of (trace, name, parent, status, attributes) \<Rightarrow>
        \<lparr>sp_sequence = n, sp_trace_id = trace, span_id = ''span-'' @ show_u64 n,
         parent_span_id = parent, sp_name = name, sp_start = u64_as_f64 n,
         sp_end = Some (u64_as_f64 n), sp_attributes = attributes, sp_status = status\<rparr>)"

definition trace_record ::
  "trace_log \<Rightarrow> string \<Rightarrow> string \<Rightarrow> string option \<Rightarrow> span_status \<Rightarrow> (string, scalar_value) fmap
     \<Rightarrow> trace_span option \<times> trace_log" where
  "trace_record l trace name parent status attributes =
     log_record_with l (build_span (trace, name, parent, status, attributes))"

definition trace_page_after :: "trace_log \<Rightarrow> u64 \<Rightarrow> nat \<Rightarrow> trace_span observability_page" where
  "trace_page_after = log_page_after sp_sequence"

section \<open>Closure of a trace\<close>

datatype trace_closure_issue =
    DuplicateSpanId string
  | MissingParent string string
  | ParentTraceMismatch string string
  | InvalidInterval string

definition scan_span ::
  "trace_span \<Rightarrow> trace_closure_issue list \<times> string fset \<times> (string, trace_span) fmap
     \<Rightarrow> trace_closure_issue list \<times> string fset \<times> (string, trace_span) fmap" where
  "scan_span span st =
     (case st of (issues, seen, by_span_id) \<Rightarrow>
        (issues @ (if span_id span |\<in>| seen then [DuplicateSpanId (span_id span)] else []) @
           (case sp_end span of
              Some e \<Rightarrow> if f64_less e (sp_start span) then [InvalidInterval (span_id span)] else []
            | None \<Rightarrow> []),
         finsert (span_id span) seen,
         (case fmlookup by_span_id (span_id span) of
            None \<Rightarrow> fmupd (span_id span) span by_span_id | Some _ \<Rightarrow> by_span_id)))"

definition parent_issues :: "(string, trace_span) fmap \<Rightarrow> trace_span \<Rightarrow> trace_closure_issue list" where
  "parent_issues by_span_id span =
     (case parent_span_id span of
        None \<Rightarrow> []
      | Some parent_id \<Rightarrow>
          (case fmlookup by_span_id parent_id of
             None \<Rightarrow> [MissingParent (span_id span) parent_id]
           | Some parent \<Rightarrow>
               if sp_trace_id parent \<noteq> sp_trace_id span
               then [ParentTraceMismatch (span_id span) parent_id] else []))"

definition validate_trace_closure :: "trace_span list \<Rightarrow> trace_closure_issue list" where
  "validate_trace_closure spans =
     (case fold scan_span spans ([], {||}, fmempty) of
        (issues, seen, by_span_id) \<Rightarrow> issues @ concat (map (parent_issues by_span_id) spans))"

end
