(* ===== verification/Log_Properties.thy ===== *)
theory Log_Properties
  imports Observability
begin

text \<open>
  What the bounded logs promise: capacity, numbering, an exact account of what was dropped, and
  pages from which a reader that follows the cursor gets every retained record once and learns how
  many it missed. The account is proved once for every client of a log in the locale
  \<open>sequenced_log\<close>.
\<close>

section \<open>The invariant of a log\<close>

text \<open>
  \<open>taken\<close> counts the records that were drained. The account is exact below the saturation of the
  counters, that is for fewer than \<open>u64::MAX\<close> records.
\<close>

definition log_ok :: "('a \<Rightarrow> u64) \<Rightarrow> nat \<Rightarrow> 'a bounded_log \<Rightarrow> bool" where
  "log_ok item_sequence taken l \<longleftrightarrow>
     length (log_records l) \<le> capacity (log_profile l) \<and>
     sorted_wrt (<) (map item_sequence (log_records l)) \<and>
     (\<forall>r \<in> set (log_records l). 0 < item_sequence r \<and> item_sequence r \<le> log_next_sequence l) \<and>
     unat (log_next_sequence l) = length (log_records l) + unat (log_dropped l) + taken"

lemma log_ok_new: "log_ok sq 0 (log_new profile)"
  by (simp add: log_ok_def log_new_def)

lemma unat_sat_add_one: "unat a < 2 ^ 64 - 1 \<Longrightarrow> unat (sat_add a 1) = unat a + 1"
  by (simp add: unat_sat_add)

lemma sorted_tl_butlast:
  "sorted_wrt P (map f xs) \<Longrightarrow> sorted_wrt P (map f (tl xs))"
  "sorted_wrt P (map f xs) \<Longrightarrow> sorted_wrt P (map f (butlast xs))"
  by (cases xs) (simp_all add: butlast_conv_take sorted_wrt_take flip: take_map)

lemma in_set_tlD: "x \<in> set (tl xs) \<Longrightarrow> x \<in> set xs"
  by (cases xs) simp_all

definition log_sound :: "('a \<Rightarrow> u64) \<Rightarrow> nat \<Rightarrow> 'a bounded_log \<Rightarrow> bool" where
  "log_sound sq taken l \<longleftrightarrow>
     sorted_wrt (<) (map sq (log_records l)) \<and>
     (\<forall>r \<in> set (log_records l). 0 < sq r \<and> sq r \<le> log_next_sequence l) \<and>
     unat (log_next_sequence l) = length (log_records l) + unat (log_dropped l) + taken"

lemma log_shrink_ok:
  assumes "log_sound sq taken l"
  shows "log_ok sq taken (log_shrink l) \<and> log_profile (log_shrink l) = log_profile l \<and>
     log_next_sequence (log_shrink l) = log_next_sequence l"
  using assms
proof (induction l rule: log_shrink.induct)
  case (1 l)
  show ?case
  proof (cases "capacity (log_profile l) < length (log_records l)")
    case False
    with "1.prems" show ?thesis
      by (simp add: log_shrink.simps [of l] log_ok_def log_sound_def)
  next
    case True
    let ?rs = "case overflow_policy (log_profile l) of
        DropOldest \<Rightarrow> tl (log_records l) | DropNew \<Rightarrow> butlast (log_records l)"
    let ?l = "l\<lparr>log_records := ?rs, log_dropped := sat_add (log_dropped l) 1\<rparr>"
    have len: "length ?rs = length (log_records l) - 1" and sub: "set ?rs \<subseteq> set (log_records l)"
      and srt: "sorted_wrt (<) (map sq ?rs)"
      using "1.prems" by (auto simp: log_sound_def sorted_tl_butlast in_set_butlastD
          dest: in_set_tlD split: overflow_policy.splits)
    have "unat (log_dropped l) < 2 ^ 64 - 1"
      using "1.prems" True unat_u64_less [of "log_next_sequence l"] by (simp add: log_sound_def)
    then have "log_sound sq taken ?l"
      using "1.prems" len sub srt True by (auto simp: log_sound_def unat_sat_add_one)
    with "1.IH" [OF True] True show ?thesis
      by (simp add: log_shrink.simps [of l])
  qed
qed

lemma log_configure_ok:
  "log_ok sq taken l \<Longrightarrow> log_ok sq taken (log_configure l profile)"
  unfolding log_configure_def
  by (rule conjunct1 [OF log_shrink_ok]) (simp add: log_ok_def log_sound_def)

lemma log_set_capacity_ok: "log_ok sq taken l \<Longrightarrow> log_ok sq taken (log_set_capacity l cap)"
  by (simp add: log_set_capacity_def log_configure_ok)

lemma log_drain_ok:
  "log_ok sq taken l \<Longrightarrow> log_ok sq (taken + length (fst (log_drain l))) (snd (log_drain l))"
  by (simp add: log_drain_def log_ok_def)

section \<open>Clients\<close>

locale sequenced_log =
  fixes item_sequence :: "'a \<Rightarrow> u64" and build :: "'b \<Rightarrow> u64 \<Rightarrow> 'a"
  assumes sequence_build: "item_sequence (build b n) = n"
begin

lemma recorded_ok:
  assumes ok: "log_ok item_sequence taken l" and room: "log_next_sequence l \<noteq> u64_max"
  shows "log_ok item_sequence taken (snd (log_record_with l (build b)))"
proof -
  define n where "n = sat_add (log_next_sequence l) 1"
  have lt: "log_next_sequence l < n" and "unat (log_next_sequence l) < 2 ^ 64 - 1"
    using sat_add_one_gt [OF room] room unat_u64_less [of "log_next_sequence l"] unat_u64_max
    by (auto simp: n_def word_unat_eq_iff simp flip: unat_u64_max)
  then have n: "unat n = unat (log_next_sequence l) + 1"
    and d: "unat (sat_add (log_dropped l) 1) = unat (log_dropped l) + 1"
    using ok by (simp_all add: n_def unat_sat_add_one log_ok_def)
  have old: "\<forall>r \<in> set (log_records l). 0 < item_sequence r \<and> item_sequence r < n"
    using ok lt by (auto simp: log_ok_def)
  have new: "0 < n"
    using lt by (metis word_gt_0 word_not_simps(1))
  show ?thesis
    using ok n d old new lt
    by (auto simp: log_record_with_def log_advance_def log_retain_def make_room_def
        will_retain_next_def is_enabled_def log_ok_def Let_def n_def [symmetric] sequence_build
        sorted_wrt_append sorted_tl_butlast dest!: in_set_tlD dest: less_imp_le
        split: if_splits)
qed

end

interpretation ev: sequenced_log ev_sequence build_event
  by unfold_locales (simp add: build_event_def split: prod.splits)

interpretation sp: sequenced_log sp_sequence build_span
  by unfold_locales (simp add: build_span_def split: prod.splits)

section \<open>Pages\<close>

lemma page_simps:
  "page_items (log_page_after sq l c limit) = take limit (filter (\<lambda>r. sq r > c) (log_records l))"
  "page_next_sequence (log_page_after sq l c limit) =
     (if limit = 0 then c
      else if take limit (filter (\<lambda>r. sq r > c) (log_records l)) = [] then max c (log_next_sequence l)
      else sq (last (take limit (filter (\<lambda>r. sq r > c) (log_records l)))))"
  by (simp_all add: log_page_after_def Let_def)

lemma page_progress:
  assumes "take limit (filter (\<lambda>r. c < sq r) rs) \<noteq> []"
  shows "length (filter (\<lambda>r. sq (last (take limit (filter (\<lambda>r. c < sq r) rs))) < sq r) rs) <
     length (filter (\<lambda>r. (c :: u64) < sq r) rs)"
proof -
  let ?x = "last (take limit (filter (\<lambda>r. c < sq r) rs))"
  have "?x \<in> set (take limit (filter (\<lambda>r. c < sq r) rs))"
    using assms by (rule last_in_set)
  then have x: "?x \<in> set rs" "c < sq ?x"
    by (auto dest: in_set_takeD)
  have "length (filter (\<lambda>r. sq ?x < sq r) rs) = length (filter (\<lambda>r. sq ?x < sq r) (filter (\<lambda>r. c < sq r) rs))"
    using x(2) by (auto simp: filter_filter intro!: arg_cong [where f = length] filter_cong dest: less_trans)
  also have "\<dots> < length (filter (\<lambda>r. c < sq r) rs)"
    using x by (intro length_filter_less [of ?x]) simp_all
  finally show ?thesis .
qed

text \<open>A reader that follows \<open>page_next_sequence\<close> until a page is empty.\<close>

function read_pages :: "('a \<Rightarrow> u64) \<Rightarrow> 'a bounded_log \<Rightarrow> u64 \<Rightarrow> nat \<Rightarrow> 'a list" where
  "read_pages sq l c limit =
     (let page = log_page_after sq l c limit
      in if page_items page = [] then []
         else page_items page @ read_pages sq l (page_next_sequence page) limit)"
  by pat_completeness auto

termination
  by (relation "measure (\<lambda>(sq, l, c, limit). length (filter (\<lambda>r. c < sq r) (log_records l)))")
    (auto simp: page_simps page_progress)

declare read_pages.simps [simp del]

lemma sorted_last:
  fixes sq :: "'a \<Rightarrow> u64"
  shows "sorted_wrt (<) (map sq xs) \<Longrightarrow> r \<in> set xs \<Longrightarrow> sq r \<le> sq (last xs)"
  by (induction xs rule: rev_induct) (auto simp: sorted_wrt_append intro: less_imp_le)

lemma sorted_rest:
  fixes sq :: "'a \<Rightarrow> u64"
  shows "sorted_wrt (<) (map sq (xs @ ys)) \<Longrightarrow> xs \<noteq> [] \<Longrightarrow> y \<in> set ys \<Longrightarrow> sq (last xs) < sq y"
  by (auto simp: sorted_wrt_append)

lemma sorted_split:
  fixes sq :: "'a \<Rightarrow> u64" and ys :: "'a list"
  assumes "sorted_wrt (<) (map sq (xs @ ys))" and "xs \<noteq> []"
  shows "filter (\<lambda>r. sq (last xs) < sq r) (xs @ ys) = ys"
proof -
  have "\<forall>r \<in> set xs. \<not> sq (last xs) < sq r"
    using assms(1) sorted_last [of sq xs] by (auto simp: sorted_wrt_append not_less)
  moreover have "\<forall>r \<in> set ys. sq (last xs) < sq r"
    using sorted_rest [OF assms] by blast
  ultimately show ?thesis by simp
qed

lemma read_pages_all:
  assumes "sorted_wrt (<) (map sq (log_records l))" and "0 < limit"
  shows "read_pages sq l c limit = filter (\<lambda>r. c < sq r) (log_records l)"
proof (induction "length (filter (\<lambda>r. c < sq r) (log_records l))" arbitrary: c rule: less_induct)
  case less
  let ?f = "filter (\<lambda>r. c < sq r) (log_records l)"
  show ?case
  proof (cases "?f = []")
    case True
    then show ?thesis by (simp add: read_pages.simps [of sq l c] page_simps)
  next
    case False
    let ?xs = "take limit ?f"
    have ne: "?xs \<noteq> []" using False assms(2) by simp
    have srt: "sorted_wrt (<) (map sq (?xs @ drop limit ?f))"
      using assms(1) by (simp add: sorted_wrt_map sorted_wrt_filter)
    have "c < sq (last ?xs)"
      using last_in_set [OF ne] by (auto dest: in_set_takeD)
    then have "filter (\<lambda>r. sq (last ?xs) < sq r) (log_records l) = filter (\<lambda>r. sq (last ?xs) < sq r) ?f"
      by (auto simp: filter_filter intro!: filter_cong dest: less_trans)
    also have "\<dots> = drop limit ?f"
      using sorted_split [OF srt ne] by simp
    finally have rest: "filter (\<lambda>r. sq (last ?xs) < sq r) (log_records l) = drop limit ?f" .
    have "read_pages sq l (sq (last ?xs)) limit = drop limit ?f"
      using less [OF page_progress [OF ne]] rest by simp
    then show ?thesis
      using ne assms(2) by (simp add: read_pages.simps [of sq l c] page_simps)
  qed
qed

section \<open>Logs that calls produce\<close>

text \<open>\<open>event_reach n l\<close>: calls lead from a new event log to \<open>l\<close>, and \<open>n\<close> events were drained.\<close>

inductive event_reach :: "nat \<Rightarrow> event_log \<Rightarrow> bool" where
  event_new: "event_reach 0 (log_new profile)"
| event_rec: "event_reach n l \<Longrightarrow> log_next_sequence l \<noteq> u64_max \<Longrightarrow>
     event_reach n (snd (event_record l kind name subject attributes err))"
| event_conf: "event_reach n l \<Longrightarrow> event_reach n (log_configure l profile)"
| event_cap: "event_reach n l \<Longrightarrow> event_reach n (log_set_capacity l cap)"
| event_drain: "event_reach n l \<Longrightarrow> event_reach (n + length (fst (log_drain l))) (snd (log_drain l))"

inductive trace_reach :: "trace_log \<Rightarrow> bool" where
  trace_new: "trace_reach (log_new profile)"
| trace_rec: "trace_reach l \<Longrightarrow> log_next_sequence l \<noteq> u64_max \<Longrightarrow>
     trace_reach (snd (trace_record l trace name parent st attributes))"
| trace_conf: "trace_reach l \<Longrightarrow> trace_reach (log_configure l profile)"
| trace_cap: "trace_reach l \<Longrightarrow> trace_reach (log_set_capacity l cap)"

lemma event_reach_ok: "event_reach n l \<Longrightarrow> log_ok ev_sequence n l"
  by (induction rule: event_reach.induct)
    (simp_all add: log_ok_new log_configure_ok log_set_capacity_ok log_drain_ok event_record_def
      ev.recorded_ok)

lemma trace_reach_ok: "trace_reach l \<Longrightarrow> log_ok sp_sequence 0 l"
  by (induction rule: trace_reach.induct)
    (simp_all add: log_ok_new log_configure_ok log_set_capacity_ok trace_record_def sp.recorded_ok)


definition sample_events :: event_log where
  "sample_events =
     (let add = (\<lambda>name l. snd (event_record l KTask name None fmempty None))
      in add ''d'' (add ''c'' (add ''b'' (add ''a''
           (log_new \<lparr>capacity = 2, overflow_policy = DropOldest\<rparr>)))))"

lemma sample_events_reach: "event_reach 0 sample_events"
  unfolding sample_events_def Let_def
  by (intro event_rec event_new) code_simp+


text \<open>
  C25. Reading a trace log page by page with a positive limit, each time from the cursor of the
  page before, ends and returns every retained span after the starting cursor, once and in order.
\<close>

theorem trace_pages_complete:
  assumes "trace_reach l" and "0 < limit"
  shows "read_pages sp_sequence l cursor limit = filter (\<lambda>r. cursor < sp_sequence r) (log_records l)"
  by (rule read_pages_all) (use trace_reach_ok [OF assms(1)] assms(2) in \<open>simp_all add: log_ok_def\<close>)

definition sample_trace :: trace_log where
  "sample_trace =
     (let add = (\<lambda>name l. snd (trace_record l ''t'' name None SpanOk fmempty))
      in add ''d'' (add ''c'' (add ''b'' (add ''a'' (trace_with_capacity 3)))))"

lemma sample_trace_reach: "trace_reach sample_trace"
  unfolding sample_trace_def Let_def trace_with_capacity_def
  by (intro trace_rec trace_new) code_simp+

theorem trace_pages_complete_witness:
  "map sp_sequence (read_pages sp_sequence sample_trace 0 2) = [2, 3, 4]"
  unfolding trace_pages_complete [OF sample_trace_reach, of 2 0, simplified] by code_simp

lemma card_word_interval: "card {a<..b} = unat b - unat a" for a b :: u64
proof -
  have "unat ` {a<..b} = {unat a<..unat b}"
  proof (rule set_eqI, rule iffI)
    fix n
    assume "n \<in> {unat a<..unat b}"
    then have "n < 2 ^ 64" "unat a < n" "n \<le> unat b"
      using unat_u64_less [of b] by auto
    then have "unat (of_nat n :: u64) = n"
      by (simp add: unat_of_nat)
    with \<open>unat a < n\<close> \<open>n \<le> unat b\<close> show "n \<in> unat ` {a<..b}"
      by (intro image_eqI [of _ _ "of_nat n"]) (simp_all add: word_less_nat_alt word_le_nat_alt)
  qed (auto simp: word_less_nat_alt word_le_nat_alt)
  then have "card (unat ` {a<..b}) = unat b - unat a" by simp
  then show ?thesis
    by (simp add: card_image inj_on_def word_unat_eq_iff)
qed

text \<open>What is on a page: the entries between the reader's cursor and the new cursor.\<close>

lemma page_inside:
  assumes "sorted_wrt (<) (map sq (log_records l))" and "0 < limit"
    and e: "e \<in> set (page_items (log_page_after sq l c limit))"
  shows "sq e \<in> {c<..page_next_sequence (log_page_after sq l c limit)}"
proof -
  let ?f = "filter (\<lambda>r. c < sq r) (log_records l)"
  have x: "e \<in> set (take limit ?f)"
    using e by (simp add: page_simps)
  have "sorted_wrt (<) (map sq (take limit ?f @ drop limit ?f))"
    using assms(1) by (simp add: sorted_wrt_map sorted_wrt_filter)
  then have "sorted_wrt (<) (map sq (take limit ?f))"
    unfolding map_append sorted_wrt_append by blast
  then have "sq e \<le> sq (last (take limit ?f))"
    using x by (rule sorted_last)
  moreover have "take limit ?f \<noteq> []" and "c < sq e"
    using x assms(2) by (auto dest: in_set_takeD)
  ultimately show ?thesis
    using assms(2) by (simp add: page_simps)
qed

lemma page_cursor:
  assumes "sorted_wrt (<) (map sq (log_records l))" and "0 < limit"
  shows "c \<le> page_next_sequence (log_page_after sq l c limit)"
proof (cases "page_items (log_page_after sq l c limit)")
  case Nil
  then show ?thesis using assms(2) by (auto simp: page_simps)
next
  case (Cons e es)
  then show ?thesis using page_inside [OF assms, of e c] by auto
qed

lemma page_covers:
  assumes "sorted_wrt (<) (map sq (log_records l))" and "0 < limit"
    and e: "e \<in> set (log_records l)" "c < sq e" "sq e \<le> page_next_sequence (log_page_after sq l c limit)"
  shows "e \<in> set (page_items (log_page_after sq l c limit))"
proof (cases "take limit (filter (\<lambda>r. c < sq r) (log_records l)) = []")
  case True
  with e assms(2) show ?thesis by (auto simp: filter_empty_conv)
next
  case False
  let ?f = "filter (\<lambda>r. c < sq r) (log_records l)"
  have srt: "sorted_wrt (<) (map sq (take limit ?f @ drop limit ?f))"
    using assms(1) by (simp add: sorted_wrt_map sorted_wrt_filter)
  have n: "page_next_sequence (log_page_after sq l c limit) = sq (last (take limit ?f))"
    using False assms(2) by (simp add: page_simps)
  have "e \<in> set (take limit ?f) \<union> set (drop limit ?f)"
    unfolding set_append [symmetric] append_take_drop_id using e by simp
  moreover have "e \<notin> set (drop limit ?f)"
    using sorted_rest [OF srt False, of e] e(3) n by auto
  ultimately show ?thesis by (auto simp: page_simps)
qed

lemma page_lost:
  fixes c :: u64
  assumes srt: "sorted_wrt (<) (map sq (log_records l))" and lim: "0 < limit"
  defines "page \<equiv> log_page_after sq l c limit"
  shows "unat (lost page) = card ({c<..page_next_sequence page} - sq ` set (page_items page))"
proof -
  have sub: "sq ` set (page_items page) \<subseteq> {c<..page_next_sequence page}"
    using page_inside [OF srt lim] by (auto simp: page_def)
  have dist: "distinct (map sq (filter P (log_records l)))" for P
    using srt by (metis distinct_map_filter strict_sorted_iff)
  then have "distinct (map sq (page_items page))"
    by (simp add: page_def page_simps take_map [symmetric])
  then have "card (set (map sq (page_items page))) = length (map sq (page_items page))"
    by (rule distinct_card)
  then have len: "card (sq ` set (page_items page)) = length (page_items page)" by simp
  have "length (page_items page) \<le> unat (page_next_sequence page) - unat c"
    using card_mono [OF _ sub] by (simp only: len card_word_interval finite)
  then have "unat (of_nat (length (page_items page)) :: u64) = length (page_items page)"
    using unat_u64_less [of "page_next_sequence page"] by (simp add: unat_of_nat)
  then have "unat (lost page) = unat (page_next_sequence page) - unat c - length (page_items page)"
    using lim by (simp add: page_def log_page_after_def Let_def unat_sat_sub)
  then show ?thesis
    using card_Diff_subset [OF _ sub] by (simp only: len card_word_interval finite_imageI finite_set)
qed

text \<open>
  C26. A page tells the truth about loss: with a positive limit, \<open>lost\<close> is the number of sequence
  numbers between the reader's cursor and the new cursor whose events are not on the page, the new
  cursor never moves back, and every retained event in between is on the page.
\<close>

theorem page_reports_loss:
  assumes "event_reach drained l" and "0 < limit"
  shows "let page = event_page_after l cursor limit in
     cursor \<le> page_next_sequence page \<and>
     unat (lost page) = card ({cursor<..page_next_sequence page} - ev_sequence ` set (page_items page)) \<and>
     (\<forall>e \<in> set (log_records l). cursor < ev_sequence e \<and> ev_sequence e \<le> page_next_sequence page \<longrightarrow>
        e \<in> set (page_items page))"
proof -
  have srt: "sorted_wrt (<) (map ev_sequence (log_records l))"
    using event_reach_ok [OF assms(1)] by (simp add: log_ok_def)
  show ?thesis
    using page_cursor [OF srt assms(2)] page_lost [OF srt assms(2)] page_covers [OF srt assms(2)]
    unfolding event_page_after_def Let_def by blast
qed

theorem page_reports_loss_witness:
  "unat (lost (event_page_after sample_events 0 2)) =
     card ({0<..page_next_sequence (event_page_after sample_events 0 2)} -
       ev_sequence ` set (page_items (event_page_after sample_events 0 2))) \<and>
   lost (event_page_after sample_events 0 2) = 2"
proof
  show "unat (lost (event_page_after sample_events 0 2)) =
     card ({0<..page_next_sequence (event_page_after sample_events 0 2)} -
       ev_sequence ` set (page_items (event_page_after sample_events 0 2)))"
    using page_reports_loss [OF sample_events_reach, of 2 0] by (simp add: Let_def)
  show "lost (event_page_after sample_events 0 2) = 2" by code_simp
qed

section \<open>Closed traces\<close>

definition good_interval :: "trace_span \<Rightarrow> bool" where
  "good_interval span \<longleftrightarrow> (case sp_end span of None \<Rightarrow> True | Some e \<Rightarrow> \<not> f64_less e (sp_start span))"

lemma scan_issues:
  "fold scan_span spans (issues, seen, by_id) = (issues', seen', by_id') \<Longrightarrow>
     issues' = [] \<longleftrightarrow> issues = [] \<and> distinct (map span_id spans) \<and>
       span_id ` set spans \<inter> fset seen = {} \<and> (\<forall>span \<in> set spans. good_interval span)"
proof (induction spans arbitrary: issues seen by_id)
  case (Cons span spans)
  obtain i1 s1 b1 where one: "scan_span span (issues, seen, by_id) = (i1, s1, b1)"
    by (cases "scan_span span (issues, seen, by_id)")
  have "i1 = [] \<longleftrightarrow> issues = [] \<and> span_id span |\<notin>| seen \<and> good_interval span" "s1 = finsert (span_id span) seen"
    using one by (auto simp: scan_span_def good_interval_def split: option.splits if_splits)
  with Cons.IH [of i1 s1 b1] Cons.prems one show ?case by auto
qed simp

lemma scan_by_id:
  "fold scan_span spans (issues, seen, by_id) = (issues', seen', by_id') \<Longrightarrow>
     fmlookup by_id' k = (case fmlookup by_id k of
        Some span \<Rightarrow> Some span | None \<Rightarrow> find (\<lambda>span. span_id span = k) spans)"
proof (induction spans arbitrary: issues seen by_id)
  case (Cons span spans)
  obtain i1 s1 b1 where one: "scan_span span (issues, seen, by_id) = (i1, s1, b1)"
    by (cases "scan_span span (issues, seen, by_id)")
  have "fmlookup b1 k = (case fmlookup by_id k of
      Some s \<Rightarrow> Some s | None \<Rightarrow> if span_id span = k then Some span else None)"
    using one by (auto simp: scan_span_def split: option.splits)
  with Cons.IH [of i1 s1 b1] Cons.prems one show ?case by (auto split: option.splits)
qed (simp split: option.splits)

lemma find_distinct:
  "distinct (map f xs) \<Longrightarrow> find (\<lambda>x. f x = k) xs = Some y \<longleftrightarrow> y \<in> set xs \<and> f y = k"
  by (induction xs) auto

text \<open>
  C27. \<open>validate_trace_closure\<close> reports nothing exactly for closed traces: span ids are unique, no
  span ends before it starts, and the parent of every span is present and of the same trace.
\<close>

theorem closure_issues_complete:
  "validate_trace_closure spans = [] \<longleftrightarrow>
     distinct (map span_id spans) \<and> (\<forall>span \<in> set spans. good_interval span) \<and>
     (\<forall>span \<in> set spans. case parent_span_id span of None \<Rightarrow> True | Some parent \<Rightarrow>
        \<exists>p \<in> set spans. span_id p = parent \<and> sp_trace_id p = sp_trace_id span)"
proof -
  obtain issues seen by_id where f: "fold scan_span spans ([], {||}, fmempty) = (issues, seen, by_id)"
    by (cases "fold scan_span spans ([], {||}, fmempty)")
  have look: "fmlookup by_id k = find (\<lambda>span. span_id span = k) spans" for k
    using scan_by_id [OF f, of k] by simp
  have "parent_issues by_id span = [] \<longleftrightarrow>
      (case parent_span_id span of None \<Rightarrow> True | Some parent \<Rightarrow>
        \<exists>p \<in> set spans. span_id p = parent \<and> sp_trace_id p = sp_trace_id span)"
    if d: "distinct (map span_id spans)" for span
  proof (cases "parent_span_id span")
    case (Some parent)
    show ?thesis
    proof (cases "find (\<lambda>span. span_id span = parent) spans")
      case None
      then have "\<not> (\<exists>p \<in> set spans. span_id p = parent)"
        by (auto simp: find_None_iff)
      with Some None show ?thesis by (auto simp: parent_issues_def look)
    next
      case (Some q)
      then have "q \<in> set spans \<and> span_id q = parent"
        by (simp add: find_distinct [OF d])
      moreover have "p = q" if "p \<in> set spans" "span_id p = parent" for p
        using Some that find_distinct [OF d, of parent p] by simp
      ultimately show ?thesis
        using \<open>parent_span_id span = Some parent\<close> Some by (auto simp: parent_issues_def look)
    qed
  qed (simp add: parent_issues_def)
  then show ?thesis
    using scan_issues [OF f] f by (auto simp: validate_trace_closure_def)
qed

theorem closure_issues_complete_witness:
  "validate_trace_closure (log_records sample_trace) = [] \<and> length (log_records sample_trace) = 3"
  unfolding closure_issues_complete by code_simp

end
