(* ===== verification/State_Store.thy ===== *)
theory State_Store
  imports Contracts
begin

text \<open>
  The versioned state store, \<open>crates/mutsuki-runtime-core/src/state_store.rs\<close>, and the id source,
  \<open>crates/mutsuki-runtime-core/src/id.rs\<close>. A commit carries the version it was computed from; the
  version of a value that was never written is 0. \<open>current_version + 1\<close> and \<open>next += 1\<close> wrap, as in
  a release build.
\<close>

section \<open>State store\<close>

record 'v state_store =
  store_values :: "(string, u64 \<times> 'v) fmap"

definition state_store_default :: "'v state_store" where
  "state_store_default = \<lparr>store_values = fmempty\<rparr>"

definition current_version :: "'v state_store \<Rightarrow> string \<Rightarrow> u64" where
  "current_version st rid =
     (case fmlookup (store_values st) rid of None \<Rightarrow> 0 | Some (ver, _) \<Rightarrow> ver)"

definition state_apply ::
  "'v state_store \<Rightarrow> 'v state_delta \<Rightarrow> (runtime_error + unit) \<times> 'v state_store" where
  "state_apply st delta =
     (let current = current_version st (target_ref delta) in
      if current \<noteq> delta_expected_version delta then
        (Inl (runtime_failure ERR_STATE_CONFLICT ''runtime.state_store''
           (''state.commit.'' @ target_ref delta)), st)
      else
        (Inr (), st\<lparr>store_values :=
           fmupd (target_ref delta) (current + 1, patch delta) (store_values st)\<rparr>))"

definition state_get :: "'v state_store \<Rightarrow> string \<Rightarrow> (u64 \<times> 'v) option" where
  "state_get st rid = fmlookup (store_values st) rid"

definition expectation_error :: "'v state_store \<Rightarrow> version_expectation \<Rightarrow> string \<Rightarrow> runtime_error" where
  "expectation_error st e route =
     insert_evidence ''actual_version'' (SInt (u64_as_i64 (current_version st (exp_ref_id e))))
       (insert_evidence ''expected_version'' (SInt (u64_as_i64 (exp_expected_version e)))
         (insert_evidence ''ref_id'' (SString (exp_ref_id e))
           (runtime_error_new ERR_STATE_CONFLICT ''runtime.state_store'' route)))"

fun validate_expectations ::
  "'v state_store \<Rightarrow> version_expectation list \<Rightarrow> string \<Rightarrow> runtime_error + unit" where
  "validate_expectations st [] route = Inr ()"
| "validate_expectations st (e # es) route =
     (if current_version st (exp_ref_id e) \<noteq> exp_expected_version e
      then Inl (expectation_error st e route)
      else validate_expectations st es route)"

text \<open>Committing a list of deltas one after another, with the result of each.\<close>

fun commit_all ::
  "'v state_store \<Rightarrow> 'v state_delta list \<Rightarrow> bool list \<times> 'v state_store" where
  "commit_all st [] = ([], st)"
| "commit_all st (d # ds) =
     (let (res, st1) = state_apply st d; (oks, st2) = commit_all st1 ds
      in ((case res of Inl _ \<Rightarrow> False | Inr _ \<Rightarrow> True) # oks, st2))"

lemma apply_version:
  "current_version (snd (state_apply st d)) rid =
     (if rid = target_ref d \<and> current_version st rid = delta_expected_version d
      then current_version st rid + 1 else current_version st rid)"
  by (simp add: state_apply_def current_version_def Let_def)

lemma apply_result:
  "fst (state_apply st d) =
     (if current_version st (target_ref d) = delta_expected_version d then Inr ()
      else Inl (runtime_failure ERR_STATE_CONFLICT ''runtime.state_store''
        (''state.commit.'' @ target_ref d)))"
  by (simp add: state_apply_def Let_def)

definition accepted :: "bool list \<Rightarrow> 'v state_delta list \<Rightarrow> string \<Rightarrow> 'v state_delta list" where
  "accepted oks ds rid = map snd (filter (\<lambda>(b, d). b \<and> target_ref d = rid) (zip oks ds))"

lemma commit_one:
  assumes "state_apply st d = (res, st1)"
  shows "accepted ((case res of Inl _ \<Rightarrow> False | Inr _ \<Rightarrow> True) # oks) (d # ds) rid =
       (if rid = target_ref d \<and> current_version st rid = delta_expected_version d
        then d # accepted oks ds rid else accepted oks ds rid)"
    "current_version st1 rid =
       (if rid = target_ref d \<and> current_version st rid = delta_expected_version d
        then current_version st rid + 1 else current_version st rid)"
    "state_get st1 rid =
       (if rid = target_ref d \<and> current_version st rid = delta_expected_version d
        then Some (current_version st rid + 1, patch d) else state_get st rid)"
proof -
  show "accepted ((case res of Inl _ \<Rightarrow> False | Inr _ \<Rightarrow> True) # oks) (d # ds) rid =
       (if rid = target_ref d \<and> current_version st rid = delta_expected_version d
        then d # accepted oks ds rid else accepted oks ds rid)"
    using assms apply_result [of st d] by (auto simp: accepted_def)
  show "current_version st1 rid =
       (if rid = target_ref d \<and> current_version st rid = delta_expected_version d
        then current_version st rid + 1 else current_version st rid)"
    using assms apply_version [of st d rid] by simp
  show "state_get st1 rid =
       (if rid = target_ref d \<and> current_version st rid = delta_expected_version d
        then Some (current_version st rid + 1, patch d) else state_get st rid)"
    using assms by (auto simp: state_apply_def state_get_def Let_def split: if_splits)
qed

text \<open>
  C23. The store loses no update. Of a list of commits applied in order, the accepted ones to one
  value form a chain: each was computed from the version that the previous accepted one wrote, so
  no two of them were computed from the same version (until the version wraps), a refused commit
  changes nothing, the final version counts the accepted commits, and the final value is the last
  accepted patch.
\<close>

theorem no_lost_update:
  "let (oks, st') = commit_all st ds; acc = accepted oks ds rid in
     map delta_expected_version acc =
       map (\<lambda>i. current_version st rid + of_nat i) [0..<length acc] \<and>
     current_version st' rid = current_version st rid + of_nat (length acc) \<and>
     state_get st' rid =
       (if acc = [] then state_get st rid else Some (current_version st' rid, patch (last acc)))"
proof (induction ds arbitrary: st)
  case Nil
  then show ?case by (simp add: accepted_def)
next
  case (Cons d ds)
  obtain res st1 where r: "state_apply st d = (res, st1)" by fastforce
  obtain oks st2 where c: "commit_all st1 ds = (oks, st2)" by fastforce
  let ?acc = "accepted oks ds rid"
  have ih: "map delta_expected_version ?acc = map (\<lambda>i. current_version st1 rid + of_nat i) [0..<length ?acc]"
    "current_version st2 rid = current_version st1 rid + of_nat (length ?acc)"
    "state_get st2 rid = (if ?acc = [] then state_get st1 rid else Some (current_version st2 rid, patch (last ?acc)))"
    using Cons.IH [of st1] by (simp_all add: c Let_def)
  note one = commit_one [OF r, where rid = rid]
  show ?case
  proof (cases "rid = target_ref d \<and> current_version st rid = delta_expected_version d")
    case True
    note one = one [unfolded if_P [OF True]]
    have "map (\<lambda>i. current_version st1 rid + of_nat i) [0..<length ?acc] =
        map (\<lambda>i. current_version st rid + of_nat i) (map Suc [0..<length ?acc])"
      by (simp add: one(2) algebra_simps)
    then have "map delta_expected_version (d # ?acc) =
        map (\<lambda>i. current_version st rid + of_nat i) [0..<length (d # ?acc)]"
      using ih(1) conjunct2 [OF True] by (simp add: map_Suc_upt upt_conv_Cons del: upt_Suc)
    with one ih(2,3) r c show ?thesis
      by (simp add: Let_def algebra_simps del: upt_Suc)
  next
    case False
    note one = one [unfolded if_not_P [OF False]]
    from ih r c show ?thesis
      by (simp add: Let_def one del: upt_Suc)
  qed
qed


section \<open>Id source\<close>

record sequential_id_source =
  next_number :: u64

definition sequential_id_source_new :: sequential_id_source where
  "sequential_id_source_new = \<lparr>next_number = 0\<rparr>"

text \<open>The format \<open>{:026}\<close> pads with zeros on the left to 26 characters.\<close>

definition pad_zeros :: "nat \<Rightarrow> string \<Rightarrow> string" where
  "pad_zeros width s = replicate (width - length s) (CHR ''0'') @ s"

definition next_id :: "sequential_id_source \<Rightarrow> string \<Rightarrow> string \<times> sequential_id_source" where
  "next_id src prefix =
     (let n = next_number src + 1
      in (prefix @ ''-'' @ pad_zeros 26 (show_u64 n), src\<lparr>next_number := n\<rparr>))"

fun next_ids :: "sequential_id_source \<Rightarrow> string list \<Rightarrow> string list" where
  "next_ids src [] = []"
| "next_ids src (prefix # ps) = (let (i, src') = next_id src prefix in i # next_ids src' ps)"

lemma length_show_nat: "n < 10 ^ k \<Longrightarrow> 0 < k \<Longrightarrow> length (show_nat n) \<le> k"
proof (induction n arbitrary: k rule: show_nat.induct)
  case (1 n)
  show ?case
  proof (cases "n < 10")
    case True
    with "1.prems" show ?thesis by (simp add: show_nat.simps [of n])
  next
    case False
    then obtain k' where k: "k = Suc k'" "0 < k'"
      using "1.prems" by (cases k; cases "k - 1") auto
    have "n div 10 < 10 ^ k'"
      using "1.prems"(1) k(1) by (simp add: less_mult_imp_div_less mult.commute)
    with "1.IH" [OF False this k(2)] k False show ?thesis
      by (simp add: show_nat.simps [of n])
  qed
qed

lemma length_show_u64: "length (show_u64 n) \<le> 20"
proof -
  have "unat n < 10 ^ 20"
    using unat_u64_less [of n] by simp
  then show ?thesis
    by (simp add: show_u64_def length_show_nat)
qed

fun parse_nat :: "string \<Rightarrow> nat" where
  "parse_nat s = foldl (\<lambda>n c. 10 * n + (of_char c - 48)) 0 s"

lemma digit_value: "d < 10 \<Longrightarrow> of_char (digit_char d) - 48 = d"
  by (simp add: digit_char_def)

lemma parse_show_nat: "foldl (\<lambda>n c. 10 * n + (of_char c - 48)) 0 (show_nat n) = n"
proof (induction n rule: show_nat.induct)
  case (1 n)
  show ?case
    using "1.IH" digit_value [of n] digit_value [of "n mod 10"]
    by (cases "n < 10") (simp_all add: show_nat.simps [of n])
qed

lemma parse_pad: "parse_nat (pad_zeros w (show_u64 n)) = unat n"
proof -
  have "foldl (\<lambda>n c. 10 * n + (of_char c - 48)) 0 (replicate k (CHR ''0'')) = (0 :: nat)" for k
    by (induction k) simp_all
  then show ?thesis
    by (simp add: pad_zeros_def show_u64_def parse_show_nat)
qed

lemma length_pad: "length (pad_zeros 26 (show_u64 n)) = 26"
  using length_show_u64 [of n] by (simp add: pad_zeros_def)

text \<open>The number can be read back from the last 26 characters of an id.\<close>

definition id_number :: "string \<Rightarrow> nat" where
  "id_number i = parse_nat (drop (length i - 26) i)"

lemma id_number_next: "id_number (fst (next_id src prefix)) = unat (next_number src + 1)"
  by (simp add: id_number_def next_id_def Let_def length_pad parse_pad del: parse_nat.simps)

lemma next_ids_numbers:
  "map id_number (next_ids src ps) = map (\<lambda>i. unat (next_number src + 1 + of_nat i)) [0..<length ps]"
proof (induction ps arbitrary: src)
  case (Cons p ps)
  obtain i src' where n: "next_id src p = (i, src')" by fastforce
  have s: "next_number src' = next_number src + 1"
    using n by (auto simp: next_id_def Let_def)
  have "map (\<lambda>i. unat (next_number src' + 1 + of_nat i)) [0..<length ps] =
      map (\<lambda>i. unat (next_number src + 1 + of_nat i)) (map Suc [0..<length ps])"
    by (simp add: s algebra_simps)
  then show ?case
    using Cons.IH [of src'] id_number_next [of src p] n
    by (simp add: map_Suc_upt upt_conv_Cons del: upt_Suc)
qed simp

text \<open>
  C29. Ids are unique: whatever prefixes they are asked for, fewer than 2^64 successive ids of one
  source are pairwise different, because the zero-padded number alone tells them apart.
\<close>

theorem next_ids_distinct:
  assumes "length ps \<le> 2 ^ 64"
  shows "distinct (next_ids src ps)"
proof -
  have "inj_on (\<lambda>i. unat (next_number src + 1 + of_nat i)) {0..<length ps}"
  proof (rule inj_onI)
    fix i j
    assume ij: "i \<in> {0..<length ps}" "j \<in> {0..<length ps}"
      and eq: "unat (next_number src + 1 + of_nat i) = unat (next_number src + 1 + of_nat j)"
    then have "(of_nat i :: u64) = of_nat j"
      by (simp add: word_unat_eq_iff [symmetric])
    then have "unat (of_nat i :: u64) = unat (of_nat j :: u64)" by simp
    with ij assms show "i = j"
      by (simp add: unat_of_nat)
  qed
  then have "distinct (map id_number (next_ids src ps))"
    by (simp add: next_ids_numbers distinct_map)
  then show ?thesis
    by (simp add: distinct_map)
qed

theorem next_ids_distinct_witness:
  "distinct (next_ids sequential_id_source_new [''task'', ''task-0'', ''task'']) \<and>
   next_ids sequential_id_source_new [''task''] = [''task-00000000000000000000000001'']"
proof
  show "distinct (next_ids sequential_id_source_new [''task'', ''task-0'', ''task''])"
    by (rule next_ids_distinct) simp
  show "next_ids sequential_id_source_new [''task''] = [''task-00000000000000000000000001'']"
    by code_simp
qed

end
