(* ===== verification/Plugin_Contracts.thy ===== *)
theory Plugin_Contracts
  imports Observability
begin

text \<open>
  The data of \<open>crates/mutsuki-runtime-contracts/src/plugin.rs\<close> and \<open>extension.rs\<close>: what a plugin
  provides, the load plan a host hands to the core, and the contract surfaces that reloads compare.
\<close>

section \<open>Deployments\<close>

datatype artifact_type = ArtAbi | ArtProcess | ArtWasm | ArtPython | ArtNative

datatype plugin_deployment_kind = DepBuiltin | DepAbi | DepWasm | DepProcess | DepPython

fun default_for_artifact :: "artifact_type \<Rightarrow> plugin_deployment_kind" where
  "default_for_artifact ArtNative = DepBuiltin"
| "default_for_artifact ArtAbi = DepAbi"
| "default_for_artifact ArtWasm = DepWasm"
| "default_for_artifact ArtProcess = DepProcess"
| "default_for_artifact ArtPython = DepPython"

definition is_compatible_with_artifact :: "plugin_deployment_kind \<Rightarrow> artifact_type \<Rightarrow> bool" where
  "is_compatible_with_artifact d a \<longleftrightarrow>
     (case (d, a) of
        (DepBuiltin, ArtNative) \<Rightarrow> True
      | (DepAbi, ArtAbi) \<Rightarrow> True
      | (DepWasm, ArtWasm) \<Rightarrow> True
      | (DepProcess, ArtProcess) \<Rightarrow> True
      | (DepPython, ArtPython) \<Rightarrow> True
      | _ \<Rightarrow> False)"

datatype runtime_profile_mode = FullDev | ExtensibleRuntime | BuiltinOnly | LockedBuiltin

record plugin_artifact =
  artifact_kind :: artifact_type
  artifact_path :: string
  artifact_sha256 :: string

record permission_grant =
  grant_effects :: "string list"
  grant_resources :: "string list"

record lifecycle_policy =
  lc_reload_policy :: string
  unload_timeout_ms :: u64
  supports_cancel :: bool
  supports_dispose :: bool
  supports_snapshot :: bool

section \<open>Extensions\<close>

datatype host_extension_kind =
    ExtPluginBackend | ExtBridge | ExtCodec | ExtTraceSink | ExtSchedulerPolicy
  | ExtPermissionPolicy | ExtResourcePlanGateway

record host_extension_descriptor =
  extension_id :: string
  extension_kind :: host_extension_kind
  supported_deployments :: "plugin_deployment_kind list"
  ext_reload_policy :: string
  drain_required :: bool

record plugin_backend_descriptor =
  backend_id :: string
  backend_deployment_kind :: plugin_deployment_kind
  task_client_protocol :: string
  resource_client_protocol :: string
  backend_codec_id :: "string option"
  backend_bridge_id :: "string option"

record codec_descriptor =
  codec_id :: string
  media_type :: string
  codec_version :: string
  connection_scoped :: bool

record bridge_descriptor =
  bridge_id :: string
  bridge_deployment_kind :: plugin_deployment_kind
  bridge_codec_ids :: "string list"
  drain_policy :: string

record scheduler_policy_descriptor =
  policy_id :: string
  policy_version :: string
  decision_scope :: string

record workflow_descriptor =
  workflow_id :: string
  state_resource_kind :: string
  runner_protocol_id :: string
  wf_reload_policy :: string

section \<open>What a plugin provides\<close>

datatype resource_provider_reload_policy =
    NoLiveResources | CompatibleWithoutLeases | DrainActiveLeases | RestartRequired

record resource_provider_compatibility =
  rpc_schema_version :: string
  required_operations :: "string list"
  preserves_resource_type_id :: bool
  accepts_older_generations :: bool
  lease_drain_required :: bool

record resource_type_descriptor =
  rt_kind_id :: string
  rt_semantic :: resource_semantic
  rt_schema :: string
  rt_provider_id :: string
  rt_operations :: "string list"
  rt_reload_policy :: resource_provider_reload_policy
  rt_compatibility :: resource_provider_compatibility

record 'v protocol_descriptor =
  prot_id :: string
  prot_version :: string
  prot_input_schema :: 'v
  prot_output_schema :: 'v
  prot_error_schema :: 'v
  prot_codec :: string
  prot_compatibility :: string

record handler_binding =
  binding_id :: string
  hb_plugin_id :: string
  hb_protocol_id :: string
  target_protocol_id :: string
  target_runner_hint :: "string option"
  pool_id :: string
  hb_priority :: int
  hb_policy :: string
  hb_metadata :: "(string, scalar_value) fmap"

record 'v plugin_provides =
  prov_runners :: "'v runner_descriptor list"
  prov_protocols :: "'v protocol_descriptor list"
  protocol_classes :: "(string, protocol_class) fmap"
  handler_bindings :: "handler_binding list"
  resource_schemas :: "string list"
  resource_providers :: "string list"
  resource_types :: "resource_type_descriptor list"
  prov_effects :: "string list"
  prov_streams :: "string list"
  prov_subscriptions :: "string list"
  prov_timers :: "string list"
  state_schemas :: "string list"
  host_extensions :: "host_extension_descriptor list"
  plugin_backends :: "plugin_backend_descriptor list"
  codecs :: "codec_descriptor list"
  bridges :: "bridge_descriptor list"
  scheduler_policies :: "scheduler_policy_descriptor list"
  workflows :: "workflow_descriptor list"

definition plugin_provides_default :: "'v plugin_provides" where
  "plugin_provides_default =
     \<lparr>prov_runners = [], prov_protocols = [], protocol_classes = fmempty, handler_bindings = [],
      resource_schemas = [], resource_providers = [], resource_types = [], prov_effects = [],
      prov_streams = [], prov_subscriptions = [], prov_timers = [], state_schemas = [],
      host_extensions = [], plugin_backends = [], codecs = [], bridges = [],
      scheduler_policies = [], workflows = []\<rparr>"

record 'v plugin_manifest =
  man_plugin_id :: string
  man_version :: string
  api_version :: string
  man_artifact :: plugin_artifact
  provides :: "'v plugin_provides"
  man_requires :: "string list"
  permissions :: permission_grant
  man_lifecycle :: lifecycle_policy
  man_metadata :: "(string, scalar_value) fmap"

record 'v plugin_business_surface =
  bs_plugin_id :: string
  bs_api_version :: string
  bs_provides :: "'v plugin_provides"
  bs_requires :: "string list"
  bs_permissions :: permission_grant

definition business_surface :: "'v plugin_manifest \<Rightarrow> 'v plugin_business_surface" where
  "business_surface m =
     \<lparr>bs_plugin_id = man_plugin_id m, bs_api_version = api_version m,
      bs_provides = (provides m)\<lparr>host_extensions := [], plugin_backends := [], codecs := [],
        bridges := []\<rparr>,
      bs_requires = man_requires m, bs_permissions = permissions m\<rparr>"

section \<open>Profiles, surfaces and load plans\<close>

record runtime_profile =
  profile_id :: string
  profile_mode :: runtime_profile_mode
  enabled_plugins :: "string list"
  profile_bindings :: "(string, string) fmap"
  profile_deployments :: "(string, plugin_deployment_kind) fmap"
  profile_observability :: observability_profile
  allow_dynamic_registration :: bool
  allow_hot_reload :: bool

record capability_provider_selection =
  sel_capability :: string
  provider_plugin_id :: string
  provider_version :: "string option"
  sel_surface_id :: string
  sel_reason :: string

record permission_audit_entry =
  audit_plugin_id :: string
  permission_kind :: string
  audit_permission :: string
  granted :: bool
  provider_capability :: "string option"
  audit_reason :: string

record runtime_capability_graph =
  graph_profile_mode :: runtime_profile_mode
  provided_capabilities :: "string list"
  required_capabilities :: "string list"
  active_capabilities :: "string list"
  active_capability_providers :: "capability_provider_selection list"
  active_resource_providers :: "string list"
  active_host_extensions :: "string list"
  active_plugin_backends :: "string list"
  active_codecs :: "string list"
  active_bridges :: "string list"
  active_scheduler_policies :: "string list"
  active_workflows :: "string list"
  permission_audit :: "permission_audit_entry list"

definition runtime_capability_graph_default :: runtime_capability_graph where
  "runtime_capability_graph_default =
     \<lparr>graph_profile_mode = FullDev, provided_capabilities = [], required_capabilities = [],
      active_capabilities = [], active_capability_providers = [], active_resource_providers = [],
      active_host_extensions = [], active_plugin_backends = [], active_codecs = [],
      active_bridges = [], active_scheduler_policies = [], active_workflows = [],
      permission_audit = []\<rparr>"

datatype contract_surface_kind =
    SurfRunner | SurfTaskProtocol | SurfSchema | SurfResourceSchema | SurfResourceProvider
  | SurfHostExtension | SurfPluginBackend | SurfCodec | SurfBridge | SurfSchedulerPolicy
  | SurfWorkflow | SurfEffect | SurfStream | SurfSubscription | SurfTimer | SurfProtocol
  | SurfHandlerBinding | SurfStateSchema | SurfLifecycle | SurfPermission

record contract_surface =
  surface_id :: string
  surface_kind :: contract_surface_kind
  surface_owner :: string
  fingerprint :: string
  deprecated :: bool

datatype surface_occupancy_handle_kind = HandleStream | HandleSubscription | HandleTimer

record surface_occupancy_handle =
  handle_id :: string
  handle_surface_id :: string
  handle_owner :: string
  handle_plugin_generation :: u64
  handle_registry_generation :: u64
  handle_kind :: surface_occupancy_handle_kind

datatype surface_compatibility = Identical | Additive | Deprecated | Removed | Breaking

record 'v runtime_load_plan =
  lock_version :: u64
  core_api_version :: string
  plan_profile_id :: string
  profile_hash :: string
  plan_registry_generation :: u64
  plan_plugins :: "'v plugin_manifest list"
  load_order :: "string list"
  runner_bindings :: "(string, string) fmap"
  plan_deployments :: "(string, plugin_deployment_kind) fmap"
  plan_observability :: observability_profile
  capability_graph :: runtime_capability_graph
  plan_surfaces :: "contract_surface list"

end
