(* ===== verification/Resource_Manager.thy ===== *)
theory Resource_Manager
  imports State_Store Plugin_Contracts
begin

text \<open>
  The resource manager, \<open>crates/mutsuki-runtime-core/src/resource_manager.rs\<close> and its modules: packed
  values, the hub of resource descriptors with their write leases, resource cells with shared and
  exclusive leases, plans, and the occupancy of contract surfaces. Where the code iterates over a
  \<open>HashMap\<close> the result is sorted afterwards or is a count, so the ascending order used here is no
  restriction. \<open>serde_json::to_vec\<close> is the parameter \<open>to_vec\<close>, which gives the message of its error.
\<close>

section \<open>Contract types\<close>

record exclusive_write_lease =
  lease_tok :: lease_token

record resource_cell_ref =
  cell_id :: string
  cell_resource_kind :: string
  owner_plugin_id :: string
  cell_schema :: string
  cell_generation :: u64
  health :: string
  cell_reload_policy :: string

record resource_lease =
  rl_lease_id :: string
  rl_cell_id :: string
  borrower_task_id :: string
  borrower_executor_id :: string
  rl_mode :: string
  rl_expires_at_step :: "u64 option"
  rl_generation :: u64

datatype value_storage =
    StoreInlineSmall | StoreLocalValueStore | StoreBlob | StoreStream | StoreProviderRpc

record value_ref =
  vr_ref_id :: string
  vr_provider_id :: string
  vr_schema :: string
  vr_version :: u64
  vr_generation :: u64
  vr_size_hint :: "u64 option"
  vr_content_hash :: "string option"
  vr_lifetime :: resource_lifetime
  vr_storage :: value_storage

record snapshot_descriptor =
  snapshot_ref :: resource_ref
  source_ref :: resource_ref
  source_version :: u64
  snapshot_version :: u64
  is_stale :: bool
  is_latest :: bool

record 'v patch_descriptor =
  patch_id :: string
  patch_target_ref :: resource_ref
  patch_base_version :: u64
  patch_conflict_policy :: string
  patch_operations :: 'v

record 'v read_plan =
  rp_plan_id :: string
  rp_resource :: resource_ref
  rp_operation :: string
  rp_args :: 'v

record 'v write_plan =
  wp_plan_id :: string
  wp_resource :: resource_ref
  wp_base_version :: u64
  wp_conflict_policy :: string
  wp_patch :: "'v patch_descriptor"
  wp_returning :: "'v read_plan option"

record 'v stream_plan =
  stp_plan_id :: string
  stp_resource :: resource_ref
  stp_operation :: string
  stp_args :: 'v

record 'v export_plan =
  xp_plan_id :: string
  xp_resource :: resource_ref
  xp_target :: string
  xp_args :: 'v

record 'v command_plan =
  cp_plan_id :: string
  cp_capability :: resource_ref
  cp_operation :: string
  cp_args :: 'v
  cp_idempotency_key :: "string option"

record 'v plan_receipt =
  pr_plan_id :: string
  pr_status :: string
  pr_resource_ref :: "resource_ref option"
  pr_snapshot :: "snapshot_descriptor option"
  descriptor_updates :: "resource_ref list"
  pr_new_version :: "u64 option"
  pr_output :: 'v

datatype 'v resource_value =
    RVInline string 'v u64
  | RVValueRef value_ref
  | RVResourceRef resource_ref

section \<open>State\<close>

datatype 'v packed_value =
    PackedInline "'v resource_value"
  | PackedValue value_ref
  | PackedResource resource_ref

record resource_cell_entry =
  cell_descriptor :: resource_cell_ref
  active_leases :: "(string, resource_lease) fmap"

definition resource_cell_entry_new :: "resource_cell_ref \<Rightarrow> resource_cell_entry" where
  "resource_cell_entry_new d = \<lparr>cell_descriptor = d, active_leases = fmempty\<rparr>"

record resource_entry =
  descriptor :: resource_ref
  writer :: "lease_token option"

definition resource_entry_new :: "resource_ref \<Rightarrow> resource_entry" where
  "resource_entry_new d = \<lparr>descriptor = d, writer = None\<rparr>"

type_synonym resource_hub = "(string, resource_entry) fmap"

definition hub_insert :: "resource_hub \<Rightarrow> resource_entry \<Rightarrow> resource_hub" where
  "hub_insert h e = fmupd (ref_id (descriptor e)) e h"

definition hub_entries :: "resource_hub \<Rightarrow> resource_entry list" where
  "hub_entries h = fm_values h"

fun semantic_store_name :: "resource_semantic \<Rightarrow> string" where
  "semantic_store_name FrozenValue = ''frozen''"
| "semantic_store_name VersionedSnapshot = ''snapshots''"
| "semantic_store_name ReadOnlyFact = ''facts''"
| "semantic_store_name CowVersionedState = ''cow''"
| "semantic_store_name CapabilityResource = ''capabilities''"
| "semantic_store_name StreamResource = ''streams''"
| "semantic_store_name TransactionResource = ''transactions''"

definition hub_store_name :: "resource_hub \<Rightarrow> string \<Rightarrow> string option" where
  "hub_store_name h rid = map_option (\<lambda>e. semantic_store_name (semantic (descriptor e))) (fmlookup h rid)"

record 'v resource_manager =
  rm_values :: "(string, value_ref \<times> 'v) fmap"
  hub :: resource_hub
  resource_cells :: "(string, resource_cell_entry) fmap"
  occupancy_handles :: "(string, surface_occupancy_handle) fmap"
  id_source :: sequential_id_source
  inline_value_max_bytes :: nat

definition resource_manager_new :: "'v resource_manager" where
  "resource_manager_new =
     \<lparr>rm_values = fmempty, hub = fmempty, resource_cells = fmempty, occupancy_handles = fmempty,
      id_source = sequential_id_source_new, inline_value_max_bytes = 4096\<rparr>"

definition resource_not_found :: "string \<Rightarrow> runtime_error" where
  "resource_not_found route = runtime_failure ERR_RESOURCE_NOT_FOUND ''runtime.resource_manager'' route"

definition resource_generation_mismatch :: "string \<Rightarrow> runtime_error" where
  "resource_generation_mismatch route =
     runtime_failure ERR_RESOURCE_GENERATION_MISMATCH ''runtime.resource_manager'' route"

definition capability_exhausted :: "string \<Rightarrow> runtime_error" where
  "capability_exhausted route =
     runtime_failure ERR_CAPABILITY_EXHAUSTED ''runtime.resource_manager'' route"

definition resource_lease_expired_error :: "string \<Rightarrow> runtime_error" where
  "resource_lease_expired_error route =
     runtime_failure ERR_RESOURCE_LEASE_EXPIRED ''runtime.resource_manager'' route"

section \<open>Values\<close>

definition pack_value ::
  "('v \<Rightarrow> string + string) \<Rightarrow> 'v resource_manager \<Rightarrow> string \<Rightarrow> 'v \<Rightarrow>
    'v packed_value runtime_result \<times> 'v resource_manager" where
  "pack_value to_vec m sch x =
     (case to_vec x of
        Inl err \<Rightarrow> (Inl (runtime_failure ''resource.encode_failed'' ''runtime.resource_manager'' err), m)
      | Inr bytes \<Rightarrow>
          if length bytes \<le> inline_value_max_bytes m then
            (Inr (PackedInline (RVInline sch x 1)), m)
          else
            (let (rid, ids) = next_id (id_source m) ''value'';
                 r = \<lparr>vr_ref_id = rid, vr_provider_id = ''runtime.resource_manager'', vr_schema = sch,
                      vr_version = 1, vr_generation = 1,
                      vr_size_hint = Some (of_nat (length bytes)), vr_content_hash = None,
                      vr_lifetime = Persistent, vr_storage = StoreLocalValueStore\<rparr>
             in (Inr (PackedValue r),
                 m\<lparr>id_source := ids, rm_values := fmupd rid (r, x) (rm_values m)\<rparr>)))"

definition get_value :: "'v resource_manager \<Rightarrow> value_ref \<Rightarrow> 'v runtime_result" where
  "get_value m r =
     (case fmlookup (rm_values m) (vr_ref_id r) of
        None \<Rightarrow> Inl (resource_not_found (''value.'' @ vr_ref_id r))
      | Some (stored, x) \<Rightarrow>
          if vr_generation stored \<noteq> vr_generation r
          then Inl (resource_generation_mismatch (''value.'' @ vr_ref_id r))
          else Inr x)"

section \<open>Resources\<close>

definition open_resource :: "'v resource_manager \<Rightarrow> string \<Rightarrow> resource_ref runtime_result" where
  "open_resource m rid =
     (case fmlookup (hub m) rid of
        None \<Rightarrow> Inl (resource_not_found (''resource.open.'' @ rid))
      | Some e \<Rightarrow> Inr (descriptor e))"

definition list_descriptors :: "'v resource_manager \<Rightarrow> resource_ref list" where
  "list_descriptors m = sort_key ref_id (map descriptor (hub_entries (hub m)))"

definition ident_matches :: "resource_ref \<Rightarrow> bool" where
  "ident_matches d \<longleftrightarrow>
     \<not> (rid_generation (resource_ident d) \<noteq> generation d \<or> rid_version (resource_ident d) \<noteq> version d)"

definition register_resource_descriptor ::
  "'v resource_manager \<Rightarrow> resource_ref \<Rightarrow> resource_ref runtime_result \<times> 'v resource_manager" where
  "register_resource_descriptor m d =
     (if \<not> ident_matches d then
        (Inl (resource_generation_mismatch (''resource.register.'' @ ref_id d)), m)
      else if fmlookup (hub m) (ref_id d) \<noteq> None then
        (Inl (capability_exhausted (''resource.register.'' @ ref_id d)), m)
      else (Inr d, m\<lparr>hub := hub_insert (hub m) (resource_entry_new d)\<rparr>))"

definition sync_resource_descriptor ::
  "'v resource_manager \<Rightarrow> resource_ref \<Rightarrow> resource_ref runtime_result \<times> 'v resource_manager" where
  "sync_resource_descriptor m d =
     (let mismatch = resource_generation_mismatch (''resource.sync.'' @ ref_id d) in
      if \<not> ident_matches d then (Inl mismatch, m)
      else case fmlookup (hub m) (ref_id d) of
        Some e \<Rightarrow>
          if generation d < generation (descriptor e) \<or>
             generation d = generation (descriptor e) \<and> version d < version (descriptor e)
          then (Inl mismatch, m)
          else if (case writer e of None \<Rightarrow> False | Some w \<Rightarrow> tok_generation w \<noteq> generation d)
          then (Inl mismatch, m)
          else (Inr d, m\<lparr>hub := hub_insert (fmdrop (ref_id d) (hub m))
                  ((resource_entry_new d)\<lparr>writer := writer e\<rparr>)\<rparr>)
      | None \<Rightarrow> (Inr d, m\<lparr>hub := hub_insert (hub m) (resource_entry_new d)\<rparr>))"

definition merge_descriptor ::
  "resource_ref \<Rightarrow> (string, resource_ref) fmap \<Rightarrow> (string, resource_ref) fmap" where
  "merge_descriptor d ds =
     (case fmlookup ds (ref_id d) of
        Some current \<Rightarrow>
          if generation d > generation current \<or>
             generation d = generation current \<and> version d \<ge> version current
          then fmupd (ref_id d) d ds else ds
      | None \<Rightarrow> fmupd (ref_id d) d ds)"

definition receipt_descriptors :: "'v plan_receipt \<Rightarrow> resource_ref list" where
  "receipt_descriptors receipt =
     (let ds = fmempty;
          ds = (case pr_resource_ref receipt of None \<Rightarrow> ds | Some r \<Rightarrow> merge_descriptor r ds);
          ds = (case pr_snapshot receipt of None \<Rightarrow> ds | Some s \<Rightarrow> merge_descriptor (snapshot_ref s) ds);
          ds = fold merge_descriptor (descriptor_updates receipt) ds
      in fm_values ds)"

text \<open>Collecting results stops at the first error; the descriptors before it stay synced.\<close>

fun sync_all ::
  "'v resource_manager \<Rightarrow> resource_ref list \<Rightarrow> resource_ref list runtime_result \<times> 'v resource_manager" where
  "sync_all m [] = (Inr [], m)"
| "sync_all m (d # ds) =
     (case sync_resource_descriptor m d of
        (Inl e, m1) \<Rightarrow> (Inl e, m1)
      | (Inr r, m1) \<Rightarrow>
          (case sync_all m1 ds of
             (Inl e, m2) \<Rightarrow> (Inl e, m2)
           | (Inr rs, m2) \<Rightarrow> (Inr (r # rs), m2)))"

definition sync_plan_receipt ::
  "'v resource_manager \<Rightarrow> 'v plan_receipt \<Rightarrow> resource_ref list runtime_result \<times> 'v resource_manager" where
  "sync_plan_receipt m receipt = sync_all m (receipt_descriptors receipt)"

definition create_stream_resource ::
  "'v resource_manager \<Rightarrow> string \<Rightarrow> string \<Rightarrow> string \<Rightarrow> string \<Rightarrow> resource_ref \<times> 'v resource_manager" where
  "create_stream_resource m stream_id sch prov endpoint =
     (let (rid, ids) = next_id (id_source m) ''resource'';
          d = \<lparr>ref_id = rid,
               resource_ident = \<lparr>kind_id = stream_id, slot_id = rid, rid_generation = 1, rid_version = 1\<rparr>,
               semantic = StreamResource, provider_id = prov, resource_kind = stream_id, schema = sch,
               version = 1, generation = 1, access = Stream endpoint, size_hint = None,
               content_hash = None, lifetime = ExternalManaged, ref_lease = None, seal_state = Sealed\<rparr>
      in (d, m\<lparr>id_source := ids, hub := hub_insert (hub m) (resource_entry_new d)\<rparr>))"

fun is_stream :: "resource_access \<Rightarrow> bool" where
  "is_stream (Stream endpoint) = True"
| "is_stream _ = False"

definition close_stream_resource ::
  "'v resource_manager \<Rightarrow> string \<Rightarrow> resource_ref runtime_result \<times> 'v resource_manager" where
  "close_stream_resource m rid =
     (case fmlookup (hub m) rid of
        Some e \<Rightarrow>
          if is_stream (access (descriptor e)) then (Inr (descriptor e), m\<lparr>hub := fmdrop rid (hub m)\<rparr>)
          else (Inl (resource_not_found (''resource.stream.close.'' @ rid)), m)
      | None \<Rightarrow> (Inl (resource_not_found (''resource.stream.close.'' @ rid)), m))"

definition resource_store_name :: "'v resource_manager \<Rightarrow> string \<Rightarrow> string option" where
  "resource_store_name m rid = hub_store_name (hub m) rid"

section \<open>Cells and their leases\<close>

definition create_resource_cell ::
  "'v resource_manager \<Rightarrow> string \<Rightarrow> string \<Rightarrow> string \<Rightarrow> string \<Rightarrow> string \<Rightarrow>
    resource_cell_ref \<times> 'v resource_manager" where
  "create_resource_cell m cid kind owner sch policy =
     (let d = \<lparr>cell_id = cid, cell_resource_kind = kind, owner_plugin_id = owner, cell_schema = sch,
               cell_generation = 1, health = ''healthy'', cell_reload_policy = policy\<rparr>
      in (d, m\<lparr>resource_cells := fmupd cid (resource_cell_entry_new d) (resource_cells m)\<rparr>))"

definition resource_lease_expired :: "resource_lease \<Rightarrow> u64 \<Rightarrow> bool" where
  "resource_lease_expired lease step =
     (case rl_expires_at_step lease of None \<Rightarrow> False | Some e \<Rightarrow> e \<le> step)"

definition acquire_resource_lease ::
  "'v resource_manager \<Rightarrow> string \<Rightarrow> string \<Rightarrow> string \<Rightarrow> string \<Rightarrow> u64 option \<Rightarrow>
    resource_lease runtime_result \<times> 'v resource_manager" where
  "acquire_resource_lease m cid tid eid mode expires =
     (case fmlookup (resource_cells m) cid of
        None \<Rightarrow> (Inl (resource_not_found (''resource_cell.lease.'' @ cid)), m)
      | Some cell \<Rightarrow>
          if mode = ''exclusive'' \<and> active_leases cell \<noteq> fmempty then
            (Inl (capability_exhausted (''resource_cell.lease.'' @ cid)), m)
          else if mode \<noteq> ''shared'' \<and> mode \<noteq> ''exclusive'' then
            (Inl (runtime_failure ''resource.lease_mode_invalid'' ''runtime.resource_manager''
               (''resource_cell.lease.'' @ cid @ ''.'' @ mode)), m)
          else if mode = ''shared'' \<and>
             list_ex (\<lambda>lease. rl_mode lease = ''exclusive'') (fm_values (active_leases cell)) then
            (Inl (capability_exhausted (''resource_cell.lease.'' @ cid)), m)
          else
            (let (lid, ids) = next_id (id_source m) ''resource-lease'';
                 lease = \<lparr>rl_lease_id = lid, rl_cell_id = cid, borrower_task_id = tid,
                   borrower_executor_id = eid, rl_mode = mode, rl_expires_at_step = expires,
                   rl_generation = cell_generation (cell_descriptor cell)\<rparr>;
                 cell = cell\<lparr>active_leases := fmupd lid lease (active_leases cell)\<rparr>
             in (Inr lease, m\<lparr>id_source := ids, resource_cells := fmupd cid cell (resource_cells m)\<rparr>)))"

definition validate_resource_lease ::
  "resource_cell_entry \<Rightarrow> resource_lease \<Rightarrow> u64 option \<Rightarrow> string \<Rightarrow> unit runtime_result" where
  "validate_resource_lease cell lease step action =
     (let route = ''resource_cell.'' @ action @ ''.'' @ rl_lease_id lease in
      case fmlookup (active_leases cell) (rl_lease_id lease) of
        None \<Rightarrow> Inl (resource_not_found route)
      | Some active \<Rightarrow>
          if active \<noteq> lease \<or> rl_generation lease \<noteq> cell_generation (cell_descriptor cell)
          then Inl (resource_generation_mismatch route)
          else if (case step of None \<Rightarrow> False | Some s \<Rightarrow> resource_lease_expired lease s)
          then Inl (resource_lease_expired_error route)
          else Inr ())"

definition release_resource_lease_checked ::
  "'v resource_manager \<Rightarrow> resource_lease \<Rightarrow> u64 option \<Rightarrow> unit runtime_result \<times> 'v resource_manager" where
  "release_resource_lease_checked m lease step =
     (case fmlookup (resource_cells m) (rl_cell_id lease) of
        None \<Rightarrow> (Inl (resource_not_found (''resource_cell.release.'' @ rl_cell_id lease)), m)
      | Some cell \<Rightarrow>
          (case validate_resource_lease cell lease step ''release'' of
             Inl e \<Rightarrow> (Inl e, m)
           | Inr _ \<Rightarrow>
               if fmlookup (active_leases cell) (rl_lease_id lease) = None then
                 (Inl (resource_not_found (''resource_cell.release.'' @ rl_lease_id lease)), m)
               else
                 (Inr (), m\<lparr>resource_cells := fmupd (rl_cell_id lease)
                    (cell\<lparr>active_leases := fmdrop (rl_lease_id lease) (active_leases cell)\<rparr>)
                    (resource_cells m)\<rparr>)))"

definition release_resource_lease ::
  "'v resource_manager \<Rightarrow> resource_lease \<Rightarrow> unit runtime_result \<times> 'v resource_manager" where
  "release_resource_lease m lease = release_resource_lease_checked m lease None"

definition release_resource_lease_at ::
  "'v resource_manager \<Rightarrow> resource_lease \<Rightarrow> u64 \<Rightarrow> unit runtime_result \<times> 'v resource_manager" where
  "release_resource_lease_at m lease step = release_resource_lease_checked m lease (Some step)"

definition cell_retain :: "u64 \<Rightarrow> resource_cell_entry \<Rightarrow> resource_cell_entry" where
  "cell_retain step cell =
     cell\<lparr>active_leases :=
       fmfilter (\<lambda>k. case fmlookup (active_leases cell) k of
           Some lease \<Rightarrow> \<not> resource_lease_expired lease step | None \<Rightarrow> True)
         (active_leases cell)\<rparr>"

definition reclaim_expired_resource_leases ::
  "'v resource_manager \<Rightarrow> u64 \<Rightarrow> resource_lease list \<times> 'v resource_manager" where
  "reclaim_expired_resource_leases m step =
     (sort_key rl_lease_id
        (concat (map (\<lambda>cell. filter (\<lambda>lease. resource_lease_expired lease step)
           (fm_values (active_leases cell))) (fm_values (resource_cells m)))),
      m\<lparr>resource_cells := fmmap (cell_retain step) (resource_cells m)\<rparr>)"

definition active_mutable_lease_routes_for_task :: "'v resource_manager \<Rightarrow> string \<Rightarrow> string list" where
  "active_mutable_lease_routes_for_task m tid =
     sort
       (concat (map (\<lambda>cell. map (\<lambda>lease. ''resource_cell.lease.'' @ rl_lease_id lease)
          (filter (\<lambda>lease. borrower_task_id lease = tid \<and> rl_mode lease = ''exclusive'')
            (fm_values (active_leases cell)))) (fm_values (resource_cells m))) @
        concat (map (\<lambda>e. case writer e of
             Some w \<Rightarrow> if tok_owner w = tid then [''resource.write_lease.'' @ token_id w] else []
           | None \<Rightarrow> []) (hub_entries (hub m))))"

section \<open>Write leases\<close>

definition acquire_write_lease ::
  "'v resource_manager \<Rightarrow> string \<Rightarrow> string \<Rightarrow> u64 option \<Rightarrow>
    exclusive_write_lease runtime_result \<times> 'v resource_manager" where
  "acquire_write_lease m rid owner expires =
     (case fmlookup (hub m) rid of
        None \<Rightarrow> (Inl (resource_not_found (''resource.lease.'' @ rid)), m)
      | Some e \<Rightarrow>
          if writer e \<noteq> None then (Inl (capability_exhausted (''resource.lease.'' @ rid)), m)
          else
            (let (tok, ids) = next_id (id_source m) ''lease'';
                 token = \<lparr>token_id = tok, tok_ref_id = rid, tok_owner = owner,
                   tok_mode = ''exclusive_write'', tok_expires_at_step = expires,
                   tok_generation = generation (descriptor e)\<rparr>
             in (Inr \<lparr>lease_tok = token\<rparr>,
                 m\<lparr>id_source := ids, hub := fmupd rid (e\<lparr>writer := Some token\<rparr>) (hub m)\<rparr>)))"

definition release_write_lease_checked ::
  "'v resource_manager \<Rightarrow> exclusive_write_lease \<Rightarrow> u64 option \<Rightarrow> unit runtime_result \<times> 'v resource_manager" where
  "release_write_lease_checked m lease step =
     (let rid = tok_ref_id (lease_tok lease); route = ''resource.write_lease.release.'' @ rid in
      case fmlookup (hub m) rid of
        None \<Rightarrow> (Inl (resource_not_found route), m)
      | Some e \<Rightarrow>
          if (case tok_expires_at_step (lease_tok lease) of None \<Rightarrow> False
              | Some expires \<Rightarrow> (case step of None \<Rightarrow> False | Some s \<Rightarrow> expires \<le> s))
          then (Inl (resource_lease_expired_error route), m)
          else if writer e \<noteq> Some (lease_tok lease) then (Inl (resource_generation_mismatch route), m)
          else (Inr (), m\<lparr>hub := fmupd rid (e\<lparr>writer := None\<rparr>) (hub m)\<rparr>))"

definition release_write_lease ::
  "'v resource_manager \<Rightarrow> exclusive_write_lease \<Rightarrow> unit runtime_result \<times> 'v resource_manager" where
  "release_write_lease m lease = release_write_lease_checked m lease None"

definition release_write_lease_at ::
  "'v resource_manager \<Rightarrow> exclusive_write_lease \<Rightarrow> u64 \<Rightarrow> unit runtime_result \<times> 'v resource_manager" where
  "release_write_lease_at m lease step = release_write_lease_checked m lease (Some step)"

section \<open>Plans\<close>

text \<open>\<open>null\<close> is the JSON value \<open>Value::Null\<close>.\<close>

definition build_read_plan ::
  "'v \<Rightarrow> 'v resource_manager \<Rightarrow> string \<Rightarrow> string \<Rightarrow> 'v read_plan runtime_result" where
  "build_read_plan null m rid operation =
     (case open_resource m rid of
        Inl e \<Rightarrow> Inl e
      | Inr r \<Rightarrow> Inr \<lparr>rp_plan_id = ''read-plan:'' @ rid @ '':'' @ operation, rp_resource = r,
          rp_operation = operation, rp_args = null\<rparr>)"

definition open_stream_plan :: "'v \<Rightarrow> 'v read_plan \<Rightarrow> 'v stream_plan runtime_result" where
  "open_stream_plan null plan =
     (if semantic (rp_resource plan) \<noteq> StreamResource then
        Inl (runtime_failure ''resource.semantic_mismatch'' ''runtime.resource_manager''
          (''resource.stream_plan.'' @ ref_id (rp_resource plan)))
      else
        Inr \<lparr>stp_plan_id = ''stream-plan:'' @ ref_id (rp_resource plan), stp_resource = rp_resource plan,
          stp_operation = ''open_stream'', stp_args = null\<rparr>)"

definition build_export_plan ::
  "'v \<Rightarrow> 'v resource_manager \<Rightarrow> string \<Rightarrow> string \<Rightarrow> 'v export_plan runtime_result" where
  "build_export_plan null m rid target =
     (case open_resource m rid of
        Inl e \<Rightarrow> Inl e
      | Inr r \<Rightarrow> Inr \<lparr>xp_plan_id = ''export-plan:'' @ rid @ '':'' @ target, xp_resource = r,
          xp_target = target, xp_args = null\<rparr>)"

definition build_command_plan ::
  "'v resource_manager \<Rightarrow> string \<Rightarrow> string \<Rightarrow> 'v \<Rightarrow> string option \<Rightarrow> 'v command_plan runtime_result" where
  "build_command_plan m rid operation args key =
     (case open_resource m rid of
        Inl e \<Rightarrow> Inl e
      | Inr r \<Rightarrow> Inr \<lparr>cp_plan_id = ''command-plan:'' @ rid @ '':'' @ operation, cp_capability = r,
          cp_operation = operation, cp_args = args, cp_idempotency_key = key\<rparr>)"

definition build_write_plan ::
  "'v resource_manager \<Rightarrow> string \<Rightarrow> string \<Rightarrow> 'v \<Rightarrow> 'v write_plan runtime_result" where
  "build_write_plan m rid policy operations =
     (case open_resource m rid of
        Inl e \<Rightarrow> Inl e
      | Inr r \<Rightarrow>
          (let p = \<lparr>patch_id = ''patch:'' @ rid @ '':'' @ show_u64 (version r), patch_target_ref = r,
                    patch_base_version = version r, patch_conflict_policy = policy,
                    patch_operations = operations\<rparr>
           in Inr \<lparr>wp_plan_id = ''write-plan:'' @ rid @ '':'' @ show_u64 (patch_base_version p),
                wp_resource = r, wp_base_version = patch_base_version p,
                wp_conflict_policy = patch_conflict_policy p, wp_patch = p, wp_returning = None\<rparr>))"

section \<open>Occupancy of surfaces\<close>

definition register_surface_occupancy ::
  "'v resource_manager \<Rightarrow> surface_occupancy_handle \<Rightarrow> unit runtime_result \<times> 'v resource_manager" where
  "register_surface_occupancy m h =
     (if fmlookup (occupancy_handles m) (handle_id h) \<noteq> None then
        (Inl (capability_exhausted (''surface.occupancy.'' @ handle_id h)), m)
      else (Inr (), m\<lparr>occupancy_handles := fmupd (handle_id h) h (occupancy_handles m)\<rparr>))"

definition release_surface_occupancy ::
  "'v resource_manager \<Rightarrow> string \<Rightarrow> surface_occupancy_handle runtime_result \<times> 'v resource_manager" where
  "release_surface_occupancy m hid =
     (case fmlookup (occupancy_handles m) hid of
        None \<Rightarrow> (Inl (resource_not_found (''surface.occupancy.'' @ hid)), m)
      | Some h \<Rightarrow> (Inr h, m\<lparr>occupancy_handles := fmdrop hid (occupancy_handles m)\<rparr>))"

record handle_counts =
  hc_streams :: u64
  hc_subscriptions :: u64
  hc_timers :: u64

definition increment_resource_count ::
  "string \<Rightarrow> resource_entry \<Rightarrow> (string, u64 \<times> u64) fmap \<Rightarrow> (string, u64 \<times> u64) fmap" where
  "increment_resource_count sid e counts =
     (let (refs, leases) = fm_get_or (0, 0) counts sid
      in fmupd sid (refs + 1, if writer e \<noteq> None then leases + 1 else leases) counts)"

definition count_resource_surface ::
  "string \<Rightarrow> contract_surface_kind \<Rightarrow> resource_entry \<Rightarrow>
    (string, u64 \<times> u64) fmap \<Rightarrow> (string, u64 \<times> u64) fmap" where
  "count_resource_surface x kind e counts =
     (case (case kind of
              SurfResourceSchema \<Rightarrow> Some ''resource_schema''
            | SurfResourceProvider \<Rightarrow> Some ''resource_provider''
            | _ \<Rightarrow> None) of
        None \<Rightarrow> counts
      | Some prefix \<Rightarrow>
          increment_resource_count (prefix @ '':'' @ x) e (increment_resource_count x e counts))"

definition increment_active_lease_count ::
  "string \<Rightarrow> u64 \<Rightarrow> (string, u64 \<times> u64) fmap \<Rightarrow> (string, u64 \<times> u64) fmap" where
  "increment_active_lease_count sid n counts =
     (let (refs, leases) = fm_get_or (0, 0) counts sid in fmupd sid (refs, leases + n) counts)"

definition count_entry :: "resource_entry \<Rightarrow> (string, u64 \<times> u64) fmap \<Rightarrow> (string, u64 \<times> u64) fmap" where
  "count_entry e counts =
     count_resource_surface (provider_id (descriptor e)) SurfResourceProvider e
       (count_resource_surface (schema (descriptor e)) SurfResourceSchema e counts)"

definition count_cell :: "resource_cell_entry \<Rightarrow> (string, u64 \<times> u64) fmap \<Rightarrow> (string, u64 \<times> u64) fmap" where
  "count_cell cell counts =
     (let n = of_nat (length (fm_keys (active_leases cell))) :: u64 in
      if n > 0 then
        increment_active_lease_count (''resource_schema:'' @ cell_schema (cell_descriptor cell)) n
          (increment_active_lease_count (cell_schema (cell_descriptor cell)) n counts)
      else counts)"

definition resource_surface_counts :: "'v resource_manager \<Rightarrow> (string, u64 \<times> u64) fmap" where
  "resource_surface_counts m =
     fold count_cell (fm_values (resource_cells m)) (fold count_entry (hub_entries (hub m)) fmempty)"

definition increment_count :: "string \<Rightarrow> (string, u64) fmap \<Rightarrow> (string, u64) fmap" where
  "increment_count k counts = fmupd k (fm_get_or 0 counts k + 1) counts"

definition stream_surface_counts :: "'v resource_manager \<Rightarrow> (string, u64) fmap" where
  "stream_surface_counts m =
     fold (\<lambda>e counts. increment_count (''stream:'' @ resource_kind (descriptor e))
            (increment_count (resource_kind (descriptor e)) counts))
       (filter (\<lambda>e. is_stream (access (descriptor e))) (hub_entries (hub m))) fmempty"

definition count_handle ::
  "surface_occupancy_handle \<Rightarrow> (string, handle_counts) fmap \<Rightarrow> (string, handle_counts) fmap" where
  "count_handle h counts =
     (let item = fm_get_or \<lparr>hc_streams = 0, hc_subscriptions = 0, hc_timers = 0\<rparr> counts (handle_surface_id h)
      in fmupd (handle_surface_id h)
           (case handle_kind h of
              HandleStream \<Rightarrow> item\<lparr>hc_streams := hc_streams item + 1\<rparr>
            | HandleSubscription \<Rightarrow> item\<lparr>hc_subscriptions := hc_subscriptions item + 1\<rparr>
            | HandleTimer \<Rightarrow> item\<lparr>hc_timers := hc_timers item + 1\<rparr>) counts)"

definition handle_surface_counts :: "'v resource_manager \<Rightarrow> (string, handle_counts) fmap" where
  "handle_surface_counts m = fold count_handle (fm_values (occupancy_handles m)) fmempty"

definition value_surface_count :: "'v resource_manager \<Rightarrow> contract_surface \<Rightarrow> u64" where
  "value_surface_count m s =
     of_nat (length (filter (\<lambda>(r, _). surface_id s = ''schema:'' @ vr_schema r \<or> surface_id s = vr_schema r)
       (fm_values (rm_values m))))"

definition surface_item :: "'v resource_manager \<Rightarrow> contract_surface \<Rightarrow> surface_occupancy" where
  "surface_item m s =
     (let item = zero_occupancy (surface_id s);
          handles = fmlookup (handle_surface_counts m) (surface_id s);
          counted = (case fmlookup (resource_surface_counts m) (surface_id s) of
             Some (refs, leases) \<Rightarrow> item\<lparr>resource_refs := refs, active_lease_count := leases\<rparr>
           | None \<Rightarrow> item)
      in case surface_kind s of
           SurfResourceSchema \<Rightarrow> counted
         | SurfResourceProvider \<Rightarrow> counted
         | SurfSchema \<Rightarrow> item\<lparr>resource_refs := value_surface_count m s\<rparr>
         | SurfStream \<Rightarrow> item\<lparr>open_streams :=
             fm_get_or 0 (stream_surface_counts m) (surface_id s) +
             (case handles of None \<Rightarrow> 0 | Some c \<Rightarrow> hc_streams c)\<rparr>
         | SurfSubscription \<Rightarrow> item\<lparr>subscriptions := (case handles of None \<Rightarrow> 0 | Some c \<Rightarrow> hc_subscriptions c)\<rparr>
         | SurfTimer \<Rightarrow> item\<lparr>timers := (case handles of None \<Rightarrow> 0 | Some c \<Rightarrow> hc_timers c)\<rparr>
         | _ \<Rightarrow> item)"

definition rm_surface_occupancy :: "'v resource_manager \<Rightarrow> contract_surface list \<Rightarrow> surface_occupancy list" where
  "rm_surface_occupancy m surfaces = filter (\<lambda>item. \<not> is_zero item) (map (surface_item m) surfaces)"

end
