(* ===== verification/Resource_Properties.thy ===== *)
theory Resource_Properties
  imports Resource_Manager
begin

text \<open>
  The resource manager as a state machine over its public calls, its invariant, and what it
  promises: leases of a cell exclude each other, a write lease is held until it is released,
  descriptors never go back, a stored value is read back, and the occupancy of a surface is a count.
\<close>

section \<open>Fresh identifiers\<close>

text \<open>
  What the manager needs of its id source: the ids it issues carry increasing numbers, until the
  counter runs out.
\<close>

locale id_allocator =
  fixes issue :: "'s \<Rightarrow> string \<Rightarrow> string \<times> 's"
    and issued :: "'s \<Rightarrow> nat"
    and number :: "string \<Rightarrow> nat"
    and limit :: nat
  assumes issue_number: "issued s < limit \<Longrightarrow> number (fst (issue s p)) = Suc (issued s)"
    and issue_count: "issued s < limit \<Longrightarrow> issued (snd (issue s p)) = Suc (issued s)"
begin

lemma issue_fresh: "issued s < limit \<Longrightarrow> number k \<le> issued s \<Longrightarrow> fst (issue s p) \<noteq> k"
  using issue_number [of s p] by auto

lemma issue_mono: "issued s < limit \<Longrightarrow> number k \<le> issued s \<Longrightarrow> number k \<le> issued (snd (issue s p))"
  by (simp add: issue_count)

end

definition ids_issued :: "sequential_id_source \<Rightarrow> nat" where
  "ids_issued s = unat (next_number s)"

lemma unat_word_succ: "unat w < 2 ^ 64 - 1 \<Longrightarrow> unat (w + 1 :: u64) = Suc (unat w)"
  using unat_sat_add [of w 1] by (simp add: unat_word_ariths unat_add_lem)

interpretation ids: id_allocator next_id ids_issued id_number "2 ^ 64 - 1"
proof
  fix s p
  assume "ids_issued s < 2 ^ 64 - 1"
  then have "unat (next_number s + 1) = Suc (ids_issued s)"
    unfolding ids_issued_def by (rule unat_word_succ)
  then show "id_number (fst (next_id s p)) = Suc (ids_issued s)"
    "ids_issued (snd (next_id s p)) = Suc (ids_issued s)"
    by (simp add: id_number_next, simp add: ids_issued_def next_id_def Let_def)
qed

section \<open>Calls\<close>

datatype 'v manager_call =
    MPackValue string 'v
  | MRegister resource_ref
  | MSync resource_ref
  | MSyncReceipt "'v plan_receipt"
  | MCreateStream string string string string
  | MCloseStream string
  | MCreateCell string string string string string
  | MAcquireLease string string string string "u64 option"
  | MReleaseLease resource_lease "u64 option"
  | MReclaim u64
  | MAcquireWrite string string "u64 option"
  | MReleaseWrite exclusive_write_lease "u64 option"
  | MRegisterOccupancy surface_occupancy_handle
  | MReleaseOccupancy string

text \<open>The state after a call, whether it succeeds or fails.\<close>

fun manager_run ::
  "('v \<Rightarrow> string + string) \<Rightarrow> 'v manager_call \<Rightarrow> 'v resource_manager \<Rightarrow> 'v resource_manager" where
  "manager_run tv (MPackValue sch x) m = snd (pack_value tv m sch x)"
| "manager_run tv (MRegister d) m = snd (register_resource_descriptor m d)"
| "manager_run tv (MSync d) m = snd (sync_resource_descriptor m d)"
| "manager_run tv (MSyncReceipt r) m = snd (sync_plan_receipt m r)"
| "manager_run tv (MCreateStream i s p e) m = snd (create_stream_resource m i s p e)"
| "manager_run tv (MCloseStream rid) m = snd (close_stream_resource m rid)"
| "manager_run tv (MCreateCell c k ow s pol) m = snd (create_resource_cell m c k ow s pol)"
| "manager_run tv (MAcquireLease c t x mode ex) m = snd (acquire_resource_lease m c t x mode ex)"
| "manager_run tv (MReleaseLease l step) m = snd (release_resource_lease_checked m l step)"
| "manager_run tv (MReclaim step) m = snd (reclaim_expired_resource_leases m step)"
| "manager_run tv (MAcquireWrite r ow ex) m = snd (acquire_write_lease m r ow ex)"
| "manager_run tv (MReleaseWrite l step) m = snd (release_write_lease_checked m l step)"
| "manager_run tv (MRegisterOccupancy h) m = snd (register_surface_occupancy m h)"
| "manager_run tv (MReleaseOccupancy h) m = snd (release_surface_occupancy m h)"

inductive manager_reach :: "('v \<Rightarrow> string + string) \<Rightarrow> 'v resource_manager \<Rightarrow> bool" for tv where
  start: "manager_reach tv resource_manager_new"
| step: "manager_reach tv m \<Longrightarrow> manager_reach tv (manager_run tv c m)"

section \<open>Invariant\<close>

definition cell_ok :: "string \<Rightarrow> resource_cell_entry \<Rightarrow> bool" where
  "cell_ok cid cell \<longleftrightarrow> cell_id (cell_descriptor cell) = cid \<and>
     (\<forall>lid l. fmlookup (active_leases cell) lid = Some l \<longrightarrow>
        rl_lease_id l = lid \<and> rl_cell_id l = cid \<and>
        rl_generation l = cell_generation (cell_descriptor cell) \<and>
        (rl_mode l = ''shared'' \<or>
         rl_mode l = ''exclusive'' \<and> fmdom' (active_leases cell) = {lid}))"

definition entry_ok :: "string \<Rightarrow> resource_entry \<Rightarrow> bool" where
  "entry_ok rid e \<longleftrightarrow> ref_id (descriptor e) = rid \<and> ident_matches (descriptor e) \<and>
     (\<forall>w. writer e = Some w \<longrightarrow> tok_ref_id w = rid \<and> tok_generation w = generation (descriptor e))"

definition manager_ok :: "'v resource_manager \<Rightarrow> bool" where
  "manager_ok m \<longleftrightarrow>
     (\<forall>cid cell. fmlookup (resource_cells m) cid = Some cell \<longrightarrow> cell_ok cid cell) \<and>
     (\<forall>rid e. fmlookup (hub m) rid = Some e \<longrightarrow> entry_ok rid e)"

lemma manager_okI:
  "(\<And>cid cell. fmlookup (resource_cells m) cid = Some cell \<Longrightarrow> cell_ok cid cell) \<Longrightarrow>
   (\<And>rid e. fmlookup (hub m) rid = Some e \<Longrightarrow> entry_ok rid e) \<Longrightarrow> manager_ok m"
  by (simp add: manager_ok_def)

lemma manager_okD:
  "manager_ok m \<Longrightarrow> fmlookup (resource_cells m) cid = Some cell \<Longrightarrow> cell_ok cid cell"
  "manager_ok m \<Longrightarrow> fmlookup (hub m) rid = Some e \<Longrightarrow> entry_ok rid e"
  by (simp_all add: manager_ok_def)

lemma cell_okI:
  "cell_id (cell_descriptor cell) = cid \<Longrightarrow>
   (\<And>lid l. fmlookup (active_leases cell) lid = Some l \<Longrightarrow>
      rl_lease_id l = lid \<and> rl_cell_id l = cid \<and>
      rl_generation l = cell_generation (cell_descriptor cell) \<and>
      (rl_mode l = ''shared'' \<or> rl_mode l = ''exclusive'' \<and> fmdom' (active_leases cell) = {lid})) \<Longrightarrow>
   cell_ok cid cell"
  by (simp add: cell_ok_def)

lemma cell_okD:
  assumes "cell_ok cid cell" and "fmlookup (active_leases cell) lid = Some l"
  shows "rl_lease_id l = lid" "rl_cell_id l = cid"
    "rl_generation l = cell_generation (cell_descriptor cell)"
    "rl_mode l = ''shared'' \<or> rl_mode l = ''exclusive'' \<and> fmdom' (active_leases cell) = {lid}"
  using assms by (simp_all add: cell_ok_def)

lemma cell_ok_id: "cell_ok cid cell \<Longrightarrow> cell_id (cell_descriptor cell) = cid"
  by (simp add: cell_ok_def)

lemma entry_ok_new: "ident_matches d \<Longrightarrow> entry_ok (ref_id d) (resource_entry_new d)"
  by (simp add: entry_ok_def resource_entry_new_def)

text \<open>How each call changes the cells and the hub: nothing, one insertion, or one removal.\<close>

lemma manager_ok_cell:
  "manager_ok m \<Longrightarrow> cell_ok cid cell \<Longrightarrow> manager_ok (m\<lparr>resource_cells := fmupd cid cell (resource_cells m)\<rparr>)"
  by (simp add: manager_ok_def)

lemma manager_ok_leased:
  "manager_ok m \<Longrightarrow> cell_ok cid cell \<Longrightarrow>
     manager_ok (m\<lparr>id_source := s, resource_cells := fmupd cid cell (resource_cells m)\<rparr>)"
  by (simp add: manager_ok_def)

lemma manager_ok_entry:
  "manager_ok m \<Longrightarrow> entry_ok rid e \<Longrightarrow> manager_ok (m\<lparr>hub := fmupd rid e (hub m)\<rparr>)"
  by (simp add: manager_ok_def)

lemma manager_ok_drop: "manager_ok m \<Longrightarrow> manager_ok (m\<lparr>hub := fmdrop rid (hub m)\<rparr>)"
  by (simp add: manager_ok_def)

lemma manager_ok_ids [simp]: "manager_ok (id_source_update f m) = manager_ok m"
  by (simp add: manager_ok_def)

lemma manager_ok_others [simp]:
  "manager_ok (rm_values_update g m) = manager_ok m"
  "manager_ok (occupancy_handles_update h m) = manager_ok m"
  by (simp_all add: manager_ok_def)

lemma pack_value_ok: "manager_ok m \<Longrightarrow> manager_ok (snd (pack_value tv m sch x))"
  by (simp add: pack_value_def Let_def split: sum.splits prod.splits)

lemma register_ok: "manager_ok m \<Longrightarrow> manager_ok (snd (register_resource_descriptor m d))"
  by (auto simp: register_resource_descriptor_def hub_insert_def resource_entry_new_def entry_ok_def
      intro!: manager_ok_entry)

lemma sync_ok: "manager_ok m \<Longrightarrow> manager_ok (snd (sync_resource_descriptor m d))"
  by (auto simp: sync_resource_descriptor_def hub_insert_def resource_entry_new_def entry_ok_def Let_def
      dest: manager_okD(2) intro!: manager_ok_entry split: option.splits)

lemma sync_all_ok: "manager_ok m \<Longrightarrow> manager_ok (snd (sync_all m ds))"
proof (induction m ds rule: sync_all.induct)
  case (2 m d ds)
  then show ?case
    using sync_ok [of m d] by (auto split: prod.splits sum.splits)
qed simp

lemma create_stream_ok: "manager_ok m \<Longrightarrow> manager_ok (snd (create_stream_resource m i s p e))"
  by (simp add: create_stream_resource_def hub_insert_def resource_entry_new_def entry_ok_def
      ident_matches_def manager_ok_def Let_def split: prod.splits)

lemma close_stream_ok: "manager_ok m \<Longrightarrow> manager_ok (snd (close_stream_resource m rid))"
  by (simp add: close_stream_resource_def manager_ok_drop split: option.splits)

lemma create_cell_ok: "manager_ok m \<Longrightarrow> manager_ok (snd (create_resource_cell m c k ow s pol))"
  by (auto simp: create_resource_cell_def resource_cell_entry_new_def cell_ok_def Let_def
      intro!: manager_ok_cell)

definition refuses_lease :: "resource_cell_entry \<Rightarrow> string \<Rightarrow> bool" where
  "refuses_lease cell mode \<longleftrightarrow>
     mode = ''exclusive'' \<and> active_leases cell \<noteq> fmempty \<or>
     mode \<noteq> ''shared'' \<and> mode \<noteq> ''exclusive'' \<or>
     mode = ''shared'' \<and> list_ex (\<lambda>lease. rl_mode lease = ''exclusive'') (fm_values (active_leases cell))"

lemma if_or3: "(if A then a else if B then a else if C then a else b) = (if A \<or> B \<or> C then a else b)"
  by simp

lemma acquire_lease_state:
  assumes "fmlookup (resource_cells m) c = Some cell"
    and "next_id (id_source m) ''resource-lease'' = (lid, s')"
  shows "snd (acquire_resource_lease m c t x mode ex) =
     (if refuses_lease cell mode then m
      else m\<lparr>id_source := s', resource_cells := fmupd c (cell\<lparr>active_leases := fmupd lid
        \<lparr>rl_lease_id = lid, rl_cell_id = c, borrower_task_id = t, borrower_executor_id = x,
         rl_mode = mode, rl_expires_at_step = ex, rl_generation = cell_generation (cell_descriptor cell)\<rparr>
        (active_leases cell)\<rparr>) (resource_cells m)\<rparr>)"
  unfolding acquire_resource_lease_def refuses_lease_def assms
  by (simp only: option.case prod.case Let_def if_distrib [of snd] snd_conv if_or3)

lemma ex_Inr_if3:
  "(\<exists>l. (if A then Inl a else if B then Inl b else if C then Inl c else Inr d) = Inr l) \<longleftrightarrow> \<not> (A \<or> B \<or> C)"
  by simp

lemma acquire_lease_succeeds:
  assumes "fmlookup (resource_cells m) c = Some cell"
  shows "(\<exists>l. fst (acquire_resource_lease m c t x mode ex) = Inr l) \<longleftrightarrow> \<not> refuses_lease cell mode"
  unfolding acquire_resource_lease_def refuses_lease_def assms
  by (cases "next_id (id_source m) ''resource-lease''")
    (simp only: option.case prod.case Let_def if_distrib [of fst] fst_conv ex_Inr_if3)

lemma acquire_lease_ok: "manager_ok m \<Longrightarrow> manager_ok (snd (acquire_resource_lease m c t x mode ex))"
proof (cases "fmlookup (resource_cells m) c")
  case (Some cell)
  obtain lid s' where ids: "next_id (id_source m) ''resource-lease'' = (lid, s')" by fastforce
  let ?lease = "\<lparr>rl_lease_id = lid, rl_cell_id = c, borrower_task_id = t, borrower_executor_id = x,
      rl_mode = mode, rl_expires_at_step = ex, rl_generation = cell_generation (cell_descriptor cell)\<rparr>"
  let ?cell = "cell\<lparr>active_leases := fmupd lid ?lease (active_leases cell)\<rparr>"
  assume ok: "manager_ok m"
  then have cell: "cell_ok c cell" by (rule manager_okD(1)) (rule Some)
  have "cell_ok c ?cell" if "mode = ''exclusive''" "active_leases cell = fmempty"
    using cell_ok_id [OF cell] that by (auto intro!: cell_okI split: if_splits)
  moreover have "cell_ok c ?cell"
    if m: "mode = ''shared''" "\<not> list_ex (\<lambda>l. rl_mode l = ''exclusive'') (fm_values (active_leases cell))"
  proof (rule cell_okI)
    show "cell_id (cell_descriptor ?cell) = c"
      using cell_ok_id [OF cell] by simp
    fix k l
    assume l: "fmlookup (active_leases ?cell) k = Some l"
    show "rl_lease_id l = k \<and> rl_cell_id l = c \<and> rl_generation l = cell_generation (cell_descriptor ?cell) \<and>
        (rl_mode l = ''shared'' \<or> rl_mode l = ''exclusive'' \<and> fmdom' (active_leases ?cell) = {k})"
    proof (cases "k = lid")
      case False
      then have old: "fmlookup (active_leases cell) k = Some l" using l by simp
      then have "rl_mode l \<noteq> ''exclusive''"
        using m(2) by (auto simp: list_ex_iff set_fm_values)
      with cell_okD [OF cell old] show ?thesis by simp
    qed (use l m(1) in auto)
  qed
  ultimately have new: "cell_ok c ?cell" if "\<not> refuses_lease cell mode"
    using that unfolding refuses_lease_def by blast
  show ?thesis
    unfolding acquire_lease_state [OF Some ids] using ok manager_ok_leased [OF ok new] by simp
qed (simp add: acquire_resource_lease_def)

lemma release_lease_ok: "manager_ok m \<Longrightarrow> manager_ok (snd (release_resource_lease_checked m l step))"
proof (cases "fmlookup (resource_cells m) (rl_cell_id l)")
  case (Some cell)
  assume ok: "manager_ok m"
  then have cell: "cell_ok (rl_cell_id l) cell" by (rule manager_okD(1)) (rule Some)
  then have "cell_ok (rl_cell_id l) (cell\<lparr>active_leases := fmdrop (rl_lease_id l) (active_leases cell)\<rparr>)"
    by (auto simp: cell_ok_def)
  with ok Some show ?thesis
    by (simp add: release_resource_lease_checked_def manager_ok_cell split: sum.splits)
qed (simp add: release_resource_lease_checked_def)

lemma cell_retain_lookup:
  "fmlookup (active_leases (cell_retain step cell)) k = Some l \<longleftrightarrow>
     fmlookup (active_leases cell) k = Some l \<and> \<not> resource_lease_expired l step"
  by (auto simp: cell_retain_def)

lemma cell_retain_ok:
  assumes cell: "cell_ok c cell"
  shows "cell_ok c (cell_retain step cell)"
proof (rule cell_okI)
  show "cell_id (cell_descriptor (cell_retain step cell)) = c"
    using cell_ok_id [OF cell] by (simp add: cell_retain_def)
  fix lid l
  assume l: "fmlookup (active_leases (cell_retain step cell)) lid = Some l"
  then have old: "fmlookup (active_leases cell) lid = Some l"
    by (simp add: cell_retain_lookup)
  have "fmdom' (active_leases (cell_retain step cell)) \<subseteq> fmdom' (active_leases cell)"
    by (auto simp: fmdom'_lookup cell_retain_lookup)
  moreover have "lid \<in> fmdom' (active_leases (cell_retain step cell))"
    using l by (rule fmdom'I)
  ultimately have "fmdom' (active_leases (cell_retain step cell)) = {lid}"
    if "fmdom' (active_leases cell) = {lid}"
    using that by blast
  then show "rl_lease_id l = lid \<and> rl_cell_id l = c \<and>
      rl_generation l = cell_generation (cell_descriptor (cell_retain step cell)) \<and>
      (rl_mode l = ''shared'' \<or>
       rl_mode l = ''exclusive'' \<and> fmdom' (active_leases (cell_retain step cell)) = {lid})"
    using cell_okD [OF cell old] by (auto simp: cell_retain_def)
qed

lemma reclaim_leases_ok: "manager_ok m \<Longrightarrow> manager_ok (snd (reclaim_expired_resource_leases m step))"
  by (auto simp: reclaim_expired_resource_leases_def manager_ok_def intro: cell_retain_ok)

lemma acquire_write_ok: "manager_ok m \<Longrightarrow> manager_ok (snd (acquire_write_lease m r ow ex))"
  by (auto simp: acquire_write_lease_def manager_ok_def entry_ok_def Let_def split: option.splits prod.splits)

lemma release_write_ok:
  assumes "manager_ok m"
  shows "manager_ok (snd (release_write_lease_checked m l step))"
proof (cases "fmlookup (hub m) (tok_ref_id (lease_tok l))")
  case (Some e)
  with assms have "entry_ok (tok_ref_id (lease_tok l)) (e\<lparr>writer := None\<rparr>)"
    using manager_okD(2) by (fastforce simp: entry_ok_def)
  with assms Some show ?thesis
    by (simp add: release_write_lease_checked_def Let_def manager_ok_entry)
qed (use assms in \<open>simp add: release_write_lease_checked_def\<close>)

lemmas manager_ops_ok =
  pack_value_ok register_ok sync_ok create_stream_ok close_stream_ok create_cell_ok
  acquire_lease_ok release_lease_ok reclaim_leases_ok acquire_write_ok release_write_ok

lemma manager_run_ok: "manager_ok m \<Longrightarrow> manager_ok (manager_run tv c m)"
  by (cases c)
    (simp_all add: manager_ops_ok sync_plan_receipt_def sync_all_ok register_surface_occupancy_def
      release_surface_occupancy_def split: option.splits)

lemma manager_reach_ok: "manager_reach tv m \<Longrightarrow> manager_ok m"
  by (induction rule: manager_reach.induct)
    (simp_all add: manager_run_ok, simp add: manager_ok_def resource_manager_new_def)

text \<open>
  C30. Readers and writers of a resource cell exclude each other. After any sequence of calls, an
  active lease of a cell is filed under its own id, belongs to that cell and has its generation, and
  when one of the active leases is exclusive there is no other; an exclusive lease is granted exactly
  when no lease is active, and a shared one exactly when no exclusive lease is.
\<close>

theorem cell_leases_exclude:
  assumes "manager_reach tv m" and "fmlookup (resource_cells m) cid = Some cell"
  shows "(\<forall>lid l. fmlookup (active_leases cell) lid = Some l \<longrightarrow>
       rl_lease_id l = lid \<and> rl_cell_id l = cid \<and>
       rl_generation l = cell_generation (cell_descriptor cell) \<and>
       (rl_mode l = ''exclusive'' \<longrightarrow> fmdom' (active_leases cell) = {lid})) \<and>
     ((\<exists>l. fst (acquire_resource_lease m cid task executor ''exclusive'' expires) = Inr l) \<longleftrightarrow>
        active_leases cell = fmempty) \<and>
     ((\<exists>l. fst (acquire_resource_lease m cid task executor ''shared'' expires) = Inr l) \<longleftrightarrow>
        (\<forall>lid l. fmlookup (active_leases cell) lid = Some l \<longrightarrow> rl_mode l = ''shared''))"
proof (intro conjI)
  have cell: "cell_ok cid cell"
    using manager_reach_ok [OF assms(1)] assms(2) by (rule manager_okD(1))
  show "\<forall>lid l. fmlookup (active_leases cell) lid = Some l \<longrightarrow>
       rl_lease_id l = lid \<and> rl_cell_id l = cid \<and>
       rl_generation l = cell_generation (cell_descriptor cell) \<and>
       (rl_mode l = ''exclusive'' \<longrightarrow> fmdom' (active_leases cell) = {lid})"
  proof (intro allI impI)
    fix lid l
    assume "fmlookup (active_leases cell) lid = Some l"
    from cell_okD [OF cell this] show "rl_lease_id l = lid \<and> rl_cell_id l = cid \<and>
       rl_generation l = cell_generation (cell_descriptor cell) \<and>
       (rl_mode l = ''exclusive'' \<longrightarrow> fmdom' (active_leases cell) = {lid})"
      by auto
  qed
  show "(\<exists>l. fst (acquire_resource_lease m cid task executor ''exclusive'' expires) = Inr l) \<longleftrightarrow>
      active_leases cell = fmempty"
    unfolding acquire_lease_succeeds [OF assms(2)] by (simp add: refuses_lease_def)
  have "rl_mode l = ''exclusive'' \<longleftrightarrow> rl_mode l \<noteq> ''shared''"
    if "fmlookup (active_leases cell) lid = Some l" for lid l
    using cell_okD(4) [OF cell that] by (elim disjE conjE) simp_all
  then have "list_ex (\<lambda>l. rl_mode l = ''exclusive'') (fm_values (active_leases cell)) \<longleftrightarrow>
      \<not> (\<forall>lid l. fmlookup (active_leases cell) lid = Some l \<longrightarrow> rl_mode l = ''shared'')"
    unfolding list_ex_iff set_fm_values mem_Collect_eq Bex_def by blast
  then show "(\<exists>l. fst (acquire_resource_lease m cid task executor ''shared'' expires) = Inr l) \<longleftrightarrow>
      (\<forall>lid l. fmlookup (active_leases cell) lid = Some l \<longrightarrow> rl_mode l = ''shared'')"
    unfolding acquire_lease_succeeds [OF assms(2)] by (simp add: refuses_lease_def)
qed

section \<open>The life of a resource entry\<close>

text \<open>
  A call displaces the entry of a resource when it closes its stream, or opens a stream under the
  id that the resource was registered with.
\<close>

fun displaces :: "string \<Rightarrow> 'v manager_call \<Rightarrow> 'v resource_manager \<Rightarrow> bool" where
  "displaces rid (MCloseStream r) m \<longleftrightarrow> r = rid"
| "displaces rid (MCreateStream i s p e) m \<longleftrightarrow> fst (next_id (id_source m) ''resource'') = rid"
| "displaces rid _ m \<longleftrightarrow> False"

fun releases :: "lease_token \<Rightarrow> 'v manager_call \<Rightarrow> bool" where
  "releases w (MReleaseWrite l step) \<longleftrightarrow> lease_tok l = w"
| "releases w _ \<longleftrightarrow> False"

fun manager_runs ::
  "('v \<Rightarrow> string + string) \<Rightarrow> 'v manager_call list \<Rightarrow> 'v resource_manager \<Rightarrow> 'v resource_manager" where
  "manager_runs tv [] m = m"
| "manager_runs tv (c # cs) m = manager_runs tv cs (manager_run tv c m)"

fun undisplaced ::
  "('v \<Rightarrow> string + string) \<Rightarrow> string \<Rightarrow> 'v manager_call list \<Rightarrow> 'v resource_manager \<Rightarrow> bool" where
  "undisplaced tv rid [] m \<longleftrightarrow> True"
| "undisplaced tv rid (c # cs) m \<longleftrightarrow> \<not> displaces rid c m \<and> undisplaced tv rid cs (manager_run tv c m)"

definition newer :: "resource_ref \<Rightarrow> resource_ref \<Rightarrow> bool" where
  "newer d d' \<longleftrightarrow> generation d < generation d' \<or> generation d = generation d' \<and> version d \<le> version d'"

lemma newer_refl [simp]: "newer d d"
  by (simp add: newer_def)

lemma newer_trans: "newer a b \<Longrightarrow> newer b c \<Longrightarrow> newer a c"
  by (auto simp: newer_def)

text \<open>An entry follows another: its descriptor is not older and it has the same writer.\<close>

definition follows :: "resource_entry \<Rightarrow> resource_entry \<Rightarrow> bool" where
  "follows e e' \<longleftrightarrow> newer (descriptor e) (descriptor e') \<and> writer e' = writer e"

lemma follows_refl [simp]: "follows e e"
  by (simp add: follows_def)

lemma follows_trans: "follows a b \<Longrightarrow> follows b c \<Longrightarrow> follows a c"
  by (auto simp: follows_def intro: newer_trans)

lemma sync_entry:
  assumes "fmlookup (hub m) rid = Some e"
  shows "\<exists>e'. fmlookup (hub (snd (sync_resource_descriptor m d))) rid = Some e' \<and> follows e e'"
  using assms
  by (cases "ref_id d = rid"; cases "fmlookup (hub m) (ref_id d)")
    (auto simp: sync_resource_descriptor_def Let_def hub_insert_def resource_entry_new_def follows_def
      newer_def)

lemma sync_all_entry:
  assumes "fmlookup (hub m) rid = Some e"
  shows "\<exists>e'. fmlookup (hub (snd (sync_all m ds))) rid = Some e' \<and> follows e e'"
  using assms
proof (induction m ds arbitrary: e rule: sync_all.induct)
  case (2 m d ds)
  obtain e1 where e1: "fmlookup (hub (snd (sync_resource_descriptor m d))) rid = Some e1" "follows e e1"
    using sync_entry [OF "2.prems", of d] by (elim exE conjE) (rule that)
  obtain res m1 where s: "sync_resource_descriptor m d = (res, m1)" by fastforce
  show ?case
  proof (cases res)
    case (Inl err)
    with s e1 show ?thesis by simp
  next
    case (Inr r)
    with s have sr: "sync_resource_descriptor m d = (Inr r, m1)" by simp
    obtain e2 where e2: "fmlookup (hub (snd (sync_all m1 ds))) rid = Some e2" "follows e1 e2"
      using "2.IH" [OF sr [symmetric] refl, of e1] e1(1) s by auto
    have "snd (sync_all m (d # ds)) = snd (sync_all m1 ds)"
      using sr by (simp split: prod.splits sum.splits)
    with e2 follows_trans [OF e1(2) e2(2)] show ?thesis by simp
  qed
qed simp

lemma hub_unchanged [simp]:
  "hub (snd (pack_value tv m sch x)) = hub m"
  "hub (snd (create_resource_cell m c k ow sch pol)) = hub m"
  "hub (snd (release_resource_lease_checked m l step)) = hub m"
  "hub (snd (reclaim_expired_resource_leases m now)) = hub m"
  "hub (snd (register_surface_occupancy m h)) = hub m"
  "hub (snd (release_surface_occupancy m hid)) = hub m"
  by (simp_all add: pack_value_def create_resource_cell_def release_resource_lease_checked_def
      reclaim_expired_resource_leases_def register_surface_occupancy_def release_surface_occupancy_def
      Let_def split: sum.splits option.splits prod.splits)

lemma hub_acquire_lease [simp]: "hub (snd (acquire_resource_lease m c t x mode ex)) = hub m"
proof (cases "fmlookup (resource_cells m) c")
  case (Some cell)
  obtain lid s' where ids: "next_id (id_source m) ''resource-lease'' = (lid, s')" by fastforce
  show ?thesis unfolding acquire_lease_state [OF Some ids] by simp
qed (simp add: acquire_resource_lease_def)

definition outlives :: "'v manager_call \<Rightarrow> resource_entry \<Rightarrow> resource_entry \<Rightarrow> bool" where
  "outlives c e e' \<longleftrightarrow> newer (descriptor e) (descriptor e') \<and>
     (\<forall>w. writer e = Some w \<and> \<not> releases w c \<longrightarrow> writer e' = Some w)"

lemma follows_outlives: "follows e e' \<Longrightarrow> outlives c e e'"
  by (simp add: follows_def outlives_def)

lemma outlives_refl [simp]: "outlives c e e"
  by (simp add: outlives_def)

lemma acquire_write_entry:
  "fmlookup (hub m) rid = Some e \<Longrightarrow>
     \<exists>e'. fmlookup (hub (snd (acquire_write_lease m r ow ex))) rid = Some e' \<and> outlives c e e'"
  by (cases "fmlookup (hub m) r") (auto simp: acquire_write_lease_def outlives_def Let_def split: prod.splits)

lemma release_write_entry:
  "fmlookup (hub m) rid = Some e \<Longrightarrow>
     \<exists>e'. fmlookup (hub (snd (release_write_lease_checked m l step))) rid = Some e' \<and>
       outlives (MReleaseWrite l step) e e'"
  by (cases "fmlookup (hub m) (tok_ref_id (lease_tok l))")
    (auto simp: release_write_lease_checked_def outlives_def Let_def)

lemma run_entry:
  assumes "fmlookup (hub m) rid = Some e" and "\<not> displaces rid c m"
  shows "\<exists>e'. fmlookup (hub (manager_run tv c m)) rid = Some e' \<and> outlives c e e'"
proof (cases c)
  case (MRegister d)
  with assms(1) show ?thesis
    by (auto simp: register_resource_descriptor_def hub_insert_def resource_entry_new_def)
next
  case (MSync d)
  with sync_entry [OF assms(1), of d] show ?thesis by (auto intro: follows_outlives)
next
  case (MSyncReceipt r)
  with sync_all_entry [OF assms(1), of "receipt_descriptors r"] show ?thesis
    by (auto simp: sync_plan_receipt_def intro: follows_outlives)
next
  case (MCreateStream i s p x)
  with assms show ?thesis
    by (auto simp: create_stream_resource_def hub_insert_def resource_entry_new_def Let_def split: prod.splits)
next
  case (MCloseStream r)
  with assms show ?thesis
    by (cases "fmlookup (hub m) r") (auto simp: close_stream_resource_def)
next
  case (MAcquireWrite r ow ex)
  with acquire_write_entry [OF assms(1)] show ?thesis by simp
next
  case (MReleaseWrite l step)
  with release_write_entry [OF assms(1)] show ?thesis by simp
qed (use assms(1) in simp_all)

lemma runs_entry:
  assumes "fmlookup (hub m) rid = Some e" and "undisplaced tv rid cs m"
  shows "\<exists>e'. fmlookup (hub (manager_runs tv cs m)) rid = Some e' \<and>
     newer (descriptor e) (descriptor e') \<and>
     (\<forall>w. writer e = Some w \<and> list_all (\<lambda>c. \<not> releases w c) cs \<longrightarrow> writer e' = Some w)"
  using assms
proof (induction cs arbitrary: m e)
  case (Cons c cs)
  obtain e1 where e1: "fmlookup (hub (manager_run tv c m)) rid = Some e1" "outlives c e e1"
    using run_entry [OF Cons.prems(1), of c tv] Cons.prems(2) by (auto simp del: displaces.simps)
  obtain e2 where "fmlookup (hub (manager_runs tv cs (manager_run tv c m))) rid = Some e2"
    "newer (descriptor e1) (descriptor e2)"
    "\<forall>w. writer e1 = Some w \<and> list_all (\<lambda>c. \<not> releases w c) cs \<longrightarrow> writer e2 = Some w"
    using Cons.IH [OF e1(1)] Cons.prems(2) by auto
  with e1(2) show ?case
    by (auto simp: outlives_def intro: newer_trans)
qed simp



section \<open>Stored values\<close>

lemma sync_frame:
  "rm_values (snd (sync_resource_descriptor m d)) = rm_values m"
  "id_source (snd (sync_resource_descriptor m d)) = id_source m"
  by (simp_all add: sync_resource_descriptor_def Let_def split: option.splits)

lemma sync_all_frame:
  "rm_values (snd (sync_all m ds)) = rm_values m \<and> id_source (snd (sync_all m ds)) = id_source m"
proof (induction m ds rule: sync_all.induct)
  case (2 m d ds)
  then show ?case
    using sync_frame [of m d] by (auto split: prod.splits sum.splits)
qed simp

lemma acquire_lease_frame:
  "rm_values (snd (acquire_resource_lease m c t x mode ex)) = rm_values m \<and>
   id_source (snd (acquire_resource_lease m c t x mode ex)) \<in>
     {id_source m, snd (next_id (id_source m) ''resource-lease'')}"
proof (cases "fmlookup (resource_cells m) c")
  case (Some cell)
  obtain lid s' where ids: "next_id (id_source m) ''resource-lease'' = (lid, s')" by fastforce
  show ?thesis unfolding acquire_lease_state [OF Some ids] by (simp add: ids)
qed (simp add: acquire_resource_lease_def)

text \<open>A call issues at most one id, and stores a value only under an id it issues.\<close>

definition stores_fresh :: "'v resource_manager \<Rightarrow> 'v resource_manager \<Rightarrow> bool" where
  "stores_fresh m m' \<longleftrightarrow>
     (id_source m' = id_source m \<and> rm_values m' = rm_values m) \<or>
     (\<exists>p. id_source m' = snd (next_id (id_source m) p) \<and>
        (\<forall>k. k \<noteq> fst (next_id (id_source m) p) \<longrightarrow> fmlookup (rm_values m') k = fmlookup (rm_values m) k))"

lemma run_stores_fresh: "stores_fresh m (manager_run tv c m)"
proof (cases c)
  case (MPackValue sch x)
  show ?thesis
  proof (cases "tv x")
    case (Inr bytes)
    then show ?thesis
      using MPackValue
      by (cases "next_id (id_source m) ''value''")
        (auto simp: stores_fresh_def pack_value_def Let_def intro!: exI [of _ "''value''"])
  qed (simp add: MPackValue stores_fresh_def pack_value_def)
next
  case (MCreateStream i s p x)
  then show ?thesis
    by (cases "next_id (id_source m) ''resource''")
      (auto simp: stores_fresh_def create_stream_resource_def Let_def intro!: exI [of _ "''resource''"])
next
  case (MAcquireLease c' t x mode ex)
  then show ?thesis
    using acquire_lease_frame [of m c' t x mode ex] by (auto simp: stores_fresh_def)
next
  case (MAcquireWrite r ow ex)
  then show ?thesis
    by (cases "next_id (id_source m) ''lease''")
      (auto simp: stores_fresh_def acquire_write_lease_def Let_def intro!: exI [of _ "''lease''"] split: option.splits)
next
  case (MSyncReceipt r)
  then show ?thesis
    by (simp add: stores_fresh_def sync_plan_receipt_def sync_all_frame)
qed (simp_all add: stores_fresh_def sync_frame register_resource_descriptor_def close_stream_resource_def
    create_resource_cell_def release_resource_lease_checked_def reclaim_expired_resource_leases_def
    release_write_lease_checked_def register_surface_occupancy_def release_surface_occupancy_def Let_def
    split: option.splits sum.splits)

lemma run_keeps_value:
  assumes "ids_issued (id_source m) < 2 ^ 64 - 1" and "id_number k \<le> ids_issued (id_source m)"
  shows "fmlookup (rm_values (manager_run tv c m)) k = fmlookup (rm_values m) k"
    "id_number k \<le> ids_issued (id_source (manager_run tv c m))"
    "ids_issued (id_source (manager_run tv c m)) \<le> Suc (ids_issued (id_source m))"
  using run_stores_fresh [of m tv c] ids.issue_fresh [OF assms] ids.issue_mono [OF assms]
    ids.issue_count [OF assms(1)] assms(2)
  unfolding stores_fresh_def by (metis, metis, metis le_SucI order_refl)

lemma runs_keep_value:
  assumes "ids_issued (id_source m) + length cs < 2 ^ 64" and "id_number k \<le> ids_issued (id_source m)"
  shows "fmlookup (rm_values (manager_runs tv cs m)) k = fmlookup (rm_values m) k"
  using assms
proof (induction cs arbitrary: m)
  case (Cons c cs)
  have "ids_issued (id_source m) < 2 ^ 64 - 1" using Cons.prems(1) by simp
  note step = run_keeps_value [OF this Cons.prems(2), of tv c]
  have "ids_issued (id_source (manager_run tv c m)) + length cs < 2 ^ 64"
    using step(3) Cons.prems(1) by simp
  from Cons.IH [OF this step(2)] step(1) show ?case by simp
qed simp

text \<open>What a client holds of a packed value: the value itself or a reference to read.\<close>

fun read_packed :: "'v resource_manager \<Rightarrow> 'v packed_value \<Rightarrow> 'v runtime_result option" where
  "read_packed m (PackedInline (RVInline sch x ver)) = Some (Inr x)"
| "read_packed m (PackedValue r) = Some (get_value m r)"
| "read_packed m _ = None"

text \<open>
  C32. A packed value is read back. Packing succeeds exactly when the value can be encoded, and what
  it returns, inline or by reference, gives the same value after any further calls, as long as the
  id counter has not wrapped.
\<close>

theorem packed_value_read_back:
  assumes "ids_issued (id_source m) + length cs < 2 ^ 64 - 1"
  shows "case tv x of
       Inl err \<Rightarrow> pack_value tv m sch x =
         (Inl (runtime_failure ''resource.encode_failed'' ''runtime.resource_manager'' err), m)
     | Inr bytes \<Rightarrow> (\<exists>p m1. pack_value tv m sch x = (Inr p, m1) \<and>
         read_packed (manager_runs tv cs m1) p = Some (Inr x))"
proof (cases "tv x")
  case (Inr bytes)
  obtain rid s' where ids: "next_id (id_source m) ''value'' = (rid, s')" by fastforce
  have lt: "ids_issued (id_source m) < 2 ^ 64 - 1" using assms by simp
  have num: "id_number rid \<le> ids_issued s'" "ids_issued s' = Suc (ids_issued (id_source m))"
    using ids.issue_number [OF lt, of "''value''"] ids.issue_count [OF lt, of "''value''"] ids by simp_all
  show ?thesis
  proof (cases "length bytes \<le> inline_value_max_bytes m")
    case True
    with Inr show ?thesis by (simp add: pack_value_def)
  next
    case False
    then obtain r m1 where p: "pack_value tv m sch x = (Inr (PackedValue r), m1)" "vr_ref_id r = rid"
      "id_source m1 = s'" "fmlookup (rm_values m1) rid = Some (r, x)"
      using Inr ids by (simp add: pack_value_def Let_def)
    then have "fmlookup (rm_values (manager_runs tv cs m1)) rid = Some (r, x)"
      using runs_keep_value [of m1 cs rid tv] num assms by simp
    with Inr p show ?thesis by (simp add: get_value_def)
  qed
qed (simp add: pack_value_def)

section \<open>Occupancy\<close>

text \<open>
  A table of counters: each item adds its weight to the counters of some keys. The three tables of
  the occupancy report are tables of counters.
\<close>

locale counter_table =
  fixes add :: "'i \<Rightarrow> 'm \<Rightarrow> 'm"
    and read :: "'m \<Rightarrow> string \<Rightarrow> u64"
    and weight :: "'i \<Rightarrow> string \<Rightarrow> u64"
  assumes read_add: "read (add i m) k = read m k + weight i k"
begin

lemma read_fold: "read (fold add is m) k = read m k + (\<Sum>i \<leftarrow> is. weight i k)"
  by (induction "is" arbitrary: m) (simp_all add: read_add add.assoc)

end

definition entry_surfaces :: "resource_entry \<Rightarrow> string list" where
  "entry_surfaces e =
     [schema (descriptor e), ''resource_schema:'' @ schema (descriptor e),
      provider_id (descriptor e), ''resource_provider:'' @ provider_id (descriptor e)]"

definition cell_surfaces :: "resource_cell_entry \<Rightarrow> string list" where
  "cell_surfaces cell =
     [cell_schema (cell_descriptor cell), ''resource_schema:'' @ cell_schema (cell_descriptor cell)]"

definition stream_surfaces :: "resource_entry \<Rightarrow> string list" where
  "stream_surfaces e = [resource_kind (descriptor e), ''stream:'' @ resource_kind (descriptor e)]"

definition entry_refs :: "resource_entry \<Rightarrow> string \<Rightarrow> u64" where
  "entry_refs e sid = of_nat (count_list (entry_surfaces e) sid)"

definition entry_leases :: "resource_entry \<Rightarrow> string \<Rightarrow> u64" where
  "entry_leases e sid = (if writer e = None then 0 else of_nat (count_list (entry_surfaces e) sid))"

definition cell_leases :: "resource_cell_entry \<Rightarrow> string \<Rightarrow> u64" where
  "cell_leases cell sid =
     of_nat (count_list (cell_surfaces cell) sid) * of_nat (length (fm_keys (active_leases cell)))"

definition refs_of :: "(string, u64 \<times> u64) fmap \<Rightarrow> string \<Rightarrow> u64" where
  "refs_of m k = fst (fm_get_or (0, 0) m k)"

definition leases_of :: "(string, u64 \<times> u64) fmap \<Rightarrow> string \<Rightarrow> u64" where
  "leases_of m k = snd (fm_get_or (0, 0) m k)"

lemma fm_get_or_upd: "fm_get_or d (fmupd k x m) k' = (if k' = k then x else fm_get_or d m k')"
  by (simp add: fm_get_or_def)

lemma read_increment_resource:
  "refs_of (increment_resource_count sid e m) k = refs_of m k + (if k = sid then 1 else 0)"
  "leases_of (increment_resource_count sid e m) k =
     leases_of m k + (if k = sid \<and> writer e \<noteq> None then 1 else 0)"
  by (cases "fm_get_or (0, 0) m sid";
      simp add: refs_of_def leases_of_def increment_resource_count_def fm_get_or_upd)+

lemma read_increment_active:
  "refs_of (increment_active_lease_count sid n m) k = refs_of m k"
  "leases_of (increment_active_lease_count sid n m) k = leases_of m k + (if k = sid then n else 0)"
  by (cases "fm_get_or (0, 0) m sid";
      simp add: refs_of_def leases_of_def increment_active_lease_count_def fm_get_or_upd)+

interpretation er: counter_table count_entry refs_of entry_refs
  by unfold_locales (simp add: count_entry_def count_resource_surface_def read_increment_resource
      entry_refs_def entry_surfaces_def)

interpretation el: counter_table count_entry leases_of entry_leases
  by unfold_locales (simp add: count_entry_def count_resource_surface_def read_increment_resource
      entry_leases_def entry_surfaces_def)

interpretation cr: counter_table count_cell refs_of "\<lambda>cell k. 0"
  by unfold_locales (simp add: count_cell_def Let_def read_increment_active)

interpretation cl: counter_table count_cell leases_of cell_leases
proof
  fix cell m k
  have "\<not> 0 < (n :: u64) \<longleftrightarrow> n = 0" for n
    by (simp add: word_gt_0)
  then show "leases_of (count_cell cell m) k = leases_of m k + cell_leases cell k"
    by (simp add: count_cell_def Let_def read_increment_active cell_leases_def cell_surfaces_def)
qed

definition count_stream :: "resource_entry \<Rightarrow> (string, u64) fmap \<Rightarrow> (string, u64) fmap" where
  "count_stream e counts = increment_count (''stream:'' @ resource_kind (descriptor e))
     (increment_count (resource_kind (descriptor e)) counts)"

interpretation st: counter_table count_stream "fm_get_or 0" "\<lambda>e k. of_nat (count_list (stream_surfaces e) k)"
  by unfold_locales (simp add: count_stream_def increment_count_def fm_get_or_def stream_surfaces_def)

definition handles_of ::
  "surface_occupancy_handle_kind \<Rightarrow> (string, handle_counts) fmap \<Rightarrow> string \<Rightarrow> u64" where
  "handles_of kind m k = (case fmlookup m k of None \<Rightarrow> 0 | Some c \<Rightarrow>
     (case kind of HandleStream \<Rightarrow> hc_streams c | HandleSubscription \<Rightarrow> hc_subscriptions c
      | HandleTimer \<Rightarrow> hc_timers c))"

lemma handles_of_kinds:
  "handles_of HandleStream m k = (case fmlookup m k of None \<Rightarrow> 0 | Some c \<Rightarrow> hc_streams c)"
  "handles_of HandleSubscription m k = (case fmlookup m k of None \<Rightarrow> 0 | Some c \<Rightarrow> hc_subscriptions c)"
  "handles_of HandleTimer m k = (case fmlookup m k of None \<Rightarrow> 0 | Some c \<Rightarrow> hc_timers c)"
  by (simp_all add: handles_of_def split: option.splits)

definition handle_weight ::
  "surface_occupancy_handle_kind \<Rightarrow> surface_occupancy_handle \<Rightarrow> string \<Rightarrow> u64" where
  "handle_weight kind h k = (if handle_surface_id h = k \<and> handle_kind h = kind then 1 else 0)"

interpretation hd: counter_table count_handle "handles_of kind" "handle_weight kind" for kind
  by unfold_locales
    (auto simp: count_handle_def handles_of_def handle_weight_def fm_get_or_def Let_def
      split: option.splits surface_occupancy_handle_kind.splits)

text \<open>The report for one surface, by counting over the records.\<close>

definition counted_item :: "'v resource_manager \<Rightarrow> contract_surface \<Rightarrow> surface_occupancy" where
  "counted_item m s =
     (let sid = surface_id s; item = zero_occupancy sid;
          handles = (\<lambda>kind. \<Sum>h \<leftarrow> fm_values (occupancy_handles m). handle_weight kind h sid);
          counted = item\<lparr>resource_refs := \<Sum>e \<leftarrow> hub_entries (hub m). entry_refs e sid,
             active_lease_count := (\<Sum>e \<leftarrow> hub_entries (hub m). entry_leases e sid) +
               (\<Sum>cell \<leftarrow> fm_values (resource_cells m). cell_leases cell sid)\<rparr>
      in case surface_kind s of
           SurfResourceSchema \<Rightarrow> counted
         | SurfResourceProvider \<Rightarrow> counted
         | SurfSchema \<Rightarrow> item\<lparr>resource_refs := value_surface_count m s\<rparr>
         | SurfStream \<Rightarrow> item\<lparr>open_streams :=
             (\<Sum>e \<leftarrow> filter (\<lambda>e. is_stream (access (descriptor e))) (hub_entries (hub m)).
                of_nat (count_list (stream_surfaces e) sid)) + handles HandleStream\<rparr>
         | SurfSubscription \<Rightarrow> item\<lparr>subscriptions := handles HandleSubscription\<rparr>
         | SurfTimer \<Rightarrow> item\<lparr>timers := handles HandleTimer\<rparr>
         | _ \<Rightarrow> item)"

lemma surface_counts_read:
  "refs_of (resource_surface_counts m) sid = (\<Sum>e \<leftarrow> hub_entries (hub m). entry_refs e sid)"
  "leases_of (resource_surface_counts m) sid = (\<Sum>e \<leftarrow> hub_entries (hub m). entry_leases e sid) +
     (\<Sum>cell \<leftarrow> fm_values (resource_cells m). cell_leases cell sid)"
  by (simp_all add: resource_surface_counts_def er.read_fold el.read_fold cr.read_fold cl.read_fold
      refs_of_def [of fmempty] leases_of_def [of fmempty] fm_get_or_def)

lemma stream_counts_read:
  "fm_get_or 0 (stream_surface_counts m) sid =
     (\<Sum>e \<leftarrow> filter (\<lambda>e. is_stream (access (descriptor e))) (hub_entries (hub m)).
        of_nat (count_list (stream_surfaces e) sid))"
  unfolding stream_surface_counts_def count_stream_def [symmetric]
  by (simp only: st.read_fold) (simp add: fm_get_or_def)

lemma handle_counts_read:
  "handles_of kind (handle_surface_counts m) sid =
     (\<Sum>h \<leftarrow> fm_values (occupancy_handles m). handle_weight kind h sid)"
  by (simp add: handle_surface_counts_def hd.read_fold) (simp add: handles_of_def)

text \<open>
  C34. The occupancy that a reload checks is a count. For every surface the report built from the
  three counter tables gives the number of registered resources, active leases, stored values, open
  streams, subscriptions and timers that mention it, and reports exactly the surfaces in use.
\<close>

theorem occupancy_counts:
  "rm_surface_occupancy m surfaces = filter (\<lambda>item. \<not> is_zero item) (map (counted_item m) surfaces)"
proof -
  have "surface_item m s = counted_item m s" for s
  proof -
    have resources: "(case fmlookup (resource_surface_counts m) (surface_id s) of
         Some (refs, leases) \<Rightarrow> (zero_occupancy (surface_id s))\<lparr>resource_refs := refs, active_lease_count := leases\<rparr>
       | None \<Rightarrow> zero_occupancy (surface_id s)) =
       (zero_occupancy (surface_id s))\<lparr>resource_refs := refs_of (resource_surface_counts m) (surface_id s),
         active_lease_count := leases_of (resource_surface_counts m) (surface_id s)\<rparr>"
      by (simp add: refs_of_def leases_of_def fm_get_or_def zero_occupancy_def split: option.splits prod.splits)
    show ?thesis
      unfolding surface_item_def counted_item_def Let_def resources surface_counts_read stream_counts_read
        handle_counts_read [symmetric]
      by (simp add: handles_of_kinds split: contract_surface_kind.splits)
  qed
  then show ?thesis
    by (simp add: rm_surface_occupancy_def cong: map_cong)
qed

section \<open>Receipts\<close>

definition receipt_mentions :: "'v plan_receipt \<Rightarrow> resource_ref list" where
  "receipt_mentions receipt =
     (case pr_resource_ref receipt of None \<Rightarrow> [] | Some r \<Rightarrow> [r]) @
     (case pr_snapshot receipt of None \<Rightarrow> [] | Some s \<Rightarrow> [snapshot_ref s]) @ descriptor_updates receipt"

lemma receipt_descriptors_fold:
  "receipt_descriptors receipt = fm_values (fold merge_descriptor (receipt_mentions receipt) fmempty)"
  by (simp add: receipt_descriptors_def receipt_mentions_def Let_def split: option.splits)

definition newest_of :: "resource_ref list \<Rightarrow> (string, resource_ref) fmap \<Rightarrow> bool" where
  "newest_of seen ds \<longleftrightarrow>
     (\<forall>k r. fmlookup ds k = Some r \<longrightarrow> ref_id r = k \<and> r \<in> set seen) \<and>
     (\<forall>d \<in> set seen. \<exists>r. fmlookup ds (ref_id d) = Some r \<and> newer d r)"

lemma newer_total: "newer a b \<or> newer b a"
  by (auto simp: newer_def)

lemma merge_newest:
  assumes "newest_of seen ds"
  shows "newest_of (seen @ [d]) (merge_descriptor d ds)"
proof (cases "fmlookup ds (ref_id d)")
  case None
  with assms show ?thesis by (auto simp: newest_of_def merge_descriptor_def)
next
  case (Some cur)
  have cond: "generation d > generation cur \<or> generation d = generation cur \<and> version d \<ge> version cur \<longleftrightarrow> newer cur d"
    by (auto simp: newer_def)
  show ?thesis
  proof (cases "newer cur d")
    case True
    have "\<exists>r. fmlookup (fmupd (ref_id d) d ds) (ref_id x) = Some r \<and> newer x r" if "x \<in> set seen" for x
    proof (cases "ref_id x = ref_id d")
      case same: True
      then have "newer x cur" using assms that Some by (fastforce simp: newest_of_def)
      with True same show ?thesis by (auto intro: newer_trans)
    qed (use assms that in \<open>auto simp: newest_of_def\<close>)
    with assms Some True show ?thesis by (auto simp: newest_of_def merge_descriptor_def cond)
  next
    case False
    then have "newer d cur" using newer_total by blast
    with assms Some False show ?thesis by (auto simp: newest_of_def merge_descriptor_def cond)
  qed
qed

lemma fold_merge_newest: "newest_of seen ds \<Longrightarrow> newest_of (seen @ xs) (fold merge_descriptor xs ds)"
proof (induction xs arbitrary: seen ds)
  case (Cons x xs)
  from Cons.IH [OF merge_newest [OF Cons.prems]] show ?case by simp
qed simp

text \<open>
  C35. A plan receipt is synced with the newest descriptor it mentions of each resource: one
  descriptor per mentioned resource, in ascending order of reference, none of them older than
  another mention of the same resource.
\<close>

theorem receipt_newest:
  "sorted_wrt (<) (map ref_id (receipt_descriptors receipt)) \<and>
   set (receipt_descriptors receipt) \<subseteq> set (receipt_mentions receipt) \<and>
   (\<forall>d \<in> set (receipt_mentions receipt). \<exists>r \<in> set (receipt_descriptors receipt).
      ref_id r = ref_id d \<and>
      (generation d < generation r \<or> generation d = generation r \<and> version d \<le> version r))"
proof -
  define ds where "ds = fold merge_descriptor (receipt_mentions receipt) fmempty"
  have ok: "newest_of (receipt_mentions receipt) ds"
    using fold_merge_newest [of "[]" fmempty "receipt_mentions receipt"]
    by (simp add: ds_def newest_of_def)
  have "map ref_id (fm_values ds) = fm_keys ds"
    using ok by (auto simp: fm_values_keys newest_of_def fmdom'_lookup intro!: map_idI)
  moreover have "sorted_wrt (<) (fm_keys ds)"
    using sorted_fm_keys [of ds] distinct_fm_keys [of ds] by (simp add: strict_sorted_iff)
  ultimately show ?thesis
    using ok unfolding receipt_descriptors_fold ds_def [symmetric]
    by (fastforce simp: newest_of_def set_fm_values newer_def)
qed

section \<open>Examples\<close>

text \<open>A manager of numbers, encoded as that many bytes, with one resource and one leased cell.\<close>

definition sample_encode :: "nat \<Rightarrow> string + string" where
  "sample_encode n = (if n = 7 then Inl ''seven'' else Inr (replicate n (CHR ''x'')))"

definition sample_descriptor :: "string \<Rightarrow> u64 \<Rightarrow> resource_ref" where
  "sample_descriptor rid ver =
     \<lparr>ref_id = rid, resource_ident = \<lparr>kind_id = ''doc'', slot_id = ''s'', rid_generation = 1, rid_version = ver\<rparr>,
      semantic = CowVersionedState, provider_id = ''p'', resource_kind = ''doc'', schema = ''doc.v1'',
      version = ver, generation = 1, access = Inline, size_hint = None, content_hash = None,
      lifetime = Persistent, ref_lease = None, seal_state = Writable\<rparr>"

definition sample_manager :: "nat resource_manager" where
  "sample_manager = manager_runs sample_encode
     [MRegister (sample_descriptor ''doc'' 1), MCreateCell ''db'' ''pool'' ''plugin'' ''db.v1'' ''drain'',
      MAcquireLease ''db'' ''t1'' ''x1'' ''exclusive'' (Some 5)] resource_manager_new"

definition sample_calls :: "nat manager_call list" where
  "sample_calls = [MSync (sample_descriptor ''doc'' 4), MSync (sample_descriptor ''doc'' 2),
     MAcquireWrite ''doc'' ''t2'' None, MCreateStream ''logs'' ''log.v1'' ''p'' ''e'',
     MReclaim 9]"

lemma sample_manager_reach: "manager_reach sample_encode sample_manager"
  unfolding sample_manager_def manager_runs.simps by (intro manager_reach.intros)

lemma lookup_the: "fmlookup m k \<noteq> None \<Longrightarrow> fmlookup m k = Some (the (fmlookup m k))"
  by simp

lemma sample_cell: "fmlookup (resource_cells sample_manager) ''db'' =
    Some (the (fmlookup (resource_cells sample_manager) ''db''))"
  by (rule lookup_the) code_simp

theorem cell_leases_exclude_witness:
  "\<not> (\<exists>l. fst (acquire_resource_lease sample_manager ''db'' ''t2'' ''x1'' ''shared'' None) = Inr l) \<and>
   active_leases (the (fmlookup (resource_cells sample_manager) ''db'')) \<noteq> fmempty"
proof -
  have shared: "(\<forall>lid l. fmlookup m lid = Some l \<longrightarrow> rl_mode l = ''shared'') \<longleftrightarrow>
      list_all (\<lambda>l. rl_mode l = ''shared'') (fm_values m)" for m
    by (auto simp: list_all_iff set_fm_values)
  have "\<not> list_all (\<lambda>l. rl_mode l = ''shared'')
      (fm_values (active_leases (the (fmlookup (resource_cells sample_manager) ''db''))))"
    by code_simp
  moreover have "active_leases (the (fmlookup (resource_cells sample_manager) ''db'')) \<noteq> fmempty"
    by code_simp
  ultimately show ?thesis
    using cell_leases_exclude [OF sample_manager_reach sample_cell, of "''t2''" "''x1''" None]
    unfolding shared by blast
qed


definition sample_lease :: exclusive_write_lease where
  "sample_lease = \<lparr>lease_tok = \<lparr>token_id = ''lease-00000000000000000000000002'', tok_ref_id = ''doc'',
     tok_owner = ''t1'', tok_mode = ''exclusive_write'', tok_expires_at_step = Some 8, tok_generation = 1\<rparr>\<rparr>"


theorem packed_value_read_back_witness:
  "(\<exists>p m1. pack_value sample_encode sample_manager ''n'' 5000 = (Inr p, m1) \<and>
     read_packed (manager_runs sample_encode sample_calls m1) p = Some (Inr 5000))"
proof -
  have "ids_issued (id_source sample_manager) = 1" "length sample_calls = 5"
    by code_simp+
  then have "ids_issued (id_source sample_manager) + length sample_calls < 2 ^ 64 - 1" by simp
  from packed_value_read_back [OF this, where tv = sample_encode and x = 5000 and sch = "''n''"] show ?thesis
    by (simp add: sample_encode_def)
qed

definition sample_receipt :: "nat plan_receipt" where
  "sample_receipt = \<lparr>pr_plan_id = ''p'', pr_status = ''ok'', pr_resource_ref = Some (sample_descriptor ''b'' 2),
     pr_snapshot = None, descriptor_updates = [sample_descriptor ''a'' 1, sample_descriptor ''b'' 1],
     pr_new_version = None, pr_output = 0\<rparr>"

theorem receipt_newest_witness:
  "sorted_wrt (<) (map ref_id (receipt_descriptors sample_receipt)) \<and>
   receipt_descriptors sample_receipt = [sample_descriptor ''a'' 1, sample_descriptor ''b'' 2]"
proof
  show "sorted_wrt (<) (map ref_id (receipt_descriptors sample_receipt))"
    using receipt_newest [of sample_receipt] by (rule conjunct1)
  show "receipt_descriptors sample_receipt = [sample_descriptor ''a'' 1, sample_descriptor ''b'' 2]"
    by code_simp
qed

text \<open>
  A stream is opened under the next id of the source without looking whether a resource is
  registered under it: the entry is replaced and a write lease on it is lost.
\<close>

definition sample_leased :: "nat resource_manager" where
  "sample_leased = manager_runs sample_encode
     [MRegister (sample_descriptor ''resource-00000000000000000000000002'' 3),
      MAcquireWrite ''resource-00000000000000000000000002'' ''t1'' None] resource_manager_new"

theorem stream_replaces_leased_resource:
  "case (fmlookup (hub sample_leased) ''resource-00000000000000000000000002'',
       fmlookup (hub (snd (create_stream_resource sample_leased ''s'' ''x'' ''p'' ''e'')))
         ''resource-00000000000000000000000002'') of
     (Some before, Some after) \<Rightarrow> writer before \<noteq> None \<and> writer after = None
   | _ \<Rightarrow> False"
  by code_simp

end
