(* ===== verification/Dispatch_Batch.thy ===== *)
theory Dispatch_Batch
  imports Contracts
begin

text \<open>
  Scheduling decisions and work batches: \<open>crates/mutsuki-runtime-core/src/runtime/scheduler.rs\<close>,
  \<open>runtime/runner_loop/batch.rs\<close>, and the batch types of
  \<open>crates/mutsuki-runtime-contracts/src/batch\<close>. \<open>serde_json::from_value\<close> for tasks is the parameter
  \<open>from_value\<close>, which returns nothing on a decoding error.
\<close>

section \<open>Scheduling decisions\<close>

definition single_batch :: "nat \<Rightarrow> dispatch_budget" where
  "single_batch n = \<lparr>max_entries = n, max_batches = (if 0 < n then 1 else 0), max_bytes = usize_max,
     lane_budgets = fmempty\<rparr>"

definition budget_clamp_to :: "dispatch_budget \<Rightarrow> nat \<Rightarrow> dispatch_budget" where
  "budget_clamp_to b hard =
     (let b1 = b\<lparr>max_entries := min (max_entries b) hard\<rparr>
      in if max_entries b1 = 0 then b1\<lparr>max_batches := 0\<rparr>
         else b1\<lparr>max_batches := min (max_batches b1) (max_entries b1)\<rparr>)"

definition budget_clamp_batches :: "dispatch_budget \<Rightarrow> nat \<Rightarrow> dispatch_budget" where
  "budget_clamp_batches b hard =
     (let b1 = b\<lparr>max_batches := min (max_batches b) hard\<rparr>
      in if max_batches b1 = 0 then b1\<lparr>max_entries := 0\<rparr> else b1)"

record schedule_decision =
  scheduler_id :: string
  decision_reason :: string
  requested_dispatch_limit :: nat
  dispatch_limit :: nat
  decision_budget :: dispatch_budget

definition schedule_decision_new :: "string \<Rightarrow> nat \<Rightarrow> string \<Rightarrow> schedule_decision" where
  "schedule_decision_new sid limit reason =
     \<lparr>scheduler_id = sid, decision_reason = reason, requested_dispatch_limit = limit,
      dispatch_limit = limit, decision_budget = single_batch limit\<rparr>"

definition decision_clamp_to :: "schedule_decision \<Rightarrow> nat \<Rightarrow> schedule_decision" where
  "decision_clamp_to d hard =
     d\<lparr>dispatch_limit := min (dispatch_limit d) hard,
       decision_budget := budget_clamp_to (decision_budget d) hard\<rparr>"

definition decision_clamp_batches :: "schedule_decision \<Rightarrow> nat \<Rightarrow> schedule_decision" where
  "decision_clamp_batches d hard =
     (let d1 = d\<lparr>decision_budget := budget_clamp_batches (decision_budget d) hard\<rparr>
      in if max_batches (decision_budget d1) = 0 then d1\<lparr>dispatch_limit := 0\<rparr> else d1)"

definition with_budget :: "schedule_decision \<Rightarrow> dispatch_budget \<Rightarrow> schedule_decision" where
  "with_budget d b = d\<lparr>decision_budget := b, dispatch_limit := min (dispatch_limit d) (max_entries b)\<rparr>"

text \<open>The decision that \<open>claim_runner_work\<close> acts on, and the batches it may start.\<close>

definition allowed_batches :: "'v runner_descriptor \<Rightarrow> schedule_decision \<Rightarrow> nat" where
  "allowed_batches runner d = min (max_batches (decision_budget d)) (max_inflight_batches (concurrency runner))"

definition effective_decision :: "'v runner_descriptor \<Rightarrow> schedule_decision \<Rightarrow> schedule_decision" where
  "effective_decision runner d =
     (let n = allowed_batches runner d
      in decision_clamp_batches
           (decision_clamp_to d (usize_sat_mul (max_batch_entries (rd_batch runner)) n)) n)"

text \<open>\<open>slice::chunks\<close>; the code never calls it with size 0, where it would panic.\<close>

fun chunks :: "nat \<Rightarrow> 'a list \<Rightarrow> 'a list list" where
  "chunks n [] = []"
| "chunks n (x # xs) =
     (if n = 0 then [] else (x # take (n - 1) xs) # chunks n (drop (n - 1) xs))"

definition dispatch_chunks :: "'v runner_descriptor \<Rightarrow> schedule_decision \<Rightarrow> 'a list \<Rightarrow> 'a list list" where
  "dispatch_chunks runner d grp =
     take (allowed_batches runner d) (chunks (max_batch_entries (rd_batch runner)) grp)"

section \<open>Batch types\<close>

record batch_entry =
  entry_id :: string
  entry_task_id :: string
  entry_trace_id :: "string option"
  entry_parent_id :: "string option"
  payload_index :: nat
  resource_requirement_indices :: "nat list"
  cancel_index :: "nat option"
  deadline_tick :: "u64 option"
  entry_priority :: int
  entry_lane :: dispatch_lane
  entry_ordering :: ordering_requirement

record resource_read_view =
  view_ref_id :: string
  view_requirement_indices :: "nat list"

record resource_write_lock =
  lock_ref_id :: string
  lock_requirement_indices :: "nat list"

record 'v deferred_resource_op =
  op_entry_id :: string
  op_ref_id :: string
  op_operation :: string
  op_payload :: 'v

record 'v work_resource_plan =
  read_views :: "resource_read_view list"
  write_locks :: "resource_write_lock list"
  parallel_groups :: "string list list"
  serial_groups :: "string list list"
  parallelism_limit :: nat
  version_checks :: "version_expectation list"
  deferred_writes :: "'v deferred_resource_op list"
  conflict_entries :: "string list"

definition work_resource_plan_empty :: "'v work_resource_plan" where
  "work_resource_plan_empty =
     \<lparr>read_views = [], write_locks = [], parallel_groups = [], serial_groups = [],
      parallelism_limit = 1, version_checks = [], deferred_writes = [], conflict_entries = []\<rparr>"

fun layout_as_str :: "payload_layout \<Rightarrow> string" where
  "layout_as_str LayoutRow = ''row''"
| "layout_as_str LayoutColumnar = ''columnar''"
| "layout_as_str LayoutBinaryPacked = ''binary_packed''"
| "layout_as_str LayoutResourceBacked = ''resource_backed''"

record 'v column_payload =
  column_name :: string
  column_values :: "'v list"

record 'v columnar_payload =
  columns :: "'v column_payload list"
  columnar_row_count :: nat

record binary_packed_payload =
  packed_encoding :: string
  packed_bytes :: "8 word list"
  packed_row_count :: nat

record resource_slice =
  slice_resource :: resource_ref
  slice_offset :: u64
  slice_length :: "u64 option"

datatype 'v batch_payload =
    PayloadLocal "'v task list"
  | PayloadRow "'v list"
  | PayloadColumnar "'v columnar_payload"
  | PayloadBinaryPacked binary_packed_payload
  | PayloadResourceBacked "resource_slice list"

fun payload_layout_of :: "'v batch_payload \<Rightarrow> payload_layout" where
  "payload_layout_of (PayloadLocal _) = LayoutRow"
| "payload_layout_of (PayloadRow _) = LayoutRow"
| "payload_layout_of (PayloadColumnar _) = LayoutColumnar"
| "payload_layout_of (PayloadBinaryPacked _) = LayoutBinaryPacked"
| "payload_layout_of (PayloadResourceBacked _) = LayoutResourceBacked"

fun row_count :: "'v batch_payload \<Rightarrow> nat" where
  "row_count (PayloadLocal ts) = length ts"
| "row_count (PayloadRow rows) = length rows"
| "row_count (PayloadColumnar p) = columnar_row_count p"
| "row_count (PayloadBinaryPacked p) = packed_row_count p"
| "row_count (PayloadResourceBacked slices) = length slices"

definition payload_error :: "string \<Rightarrow> runtime_error" where
  "payload_error route = runtime_error_new ERR_TASK_CLAIM_CONFLICT ''runtime.batch_payload'' route"

fun decode_rows :: "('v \<Rightarrow> 'v task option) \<Rightarrow> nat \<Rightarrow> 'v list \<Rightarrow> 'v task list runtime_result" where
  "decode_rows from_value i [] = Inr []"
| "decode_rows from_value i (x # xs) =
     (case from_value x of
        None \<Rightarrow> Inl (payload_error (''payload.row.'' @ show_nat i))
      | Some t \<Rightarrow>
          (case decode_rows from_value (Suc i) xs of Inl e \<Rightarrow> Inl e | Inr ts \<Rightarrow> Inr (t # ts)))"

fun try_row_tasks :: "('v \<Rightarrow> 'v task option) \<Rightarrow> 'v batch_payload \<Rightarrow> 'v task list runtime_result" where
  "try_row_tasks from_value (PayloadLocal ts) = Inr ts"
| "try_row_tasks from_value (PayloadRow rows) = decode_rows from_value 0 rows"
| "try_row_tasks from_value p =
     Inl (payload_error (''payload.layout.'' @ layout_as_str (payload_layout_of p)))"

definition nth_opt :: "'a list \<Rightarrow> nat \<Rightarrow> 'a option" where
  "nth_opt xs i = (if i < length xs then Some (xs ! i) else None)"

fun task_at :: "('v \<Rightarrow> 'v task option) \<Rightarrow> 'v batch_payload \<Rightarrow> nat \<Rightarrow> 'v task runtime_result" where
  "task_at from_value (PayloadLocal ts) i =
     (case nth_opt ts i of
        None \<Rightarrow> Inl (payload_error (''payload.row.'' @ show_nat i @ ''.missing''))
      | Some t \<Rightarrow> Inr t)"
| "task_at from_value (PayloadRow rows) i =
     (case nth_opt rows i of
        None \<Rightarrow> Inl (payload_error (''payload.row.'' @ show_nat i @ ''.missing''))
      | Some x \<Rightarrow>
          (case from_value x of
             None \<Rightarrow> Inl (payload_error (''payload.row.'' @ show_nat i))
           | Some t \<Rightarrow> Inr t))"
| "task_at from_value p i =
     Inl (payload_error (''payload.layout.'' @ layout_as_str (payload_layout_of p)))"

record 'v task_batch =
  tb_batch_id :: string
  tb_tick_id :: "string option"
  tb_tasks :: "'v task list"
  tb_resource_plan :: "'v work_resource_plan option"

definition task_batch_one :: "string \<Rightarrow> 'v task \<Rightarrow> 'v task_batch" where
  "task_batch_one bid t = \<lparr>tb_batch_id = bid, tb_tick_id = None, tb_tasks = [t], tb_resource_plan = None\<rparr>"

record work_set =
  ws_tick_id :: string
  ws_batch_key :: string
  ws_entries :: "batch_entry list"
  ws_requirements :: "resource_requirement list"

record 'v work_batch =
  batch_id :: string
  tick_id :: string
  batch_key :: string
  batch_entries :: "batch_entry list"
  batch_payload :: "'v batch_payload"
  resource_plan :: "'v work_resource_plan"
  task_leases :: "task_lease list"

section \<open>Splitting by write conflicts\<close>

definition is_write :: "resource_access_mode \<Rightarrow> bool" where
  "is_write mode \<longleftrightarrow> mode = AccessWrite \<or> mode = AccessExclusiveWrite"

definition write_requirement_refs :: "'v task \<Rightarrow> string list" where
  "write_requirement_refs t = map req_ref_id (filter (\<lambda>r. is_write (req_mode r)) (resource_requirements t))"

fun split_loop ::
  "(task_lease \<times> 'v task) list list \<Rightarrow> (task_lease \<times> 'v task) list \<Rightarrow> string fset \<Rightarrow>
    (task_lease \<times> 'v task) list \<Rightarrow> (task_lease \<times> 'v task) list list" where
  "split_loop groups current refs [] = (if current \<noteq> [] then groups @ [current] else groups)"
| "split_loop groups current refs (lt # rest) =
     (let write_refs = write_requirement_refs (snd lt);
          conflict = (current \<noteq> [] \<and> list_ex (\<lambda>r. r |\<in>| refs) write_refs);
          groups' = (if conflict then groups @ [current] else groups);
          current' = (if conflict then [] else current);
          refs' = (if conflict then {||} else refs)
      in split_loop groups' (current' @ [lt]) (refs' |\<union>| fset_of_list write_refs) rest)"

definition split_leased_tasks_by_resource_conflict ::
  "(task_lease \<times> 'v task) list \<Rightarrow> (task_lease \<times> 'v task) list list" where
  "split_leased_tasks_by_resource_conflict lts = split_loop [] [] {||} lts"

section \<open>Building a batch\<close>

definition push_index :: "string \<Rightarrow> nat \<Rightarrow> (string, nat list) fmap \<Rightarrow> (string, nat list) fmap" where
  "push_index r i m = fmupd r (fm_get_or [] m r @ [i]) m"

definition plan_requirement ::
  "nat \<times> resource_requirement \<Rightarrow>
    (string, nat list) fmap \<times> (string, nat list) fmap \<times> version_expectation list \<Rightarrow>
    (string, nat list) fmap \<times> (string, nat list) fmap \<times> version_expectation list" where
  "plan_requirement = (\<lambda>(i, r) (reads, writes, checks).
     let (reads', writes') = (case req_mode r of
            AccessRead \<Rightarrow> (push_index (req_ref_id r) i reads, writes)
          | _ \<Rightarrow> (reads, push_index (req_ref_id r) i writes));
         checks' = (case req_expected_version r of
            None \<Rightarrow> checks
          | Some ver \<Rightarrow> checks @ [\<lparr>exp_ref_id = req_ref_id r, exp_expected_version = ver\<rparr>])
     in (reads', writes', checks'))"

text \<open>The entries whose requirement list one resource for writing more than once.\<close>

definition conflict_indices :: "nat list \<Rightarrow> (string, nat list) fmap \<Rightarrow> nat fset" where
  "conflict_indices owners writes =
     fset_of_list (concat (map (\<lambda>ixs. if length ixs > 1 then List.map_filter (nth_opt owners) ixs else [])
       (fm_values writes)))"

definition plan_entry ::
  "nat fset \<Rightarrow> nat \<times> batch_entry \<Rightarrow> string list \<times> string list list \<times> string list \<Rightarrow>
    string list \<times> string list list \<times> string list" where
  "plan_entry conflicts = (\<lambda>(i, e) (par, serial, conf).
     if i |\<in>| conflicts then (par, serial, conf @ [entry_id e])
     else case entry_ordering e of
            OrdNone \<Rightarrow> (par @ [entry_id e], serial, conf)
          | _ \<Rightarrow> (par, serial @ [[entry_id e]], conf))"

definition build_work_resource_plan :: "work_set \<Rightarrow> nat list \<Rightarrow> 'v work_resource_plan" where
  "build_work_resource_plan ws owners =
     (let (reads, writes, checks) =
            fold plan_requirement (enumerate 0 (ws_requirements ws)) (fmempty, fmempty, []);
          conflicts = conflict_indices owners writes;
          (par, serial, conf) = fold (plan_entry conflicts) (enumerate 0 (ws_entries ws)) ([], [], [])
      in work_resource_plan_empty
           \<lparr>version_checks := checks,
            read_views := map (\<lambda>k. \<lparr>view_ref_id = k, view_requirement_indices = the (fmlookup reads k)\<rparr>)
              (fm_keys reads),
            write_locks := map (\<lambda>k. \<lparr>lock_ref_id = k, lock_requirement_indices = the (fmlookup writes k)\<rparr>)
              (fm_keys writes),
            conflict_entries := conf,
            serial_groups := serial,
            parallel_groups := (if par \<noteq> [] then [par] else []),
            parallelism_limit := (if serial = [] \<and> conf = [] then max (length (ws_entries ws)) 1 else 1)\<rparr>)"

definition push_entry ::
  "nat \<times> task_lease \<times> 'v task \<Rightarrow> resource_requirement list \<times> nat list \<times> batch_entry list \<Rightarrow>
    resource_requirement list \<times> nat list \<times> batch_entry list" where
  "push_entry = (\<lambda>(i, l, t) (reqs, owners, entries).
     let start = length reqs; reqs' = reqs @ resource_requirements t
     in (reqs', owners @ replicate (length (resource_requirements t)) i,
         entries @ [\<lparr>entry_id = task_id t, entry_task_id = task_id t, entry_trace_id = trace_id t,
           entry_parent_id = None, payload_index = i,
           resource_requirement_indices = [start..<length reqs'], cancel_index = Some i,
           deadline_tick = None, entry_priority = priority t, entry_lane = task_dispatch_lane t,
           entry_ordering = task_ordering t\<rparr>]))"

definition build_work_batch ::
  "u64 \<Rightarrow> string \<Rightarrow> 'v runner_descriptor \<Rightarrow> (task_lease \<times> 'v task) list \<Rightarrow> 'v work_batch" where
  "build_work_batch current_step bid runner lts =
     (let tick = ''tick-'' @ show_u64 current_step;
          (reqs, owners, entries) = fold push_entry (enumerate 0 lts) ([], [], []);
          ws = \<lparr>ws_tick_id = tick, ws_batch_key = runner_id runner, ws_entries = entries,
                ws_requirements = reqs\<rparr>
      in \<lparr>batch_id = bid, tick_id = tick, batch_key = ws_batch_key ws, batch_entries = ws_entries ws,
          batch_payload = PayloadLocal (map snd lts),
          resource_plan = build_work_resource_plan ws owners, task_leases = map fst lts\<rparr>)"

section \<open>Span attributes\<close>

fun lane_debug :: "dispatch_lane \<Rightarrow> string" where
  "lane_debug LaneControl = ''Control''"
| "lane_debug LaneInteractive = ''Interactive''"
| "lane_debug LaneNormal = ''Normal''"
| "lane_debug LaneBackground = ''Background''"
| "lane_debug LaneBulk = ''Bulk''"

fun runner_mode_debug :: "runner_mode \<Rightarrow> string" where
  "runner_mode_debug ScalarAdapter = ''ScalarAdapter''"
| "runner_mode_debug NativeBatch = ''NativeBatch''"
| "runner_mode_debug BatchMode = ''Batch''"

fun join :: "string \<Rightarrow> string list \<Rightarrow> string" where
  "join sep [] = []"
| "join sep [x] = x"
| "join sep (x # y # xs) = x @ sep @ join sep (y # xs)"

definition dispatch_batch_attrs ::
  "('v \<Rightarrow> 'v task option) \<Rightarrow> 'v runner_descriptor \<Rightarrow> 'v work_batch \<Rightarrow> task_lease list \<Rightarrow> string \<Rightarrow>
    (string, scalar_value) fmap" where
  "dispatch_batch_attrs from_value runner b leases executor =
     (let n = SInt (usize_as_i64 (length (batch_entries b)));
          plan = resource_plan b;
          attrs = fmap_of_list
            [(''executor_id'', SString executor), (''task_count'', n), (''entry_count'', n),
             (''batch_id'', SString (batch_id b)), (''tick_id'', SString (tick_id b)),
             (''payload_layout'', SString (layout_as_str (payload_layout_of (batch_payload b)))),
             (''resource_conflict_count'', SInt (usize_as_i64 (length (conflict_entries plan)))),
             (''parallel_group_count'', SInt (usize_as_i64 (length (parallel_groups plan)))),
             (''serial_group_count'', SInt (usize_as_i64 (length (serial_groups plan)))),
             (''effective_concurrency'', SInt (usize_as_i64 (parallelism_limit plan))),
             (''runner_mode'', SString (runner_mode_debug (batch_mode (rd_batch runner))))];
          attrs = (case batch_entries b of
             [] \<Rightarrow> attrs
           | e # _ \<Rightarrow> fmupd ''lane'' (SString (lane_debug (entry_lane e)))
               (fmupd ''task_id'' (SString (entry_task_id e))
                 (fmupd ''entry_id'' (SString (entry_id e)) attrs)));
          attrs = (case task_at from_value (batch_payload b) 0 of
             Inl _ \<Rightarrow> attrs
           | Inr t \<Rightarrow> (case correlation_id t of
               None \<Rightarrow> attrs | Some c \<Rightarrow> fmupd ''correlation_id'' (SString c) attrs))
      in fmupd ''task_lease_ids'' (SString (join '','' (map lease_id leases))) attrs)"

end
