(* ===== verification/Batch_Properties.thy ===== *)
theory Batch_Properties
  imports Dispatch_Batch
begin

text \<open>
  What scheduling and batching promise: a claimed group fits the batches the runner allows, groups
  are split exactly at write conflicts, and the plan of a batch never runs two writers of one
  resource in parallel.
\<close>

section \<open>Capacity\<close>

lemma chunks_concat: "0 < n \<Longrightarrow> concat (chunks n xs) = xs"
  by (induction n xs rule: chunks.induct) simp_all

lemma chunks_bounds: "c \<in> set (chunks n xs) \<Longrightarrow> c \<noteq> [] \<and> length c \<le> n"
  by (induction n xs rule: chunks.induct) (auto split: if_splits)

lemma length_chunks: "length xs \<le> k * n \<Longrightarrow> length (chunks n xs) \<le> k"
proof (induction n xs arbitrary: k rule: chunks.induct)
  case (2 n x xs)
  show ?case
  proof (cases "n = 0")
    case False
    with "2.prems" obtain k' where k: "k = Suc k'" by (cases k) auto
    have "length (drop (n - 1) xs) \<le> k' * n"
      using "2.prems" False by (simp add: k)
    from "2.IH" [OF False this] False show ?thesis by (simp add: k)
  qed simp
qed simp

lemma usize_sat_mul_le: "usize_sat_mul a b \<le> a * b"
  by (simp add: usize_sat_mul_def)

lemma effective_limit:
  "dispatch_limit (effective_decision runner d) \<le>
     min (dispatch_limit d) (usize_sat_mul (max_batch_entries (rd_batch runner)) (allowed_batches runner d))"
  by (simp add: effective_decision_def decision_clamp_batches_def decision_clamp_to_def Let_def)

lemma effective_limits:
  "dispatch_limit (effective_decision runner d) \<le> dispatch_limit d"
  "dispatch_limit (effective_decision runner d) \<le>
     allowed_batches runner d * max_batch_entries (rd_batch runner)"
  using effective_limit [of runner d]
    usize_sat_mul_le [of "max_batch_entries (rd_batch runner)" "allowed_batches runner d"]
  by (simp_all only: min.bounded_iff mult.commute [of "allowed_batches runner d"]) linarith+

text \<open>
  C38. What is claimed fits the batches the runner allows. The decision that claiming acts on never
  exceeds the scheduler's decision, starts no more batches than the runner's concurrency, and is 0
  when no batch may start; a group of at most that many tasks is cut into non-empty batches of at
  most the runner's batch size, and the allowed batches hold the whole group, in order.
\<close>

theorem claimed_group_fits:
  assumes "length grp \<le> dispatch_limit (effective_decision runner d)"
  shows "concat (dispatch_chunks runner d grp) = grp \<and>
     length (dispatch_chunks runner d grp) \<le> max_inflight_batches (concurrency runner) \<and>
     list_all (\<lambda>c. c \<noteq> [] \<and> length c \<le> max_batch_entries (rd_batch runner)) (dispatch_chunks runner d grp) \<and>
     length grp \<le> dispatch_limit d"
proof -
  let ?n = "max_batch_entries (rd_batch runner)"
  have len: "length grp \<le> allowed_batches runner d * ?n"
    using assms effective_limits(2) [of runner d] by (rule order_trans)
  then have all: "dispatch_chunks runner d grp = chunks ?n grp"
    using length_chunks [OF len] by (simp add: dispatch_chunks_def)
  have "concat (chunks ?n grp) = grp"
    using len chunks_concat [of ?n grp] by (cases "?n = 0") simp_all
  moreover have "length (dispatch_chunks runner d grp) \<le> max_inflight_batches (concurrency runner)"
    by (simp add: dispatch_chunks_def allowed_batches_def)
  ultimately show ?thesis
    using all chunks_bounds [of _ ?n grp] order_trans [OF assms effective_limits(1)]
    by (auto simp: list_all_iff)
qed

definition sample_batch_runner :: "nat runner_descriptor" where
  "sample_batch_runner =
     \<lparr>runner_id = ''r'', plugin_id = ''p'', plugin_generation = 1, accepted_protocol_ids = [''a''],
      purity = Pure, execution_class = Cpu, invocation_mode = AsyncReentrant, concurrency = Reentrant 2 8,
      input_schema = 0, output_schema = 0,
      rd_batch = runner_batch_capability_default\<lparr>max_batch_entries := 2, cap_max_inflight_batches := 2\<rparr>,
      rd_payload = runner_payload_capability_default, rd_resources = runner_resource_capability_default,
      rd_ordering = runner_ordering_capability_default, rd_control = runner_control_capability_default,
      rd_metadata = fmempty, contract_surfaces = []\<rparr>"

definition sample_decision :: schedule_decision where
  "sample_decision = \<lparr>scheduler_id = ''s'', decision_reason = ''test'', requested_dispatch_limit = 9,
     dispatch_limit = 7, decision_budget = \<lparr>max_entries = 7, max_batches = 3, max_bytes = 90,
       lane_budgets = fmempty\<rparr>\<rparr>"

theorem claimed_group_fits_witness:
  "concat (dispatch_chunks sample_batch_runner sample_decision [1, 2, 3 :: nat]) = [1, 2, 3] \<and>
   dispatch_chunks sample_batch_runner sample_decision [1, 2, 3 :: nat] = [[1, 2], [3]] \<and>
   dispatch_limit (effective_decision sample_batch_runner sample_decision) = 4"
proof (intro conjI)
  have "length [1, 2, 3 :: nat] \<le> dispatch_limit (effective_decision sample_batch_runner sample_decision)"
    by code_simp
  from claimed_group_fits [OF this]
  show "concat (dispatch_chunks sample_batch_runner sample_decision [1, 2, 3 :: nat]) = [1, 2, 3]" by simp
qed code_simp+

section \<open>Splitting\<close>

abbreviation writes_of :: "task_lease \<times> 'v task \<Rightarrow> string set" where
  "writes_of lt \<equiv> set (write_requirement_refs (snd lt))"

definition separated :: "(task_lease \<times> 'v task) list \<Rightarrow> bool" where
  "separated g \<longleftrightarrow> sorted_wrt (\<lambda>a b. writes_of a \<inter> writes_of b = {}) g"

definition forced :: "(task_lease \<times> 'v task) list \<Rightarrow> (task_lease \<times> 'v task) list \<Rightarrow> bool" where
  "forced g g' \<longleftrightarrow> (\<exists>a \<in> set g. writes_of a \<inter> writes_of (hd g') \<noteq> {})"

definition split_ok :: "(task_lease \<times> 'v task) list list \<Rightarrow> bool" where
  "split_ok gs \<longleftrightarrow> (\<forall>g \<in> set gs. g \<noteq> [] \<and> separated g) \<and> successively forced gs"

lemma split_ok_snoc:
  "split_ok (gs @ [g]) \<longleftrightarrow> split_ok gs \<and> g \<noteq> [] \<and> separated g \<and> (gs = [] \<or> forced (last gs) g)"
  by (auto simp: split_ok_def successively_append_iff)

lemma split_loop_ok:
  assumes "split_ok (if current = [] then groups else groups @ [current])"
    and "current = [] \<Longrightarrow> groups = []"
    and "fset refs = (\<Union>a \<in> set current. writes_of a)"
  shows "split_ok (split_loop groups current refs rest) \<and>
     concat (split_loop groups current refs rest) = concat groups @ current @ rest"
  using assms
proof (induction groups current refs rest rule: split_loop.induct)
  case (2 groups current refs lt rest)
  let ?c = "current \<noteq> [] \<and> list_ex (\<lambda>r. r |\<in>| refs) (write_requirement_refs (snd lt))"
  let ?groups = "if ?c then groups @ [current] else groups"
  let ?current = "if ?c then [] else current"
  let ?refs = "if ?c then {||} else refs"
  have conf: "list_ex (\<lambda>r. r |\<in>| refs) (write_requirement_refs (snd lt)) \<longleftrightarrow>
      (\<exists>a \<in> set current. writes_of a \<inter> writes_of lt \<noteq> {})"
    using "2.prems"(3) by (auto simp: list_ex_iff)
  have "split_ok (?groups @ [?current @ [lt]])"
  proof (cases ?c)
    case True
    have "split_ok ((groups @ [current]) @ [[lt]])"
      unfolding split_ok_snoc using "2.prems"(1) True conf
      by (simp add: split_ok_snoc separated_def forced_def)
    with True show ?thesis by simp
  next
    case False
    show ?thesis
    proof (cases "current = []")
      case True
      with "2.prems"(1,2) show ?thesis by (simp add: split_ok_def separated_def)
    next
      case nonempty: False
      with "2.prems"(1) have old: "split_ok groups" "separated current" "groups = [] \<or> forced (last groups) current"
        by (simp_all add: split_ok_snoc)
      have "separated (current @ [lt])"
        using old(2) False nonempty conf by (auto simp: separated_def sorted_wrt_append)
      moreover have "forced g (current @ [lt]) = forced g current" for g
        using nonempty by (simp add: forced_def)
      ultimately show ?thesis
        unfolding if_not_P [OF False] split_ok_snoc using old by simp
    qed
  qed
  moreover have "fset (?refs |\<union>| fset_of_list (write_requirement_refs (snd lt))) =
      (\<Union>a \<in> set (?current @ [lt]). writes_of a)"
    using "2.prems"(3) by (auto simp: fset_of_list.rep_eq)
  ultimately have "split_ok (split_loop ?groups (?current @ [lt])
        (?refs |\<union>| fset_of_list (write_requirement_refs (snd lt))) rest) \<and>
      concat (split_loop ?groups (?current @ [lt])
        (?refs |\<union>| fset_of_list (write_requirement_refs (snd lt))) rest) =
      concat ?groups @ (?current @ [lt]) @ rest"
    by (intro "2.IH" [OF refl refl refl refl refl]) simp_all
  then show ?case by (simp add: Let_def)
qed (auto split: if_splits)

text \<open>
  C37. Leased tasks are split exactly at write conflicts: the groups are non-empty and together are
  the leased tasks in their order, no two tasks of one group write the same resource, and every
  group but the first starts with a task that writes a resource which the group before writes.
\<close>

theorem split_at_conflicts:
  "let gs = split_leased_tasks_by_resource_conflict lts in
     concat gs = lts \<and> [] \<notin> set gs \<and>
     list_all (sorted_wrt (\<lambda>a b. set (write_requirement_refs (snd a)) \<inter> set (write_requirement_refs (snd b)) = {})) gs \<and>
     successively (\<lambda>g g'. \<exists>a \<in> set g.
       set (write_requirement_refs (snd a)) \<inter> set (write_requirement_refs (snd (hd g'))) \<noteq> {}) gs"
  using split_loop_ok [of "[]" "[]" "{||}" lts]
  by (auto simp: split_leased_tasks_by_resource_conflict_def split_ok_def separated_def list_all_iff Let_def
      forced_def [abs_def])

section \<open>Resource plans\<close>

text \<open>The requirements of a batch, each with the index of the entry that has it.\<close>

definition owned_requirements ::
  "nat \<Rightarrow> (task_lease \<times> 'v task) list \<Rightarrow> (nat \<times> resource_requirement) list" where
  "owned_requirements n lts =
     concat (map (\<lambda>(i, lt). map (Pair i) (resource_requirements (snd lt))) (enumerate n lts))"

lemma fold_push_entry:
  "\<exists>es. fold push_entry (enumerate n lts) (reqs, owners, entries) =
     (reqs @ map snd (owned_requirements n lts), owners @ map fst (owned_requirements n lts), entries @ es) \<and>
     map entry_id es = map (task_id \<circ> snd) lts \<and> map entry_ordering es = map (task_ordering \<circ> snd) lts \<and>
     map payload_index es = [n..<n + length lts]"
proof (induction lts arbitrary: n reqs owners entries)
  case (Cons lt lts)
  obtain l t where lt: "lt = (l, t)" by fastforce
  obtain e where e: "push_entry (n, l, t) (reqs, owners, entries) =
      (reqs @ resource_requirements t, owners @ replicate (length (resource_requirements t)) n, entries @ [e])"
    "entry_id e = task_id t" "entry_ordering e = task_ordering t" "payload_index e = n"
    by (simp add: push_entry_def Let_def)
  obtain es where es: "fold push_entry (enumerate (Suc n) lts)
      (reqs @ resource_requirements t, owners @ replicate (length (resource_requirements t)) n, entries @ [e]) =
      ((reqs @ resource_requirements t) @ map snd (owned_requirements (Suc n) lts),
       (owners @ replicate (length (resource_requirements t)) n) @ map fst (owned_requirements (Suc n) lts),
       (entries @ [e]) @ es)"
    "map entry_id es = map (task_id \<circ> snd) lts" "map entry_ordering es = map (task_ordering \<circ> snd) lts"
    "map payload_index es = [Suc n..<Suc n + length lts]"
    using Cons.IH [of "Suc n" "reqs @ resource_requirements t"
      "owners @ replicate (length (resource_requirements t)) n" "entries @ [e]"]
    by (elim exE conjE) (rule that)
  have "owned_requirements n (lt # lts) = map (Pair n) (resource_requirements t) @ owned_requirements (Suc n) lts"
    by (simp add: owned_requirements_def lt)
  then show ?case
    using e es by (intro exI [of _ "e # es"]) (simp add: lt map_replicate_const upt_conv_Cons o_def del: upt_Suc)
qed (simp add: owned_requirements_def)

definition writing :: "string \<Rightarrow> resource_requirement \<Rightarrow> bool" where
  "writing r q \<longleftrightarrow> is_write (req_mode q) \<and> req_ref_id q = r"

lemma fold_plan_requirement:
  "fold plan_requirement (enumerate n rs) (reads, writes, checks) = (reads', writes', checks') \<Longrightarrow>
     fm_get_or [] writes' r = fm_get_or [] writes r @ map fst (filter (\<lambda>(i, q). writing r q) (enumerate n rs))"
proof (induction rs arbitrary: n reads writes checks)
  case (Cons q rs)
  obtain reads1 writes1 checks1 where
    one: "plan_requirement (n, q) (reads, writes, checks) = (reads1, writes1, checks1)"
    by (metis prod_cases3)
  have "fm_get_or [] writes1 r = fm_get_or [] writes r @ (if writing r q then [n] else [])"
    using one
    by (auto simp: plan_requirement_def push_index_def fm_get_or_def writing_def is_write_def
        split: resource_access_mode.splits)
  with Cons.IH [of "Suc n" reads1 writes1 checks1] Cons.prems one show ?case by simp
qed simp

lemma mem_map_filter: "x \<in> set (List.map_filter f xs) \<longleftrightarrow> (\<exists>y \<in> set xs. f y = Some x)"
  by (induction xs) (auto simp: List.map_filter_simps split: option.splits)

lemma conflict_indices_iff:
  "e |\<in>| conflict_indices owners writes \<longleftrightarrow>
     (\<exists>r. 1 < length (fm_get_or [] writes r) \<and>
        (\<exists>i \<in> set (fm_get_or [] writes r). i < length owners \<and> owners ! i = e))"
proof -
  have "(\<exists>ixs. (\<exists>r. fmlookup writes r = Some ixs) \<and> 1 < length ixs \<and> P ixs) \<longleftrightarrow>
      (\<exists>r. 1 < length (fm_get_or [] writes r) \<and> P (fm_get_or [] writes r))" for P
    by (auto simp: fm_get_or_def split: option.splits; metis option.exhaust length_greater_0_conv less_nat_zero_code)
  moreover have "e |\<in>| conflict_indices owners writes \<longleftrightarrow>
      (\<exists>ixs. (\<exists>r. fmlookup writes r = Some ixs) \<and> 1 < length ixs \<and>
        (\<exists>i \<in> set ixs. i < length owners \<and> owners ! i = e))"
    by (auto simp: conflict_indices_def fset_of_list.rep_eq set_fm_values mem_map_filter nth_opt_def
        split: if_splits)
  ultimately show ?thesis by simp
qed

lemma enumerate_filter_map:
  assumes "length es = length lts"
    and "\<And>i. i < length lts \<Longrightarrow> P (n + i, es ! i) = Q (lts ! i)"
    and "\<And>i. i < length lts \<Longrightarrow> f (n + i, es ! i) = g (lts ! i)"
  shows "map f (filter P (enumerate n es)) = map g (filter Q lts)"
  using assms
proof (induction es lts arbitrary: n rule: list_induct2)
  case (Cons e es lt lts)
  have "map f (filter P (enumerate (Suc n) es)) = map g (filter Q lts)"
    using Cons.prems(1) [of "Suc _"] Cons.prems(2) [of "Suc _"] by (intro Cons.IH) simp_all
  with Cons.prems(1) [of 0] Cons.prems(2) [of 0] show ?case by simp
qed simp

lemma fold_plan_entry:
  "fold (plan_entry C) (enumerate n es) (par, serial, conf) =
     (par @ map (entry_id \<circ> snd) (filter (\<lambda>(i, e). i |\<notin>| C \<and> entry_ordering e = OrdNone) (enumerate n es)),
      serial @ map (\<lambda>p. [entry_id (snd p)])
        (filter (\<lambda>(i, e). i |\<notin>| C \<and> entry_ordering e \<noteq> OrdNone) (enumerate n es)),
      conf @ map (entry_id \<circ> snd) (filter (\<lambda>(i, e). i |\<in>| C) (enumerate n es)))"
  by (induction es arbitrary: n par serial conf)
    (auto simp: plan_entry_def split: ordering_requirement.splits)

text \<open>A task is contended when one of the resources it writes is to be written twice in the batch.\<close>

definition contended :: "(task_lease \<times> 'v task) list \<Rightarrow> 'v task \<Rightarrow> bool" where
  "contended lts t \<longleftrightarrow> (\<exists>r \<in> set (write_requirement_refs t).
     1 < count_list (concat (map (write_requirement_refs \<circ> snd) lts)) r)"

lemma count_writes:
  "length (filter (\<lambda>(i, q). writing r q) (enumerate 0 (map snd (owned_requirements n lts)))) =
     count_list (concat (map (write_requirement_refs \<circ> snd) lts)) r"
proof -
  have one: "length (filter (writing r) qs) = count_list (map req_ref_id (filter (\<lambda>q. is_write (req_mode q)) qs)) r" for qs
    by (induction qs) (auto simp: writing_def)
  have "length (filter (\<lambda>(i, q). writing r q) (enumerate k qs)) = length (filter (writing r) qs)" for k qs
    by (induction qs arbitrary: k) simp_all
  moreover have "length (filter (writing r) (map snd (owned_requirements n lts))) =
      count_list (concat (map (write_requirement_refs \<circ> snd) lts)) r"
    by (induction lts arbitrary: n)
      (simp_all add: owned_requirements_def o_def one write_requirement_refs_def count_list_append)
  ultimately show ?thesis by simp
qed

lemma mem_owned_from: "(e, q) \<in> set (owned_requirements n lts) \<longleftrightarrow>
    n \<le> e \<and> e < n + length lts \<and> q \<in> set (resource_requirements (snd (lts ! (e - n))))"
proof (induction lts arbitrary: n)
  case (Cons lt lts)
  have "owned_requirements n (lt # lts) = map (Pair n) (resource_requirements (snd lt)) @ owned_requirements (Suc n) lts"
    by (simp add: owned_requirements_def)
  moreover have "e - n = Suc (e - Suc n)" if "Suc n \<le> e"
    using that by simp
  ultimately show ?case
    using Cons.IH [of "Suc n"] by (cases "e = n") (auto simp: nth_Cons')
qed (simp add: owned_requirements_def)

lemmas mem_owned = mem_owned_from [of _ _ 0, simplified]

lemma batch_conflicts:
  assumes "fold plan_requirement (enumerate 0 (map snd (owned_requirements 0 lts))) (fmempty, fmempty, []) =
      (reads, writes, checks)" and "e < length lts"
  shows "e |\<in>| conflict_indices (map fst (owned_requirements 0 lts)) writes \<longleftrightarrow> contended lts (snd (lts ! e))"
proof -
  let ?own = "owned_requirements 0 lts"
  have w: "fm_get_or [] writes r = map fst (filter (\<lambda>(i, q). writing r q) (enumerate 0 (map snd ?own)))" for r
    using fold_plan_requirement [OF assms(1), of r] by (simp add: fm_get_or_def)
  have "(\<exists>i \<in> set (fm_get_or [] writes r). i < length ?own \<and> map fst ?own ! i = e) \<longleftrightarrow>
      r \<in> set (write_requirement_refs (snd (lts ! e)))" for r
  proof -
    have "(\<exists>i \<in> set (fm_get_or [] writes r). i < length ?own \<and> map fst ?own ! i = e) \<longleftrightarrow>
        (\<exists>i < length ?own. writing r (snd (?own ! i)) \<and> fst (?own ! i) = e)"
      by (force simp: w in_set_enumerate_eq)
    also have "\<dots> \<longleftrightarrow> (\<exists>q. (e, q) \<in> set ?own \<and> writing r q)"
      by (metis fst_conv in_set_conv_nth prod.collapse snd_conv)
    also have "\<dots> \<longleftrightarrow> r \<in> set (write_requirement_refs (snd (lts ! e)))"
      using assms(2) by (auto simp: mem_owned writing_def write_requirement_refs_def)
    finally show ?thesis .
  qed
  moreover have "length (fm_get_or [] writes r) = count_list (concat (map (write_requirement_refs \<circ> snd) lts)) r" for r
    by (simp only: w length_map count_writes)
  ultimately show ?thesis
    by (auto simp: conflict_indices_iff contended_def)
qed

text \<open>
  C36. The resource plan of a batch keeps writers apart. A task is set aside as a conflict exactly
  when a resource it writes is required for writing more than once in the batch; the other tasks
  run in parallel when they ask for no order and in a group of their own otherwise; the batch runs
  with more than one task at a time only when every task of it may run in parallel; and each entry
  points at its own task in the payload.
\<close>

theorem plan_separates_writers:
  "let b = build_work_batch current_step bid runner lts; plan = resource_plan b; ts = map snd lts in
     conflict_entries plan = map task_id (filter (contended lts) ts) \<and>
     concat (parallel_groups plan) =
       map task_id (filter (\<lambda>t. \<not> contended lts t \<and> task_ordering t = OrdNone) ts) \<and>
     serial_groups plan =
       map (\<lambda>t. [task_id t]) (filter (\<lambda>t. \<not> contended lts t \<and> task_ordering t \<noteq> OrdNone) ts) \<and>
     (1 < parallelism_limit plan \<longleftrightarrow>
        1 < length lts \<and> list_all (\<lambda>t. \<not> contended lts t \<and> task_ordering t = OrdNone) ts) \<and>
     map (\<lambda>e. (entry_id e, task_at from_value (batch_payload b) (payload_index e))) (batch_entries b) =
       map (\<lambda>t. (task_id t, Inr t)) ts"
proof -
  obtain es where es: "fold push_entry (enumerate 0 lts) ([], [], []) =
      (map snd (owned_requirements 0 lts), map fst (owned_requirements 0 lts), es)"
    "map entry_id es = map (task_id \<circ> snd) lts" "map entry_ordering es = map (task_ordering \<circ> snd) lts"
    "map payload_index es = [0..<length lts]"
    using fold_push_entry [of 0 lts "[]" "[]" "[]"] by auto
  obtain reads writes checks where f: "fold plan_requirement
      (enumerate 0 (map snd (owned_requirements 0 lts))) (fmempty, fmempty, []) = (reads, writes, checks)"
    by (metis prod_cases3)
  define C where "C = conflict_indices (map fst (owned_requirements 0 lts)) writes"
  have len: "length es = length lts"
    using es(4) by (metis diff_zero length_map length_upt)
  have nth: "entry_id (es ! i) = task_id (snd (lts ! i))" "entry_ordering (es ! i) = task_ordering (snd (lts ! i))"
    "payload_index (es ! i) = i" "i |\<in>| C \<longleftrightarrow> contended lts (snd (lts ! i))" if "i < length lts" for i
    using that arg_cong [OF es(2), of "\<lambda>xs. xs ! i"] arg_cong [OF es(3), of "\<lambda>xs. xs ! i"]
      arg_cong [OF es(4), of "\<lambda>xs. xs ! i"] batch_conflicts [OF f that]
    by (simp_all add: C_def len)
  have conf: "map (entry_id \<circ> snd) (filter (\<lambda>(i, e). i |\<in>| C) (enumerate 0 es)) =
      map (task_id \<circ> snd) (filter (\<lambda>lt. contended lts (snd lt)) lts)"
    and par: "map (entry_id \<circ> snd) (filter (\<lambda>(i, e). i |\<notin>| C \<and> entry_ordering e = OrdNone) (enumerate 0 es)) =
      map (task_id \<circ> snd) (filter (\<lambda>lt. \<not> contended lts (snd lt) \<and> task_ordering (snd lt) = OrdNone) lts)"
    and ser: "map (\<lambda>p. [entry_id (snd p)]) (filter (\<lambda>(i, e). i |\<notin>| C \<and> entry_ordering e \<noteq> OrdNone) (enumerate 0 es)) =
      map (\<lambda>lt. [task_id (snd lt)]) (filter (\<lambda>lt. \<not> contended lts (snd lt) \<and> task_ordering (snd lt) \<noteq> OrdNone) lts)"
    by (rule enumerate_filter_map; simp add: len nth)+
  have entries: "map (\<lambda>e. (entry_id e, task_at from_value (PayloadLocal (map snd lts)) (payload_index e))) es =
      map (\<lambda>t. (task_id t, Inr t)) (map snd lts)"
    by (rule nth_equalityI) (simp_all add: len nth nth_opt_def)
  show ?thesis
    unfolding build_work_batch_def es(1) build_work_resource_plan_def Let_def prod.case work_set.simps f
      C_def [symmetric] fold_plan_entry conf par ser append_Nil
    using entries
    by (auto simp: work_resource_plan_empty_def filter_map o_def list_all_iff filter_empty_conv len
        less_max_iff_disj simp del: task_at.simps)
qed

end
