(* ===== verification/Registry.thy ===== *)
theory Registry
  imports Plugin_Contracts
begin

text \<open>
  The registries of \<open>crates/mutsuki-runtime-core/src/registry.rs\<close>: handler bindings, runners with
  their descriptors, the validation of a load plan, and the comparison of contract surfaces on a
  reload. A runner and an async handler are trait objects: their types \<open>'r\<close> and \<open>'h\<close> are
  parameters, \<open>describe\<close> gives a runner's descriptor, and \<open>cancel\<close> and \<open>dispose\<close> are its methods.
\<close>

definition ERR_REGISTRY_FROZEN :: string where
  "ERR_REGISTRY_FROZEN = ''registry.frozen''"
definition ERR_REGISTRY_UNAUTHORIZED :: string where
  "ERR_REGISTRY_UNAUTHORIZED = ''registry.unauthorized''"
definition ERR_RUNNER_NOT_FOUND :: string where
  "ERR_RUNNER_NOT_FOUND = ''runner.not_found''"

section \<open>Checks\<close>

text \<open>A sequence of checks with the \<open>?\<close> operator stops at the first error.\<close>

definition and_check :: "unit runtime_result \<Rightarrow> unit runtime_result \<Rightarrow> unit runtime_result" where
  "and_check a b = (case a of Inl e \<Rightarrow> Inl e | Inr _ \<Rightarrow> b)"

fun check_all :: "('a \<Rightarrow> unit runtime_result) \<Rightarrow> 'a list \<Rightarrow> unit runtime_result" where
  "check_all f [] = Inr ()"
| "check_all f (x # xs) = and_check (f x) (check_all f xs)"

definition check :: "bool \<Rightarrow> runtime_error \<Rightarrow> unit runtime_result" where
  "check ok e = (if ok then Inr () else Inl e)"

lemma and_check_ok [simp]: "and_check a b = Inr () \<longleftrightarrow> a = Inr () \<and> b = Inr ()"
  by (auto simp: and_check_def split: sum.splits)

lemma check_all_ok [simp]: "check_all f xs = Inr () \<longleftrightarrow> (\<forall>x \<in> set xs. f x = Inr ())"
  by (induction xs) simp_all

lemma check_ok [simp]: "check ok e = Inr () \<longleftrightarrow> ok"
  by (simp add: check_def)

section \<open>Handler bindings\<close>

record handler_binding_registry =
  bindings :: "handler_binding list"

text \<open>Ascending protocol, then descending priority, then ascending id; the sort is stable.\<close>

definition sort_bindings :: "handler_binding list \<Rightarrow> handler_binding list" where
  "sort_bindings bs = sort_key (\<lambda>b. (hb_protocol_id b, - hb_priority b, binding_id b)) bs"

definition bindings_from_load_plan :: "'v runtime_load_plan \<Rightarrow> handler_binding_registry" where
  "bindings_from_load_plan plan =
     \<lparr>bindings = sort_bindings (concat (map (\<lambda>m. handler_bindings (provides m)) (plan_plugins plan)))\<rparr>"

definition query_protocol :: "handler_binding_registry \<Rightarrow> string \<Rightarrow> handler_binding list" where
  "query_protocol reg prot = filter (\<lambda>b. hb_protocol_id b = prot) (bindings reg)"

definition register_authorized ::
  "handler_binding_registry \<Rightarrow> handler_binding \<Rightarrow> handler_binding_registry" where
  "register_authorized reg b =
     (if list_ex (\<lambda>x. binding_id x = binding_id b) (bindings reg) then reg
      else reg\<lparr>bindings := sort_bindings (bindings reg @ [b])\<rparr>)"

section \<open>Runners\<close>

record runner_heartbeat =
  hb_runner_id :: string
  hb_executor_id :: string
  last_seen_step :: u64

record runner_capability_declaration =
  decl_runner_id :: string
  decl_protocol_ids :: "string list"
  decl_capacity :: nat

record ('r, 'h, 'v) runner_registry =
  runners :: "(string, 'r list) fmap"
  async_handlers :: "(string, 'h) fmap"
  descriptors :: "(string, 'v runner_descriptor) fmap"
  descriptor_snapshot :: "'v runner_descriptor list"
  heartbeats :: "(string, runner_heartbeat) fmap"
  capabilities :: "(string, runner_capability_declaration) fmap"
  frozen :: bool

definition runner_registry_default :: "('r, 'h, 'v) runner_registry" where
  "runner_registry_default =
     \<lparr>runners = fmempty, async_handlers = fmempty, descriptors = fmempty, descriptor_snapshot = [],
      heartbeats = fmempty, capabilities = fmempty, frozen = False\<rparr>"

definition registry_error :: "string \<Rightarrow> string \<Rightarrow> runtime_error" where
  "registry_error code route = runtime_failure code ''runtime.runner_registry'' route"

definition duplicate_runner :: "string \<Rightarrow> runtime_error" where
  "duplicate_runner rid = registry_error ERR_REGISTRY_UNAUTHORIZED (''runner.'' @ rid @ ''.duplicate'')"

definition normalized_descriptor :: "'v runner_descriptor \<Rightarrow> 'v runner_descriptor" where
  "normalized_descriptor d = d\<lparr>accepted_protocol_ids := remdups_adj (sort (accepted_protocol_ids d))\<rparr>"

definition rebuild_descriptor_snapshot ::
  "('r, 'h, 'v) runner_registry \<Rightarrow> ('r, 'h, 'v) runner_registry" where
  "rebuild_descriptor_snapshot reg =
     reg\<lparr>descriptor_snapshot := sort_key runner_id (fm_values (descriptors reg))\<rparr>"

fun allowed_instances :: "runner_concurrency \<Rightarrow> nat" where
  "allowed_instances (Sharded n) = n"
| "allowed_instances _ = 1"

definition register ::
  "('r \<Rightarrow> 'v runner_descriptor) \<Rightarrow> ('r, 'h, 'v) runner_registry \<Rightarrow> 'r \<Rightarrow>
    unit runtime_result \<times> ('r, 'h, 'v) runner_registry" where
  "register describe reg runner =
     (if frozen reg then (Inl (registry_error ERR_REGISTRY_FROZEN ''runner.register''), reg)
      else
        let rid = runner_id (describe runner); d = normalized_descriptor (describe runner) in
        if fmlookup (async_handlers reg) rid \<noteq> None then (Inl (duplicate_runner rid), reg)
        else if (case fmlookup (descriptors reg) rid of None \<Rightarrow> False | Some existing \<Rightarrow> existing \<noteq> d)
        then (Inl (duplicate_runner rid), reg)
        else
          let rs = fm_get_or [] (runners reg) rid;
              reg1 = reg\<lparr>runners := fmupd rid rs (runners reg)\<rparr> in
          if length rs \<ge> allowed_instances (concurrency d) then (Inl (duplicate_runner rid), reg1)
          else (Inr (), rebuild_descriptor_snapshot
                  (reg1\<lparr>runners := fmupd rid (rs @ [runner]) (runners reg),
                        descriptors := fmupd rid d (descriptors reg)\<rparr>)))"

definition is_async_mode :: "invocation_mode \<Rightarrow> bool" where
  "is_async_mode m \<longleftrightarrow> m = AsyncReentrant \<or> m = AsyncExclusive"

definition register_async_handler ::
  "('h \<Rightarrow> 'v runner_descriptor) \<Rightarrow> ('r, 'h, 'v) runner_registry \<Rightarrow> 'h \<Rightarrow>
    unit runtime_result \<times> ('r, 'h, 'v) runner_registry" where
  "register_async_handler describe reg handler =
     (if frozen reg then (Inl (registry_error ERR_REGISTRY_FROZEN ''async_handler.register''), reg)
      else
        let d = normalized_descriptor (describe handler); rid = runner_id d in
        if fmlookup (descriptors reg) rid \<noteq> None \<or> fmlookup (runners reg) rid \<noteq> None \<or>
           fmlookup (async_handlers reg) rid \<noteq> None
        then (Inl (duplicate_runner rid), reg)
        else if \<not> is_async_mode (invocation_mode d)
        then (Inl (registry_error ERR_REGISTRY_UNAUTHORIZED (''runner.'' @ rid @ ''.async_invocation_mode'')), reg)
        else (Inr (), rebuild_descriptor_snapshot
                (reg\<lparr>descriptors := fmupd rid d (descriptors reg),
                     async_handlers := fmupd rid handler (async_handlers reg)\<rparr>)))"

definition last_opt :: "'a list \<Rightarrow> 'a option" where
  "last_opt xs = (if xs = [] then None else Some (last xs))"

definition unregister ::
  "('r, 'h, 'v) runner_registry \<Rightarrow> string \<Rightarrow> 'r option runtime_result \<times> ('r, 'h, 'v) runner_registry" where
  "unregister reg rid =
     (if frozen reg
      then (Inl (registry_error ERR_REGISTRY_FROZEN (''runner.unregister.'' @ rid)), reg)
      else
        (Inr (Option.bind (fmlookup (runners reg) rid) last_opt),
         (rebuild_descriptor_snapshot
           (reg\<lparr>heartbeats := fmdrop rid (heartbeats reg), capabilities := fmdrop rid (capabilities reg),
                async_handlers := fmdrop rid (async_handlers reg),
                descriptors := fmdrop rid (descriptors reg)\<rparr>))\<lparr>runners := fmdrop rid (runners reg)\<rparr>))"

definition freeze :: "('r, 'h, 'v) runner_registry \<Rightarrow> ('r, 'h, 'v) runner_registry" where
  "freeze reg = reg\<lparr>frozen := True\<rparr>"

definition validate_instance_counts :: "('r, 'h, 'v) runner_registry \<Rightarrow> unit runtime_result" where
  "validate_instance_counts reg =
     check_all (\<lambda>d.
       let expected = allowed_instances (concurrency d);
           actual = (case fmlookup (runners reg) (runner_id d) of
              Some rs \<Rightarrow> length rs
            | None \<Rightarrow> if fmlookup (async_handlers reg) (runner_id d) \<noteq> None then 1 else 0)
       in check (actual = expected)
            (registry_error ERR_REGISTRY_UNAUTHORIZED
              (''runner.'' @ runner_id d @ ''.instances.'' @ show_nat actual @ ''.expected.'' @ show_nat expected)))
       (fm_values (descriptors reg))"

definition runner_ids :: "('r, 'h, 'v) runner_registry \<Rightarrow> string list" where
  "runner_ids reg = map runner_id (descriptor_snapshot reg)"

definition heartbeat ::
  "('r, 'h, 'v) runner_registry \<Rightarrow> string \<Rightarrow> string \<Rightarrow> u64 \<Rightarrow>
    runner_heartbeat runtime_result \<times> ('r, 'h, 'v) runner_registry" where
  "heartbeat reg rid executor step =
     (if fmlookup (descriptors reg) rid = None
      then (Inl (registry_error ERR_RUNNER_NOT_FOUND (''runner.heartbeat.'' @ rid)), reg)
      else
        let hb = \<lparr>hb_runner_id = rid, hb_executor_id = executor, last_seen_step = step\<rparr>
        in (Inr hb, reg\<lparr>heartbeats := fmupd rid hb (heartbeats reg)\<rparr>))"

definition declare_capability ::
  "('r, 'h, 'v) runner_registry \<Rightarrow> string \<Rightarrow> string list \<Rightarrow> nat \<Rightarrow>
    runner_capability_declaration runtime_result \<times> ('r, 'h, 'v) runner_registry" where
  "declare_capability reg rid protocols cap =
     (case fmlookup (descriptors reg) rid of
        None \<Rightarrow> (Inl (registry_error ERR_RUNNER_NOT_FOUND (''runner.capability.'' @ rid)), reg)
      | Some d \<Rightarrow>
          if list_ex (\<lambda>p. p \<notin> set (accepted_protocol_ids d)) protocols
          then (Inl (registry_error ERR_REGISTRY_UNAUTHORIZED (''runner.capability.'' @ rid)), reg)
          else
            let decl = \<lparr>decl_runner_id = rid, decl_protocol_ids = protocols, decl_capacity = cap\<rparr>
            in (Inr decl, reg\<lparr>capabilities := fmupd rid decl (capabilities reg)\<rparr>))"

definition take_runner ::
  "('r, 'h, 'v) runner_registry \<Rightarrow> string \<Rightarrow> 'r option \<times> ('r, 'h, 'v) runner_registry" where
  "take_runner reg rid =
     (case fmlookup (runners reg) rid of
        None \<Rightarrow> (None, reg)
      | Some rs \<Rightarrow> (last_opt rs, reg\<lparr>runners := fmupd rid (butlast rs) (runners reg)\<rparr>))"

definition put_runner ::
  "('r \<Rightarrow> 'v runner_descriptor) \<Rightarrow> ('r, 'h, 'v) runner_registry \<Rightarrow> 'r \<Rightarrow> ('r, 'h, 'v) runner_registry" where
  "put_runner describe reg runner =
     (let rid = runner_id (describe runner)
      in reg\<lparr>runners := fmupd rid (fm_get_or [] (runners reg) rid @ [runner]) (runners reg)\<rparr>)"

definition cancel_runner ::
  "('r \<Rightarrow> string \<Rightarrow> unit runtime_result \<times> 'r) \<Rightarrow> ('r, 'h, 'v) runner_registry \<Rightarrow> string \<Rightarrow> string \<Rightarrow>
    unit runtime_result \<times> ('r, 'h, 'v) runner_registry" where
  "cancel_runner cancel reg rid invocation =
     (case Option.bind (fmlookup (runners reg) rid) last_opt of
        None \<Rightarrow> (Inl (registry_error ERR_RUNNER_NOT_FOUND (''runner.cancel.'' @ rid)), reg)
      | Some r \<Rightarrow>
          let (res, r') = cancel r invocation; rs = the (fmlookup (runners reg) rid)
          in (res, reg\<lparr>runners := fmupd rid (butlast rs @ [r']) (runners reg)\<rparr>))"

text \<open>\<open>dispose_all\<close> disposes the runners, then the handlers that have a management handle; it stops at
  the first error. \<open>dispose\<close> and \<open>manage\<close> stand for the methods of a runner and of a handler.\<close>

record dispose_bag =
  disposed :: "string list"

fun dispose_runners ::
  "('r \<Rightarrow> unit runtime_result \<times> 'r) \<Rightarrow> ('r \<Rightarrow> 'v runner_descriptor) \<Rightarrow> 'r list \<Rightarrow>
    string list runtime_result \<times> 'r list" where
  "dispose_runners dispose describe [] = (Inr [], [])"
| "dispose_runners dispose describe (r # rs) =
     (case dispose r of
        (Inl e, r') \<Rightarrow> (Inl e, r' # rs)
      | (Inr _, r') \<Rightarrow>
          (case dispose_runners dispose describe rs of
             (Inl e, rs') \<Rightarrow> (Inl e, r' # rs')
           | (Inr ids, rs') \<Rightarrow> (Inr (runner_id (describe r') # ids), r' # rs')))"

fun dispose_entries ::
  "('r \<Rightarrow> unit runtime_result \<times> 'r) \<Rightarrow> ('r \<Rightarrow> 'v runner_descriptor) \<Rightarrow> string list \<Rightarrow>
    (string, 'r list) fmap \<Rightarrow> string list runtime_result \<times> (string, 'r list) fmap" where
  "dispose_entries dispose describe [] m = (Inr [], m)"
| "dispose_entries dispose describe (k # ks) m =
     (case dispose_runners dispose describe (fm_get_or [] m k) of
        (Inl e, rs) \<Rightarrow> (Inl e, fmupd k rs m)
      | (Inr ids, rs) \<Rightarrow>
          (case dispose_entries dispose describe ks (fmupd k rs m) of
             (Inl e, m') \<Rightarrow> (Inl e, m')
           | (Inr ids2, m') \<Rightarrow> (Inr (ids @ ids2), m')))"

fun dispose_handlers ::
  "('h \<Rightarrow> unit runtime_result option) \<Rightarrow> ('h \<Rightarrow> 'v runner_descriptor) \<Rightarrow> 'h list \<Rightarrow>
    string list runtime_result" where
  "dispose_handlers manage describe [] = Inr []"
| "dispose_handlers manage describe (h # hs) =
     (case manage h of
        Some (Inl e) \<Rightarrow> Inl e
      | _ \<Rightarrow> (case dispose_handlers manage describe hs of
                Inl e \<Rightarrow> Inl e | Inr ids \<Rightarrow> Inr (runner_id (describe h) # ids)))"

definition dispose_all ::
  "('r \<Rightarrow> unit runtime_result \<times> 'r) \<Rightarrow> ('r \<Rightarrow> 'v runner_descriptor) \<Rightarrow>
    ('h \<Rightarrow> unit runtime_result option) \<Rightarrow> ('h \<Rightarrow> 'v runner_descriptor) \<Rightarrow>
    ('r, 'h, 'v) runner_registry \<Rightarrow> dispose_bag runtime_result \<times> ('r, 'h, 'v) runner_registry" where
  "dispose_all dispose describe manage describe_async reg =
     (case dispose_entries dispose describe (fm_keys (runners reg)) (runners reg) of
        (Inl e, m) \<Rightarrow> (Inl e, reg\<lparr>runners := m\<rparr>)
      | (Inr ids, m) \<Rightarrow>
          (case dispose_handlers manage describe_async (fm_values (async_handlers reg)) of
             Inl e \<Rightarrow> (Inl e, reg\<lparr>runners := m\<rparr>)
           | Inr ids2 \<Rightarrow> (Inr \<lparr>disposed = ids @ ids2\<rparr>, reg\<lparr>runners := m\<rparr>)))"

datatype plugin_generation_phase = ShadowStarting | Active | Draining | Disposed

record plugin_generation_state =
  pgs_plugin_id :: string
  pgs_generation :: u64
  pgs_phase :: plugin_generation_phase

record 'v registry_snapshot =
  snap_generation :: u64
  snap_frozen :: bool
  snap_runners :: "'v runner_descriptor list"
  snap_bindings :: "handler_binding list"
  snap_surfaces :: "contract_surface list"

section \<open>Validation of a load plan\<close>

definition planned_runners :: "'v runtime_load_plan \<Rightarrow> 'v runner_descriptor list" where
  "planned_runners plan = concat (map (\<lambda>m. prov_runners (provides m)) (plan_plugins plan))"

fun class_in_plugins :: "'v plugin_manifest list \<Rightarrow> string \<Rightarrow> protocol_class option" where
  "class_in_plugins [] prot = None"
| "class_in_plugins (m # ms) prot =
     (case fmlookup (protocol_classes (provides m)) prot of
        Some c \<Rightarrow> Some c | None \<Rightarrow> class_in_plugins ms prot)"

definition purity_matches :: "runner_purity \<Rightarrow> protocol_class \<Rightarrow> bool" where
  "purity_matches p c \<longleftrightarrow>
     (case (p, c) of
        (Pure, Domain) \<Rightarrow> True
      | (Effectful, Effect) \<Rightarrow> True
      | (Committer, Core) \<Rightarrow> True
      | (Committer, ControlClass) \<Rightarrow> True
      | _ \<Rightarrow> False)"

definition validate_runner_protocol_classes ::
  "'v runtime_load_plan \<Rightarrow> 'v runner_descriptor \<Rightarrow> unit runtime_result" where
  "validate_runner_protocol_classes plan runner =
     check_all (\<lambda>prot.
       let fault = (\<lambda>reason. runtime_failure ERR_REGISTRY_UNAUTHORIZED ''runtime.load_plan.protocol_class''
             (''runner.'' @ runner_id runner @ ''.protocol.'' @ prot @ reason))
       in case class_in_plugins (plan_plugins plan) prot of
            None \<Rightarrow> Inl (fault ''.unknown'')
          | Some c \<Rightarrow>
              if \<not> purity_matches (purity runner) c \<or> c = ControlClass \<and> execution_class runner \<noteq> Control
              then Inl (fault ''.purity_conflict'') else Inr ())
       (accepted_protocol_ids runner)"

definition load_plan_error :: "string \<Rightarrow> runtime_error" where
  "load_plan_error route = runtime_failure ERR_REGISTRY_UNAUTHORIZED ''runtime.load_plan'' route"

fun invocation_matches_concurrency :: "invocation_mode \<Rightarrow> runner_concurrency \<Rightarrow> bool" where
  "invocation_matches_concurrency SyncExclusive Exclusive = True"
| "invocation_matches_concurrency SyncExclusive (Sharded _) = True"
| "invocation_matches_concurrency AsyncExclusive Exclusive = True"
| "invocation_matches_concurrency AsyncReentrant (Reentrant _ _) = True"
| "invocation_matches_concurrency ExternalProcess Exclusive = True"
| "invocation_matches_concurrency ExternalProcess (Sharded _) = True"
| "invocation_matches_concurrency _ _ = False"

definition batch_limits_ok :: "'v runner_descriptor \<Rightarrow> bool" where
  "batch_limits_ok runner \<longleftrightarrow>
     (let b = rd_batch runner; declared_batches = max_inflight_batches (concurrency runner);
          declared_entries = max_inflight_entries (concurrency runner) (max_batch_entries b)
      in \<not> (preferred_batch_size b = 0 \<or> max_batch_entries b = 0 \<or> max_entry_concurrency b = 0 \<or>
           cap_max_inflight_batches b = 0 \<or> cap_max_inflight_batches b \<noteq> declared_batches \<or>
           declared_batches = 0 \<or> declared_entries = 0 \<or>
           preferred_batch_size b > max_batch_entries b \<or> max_entry_concurrency b > max_batch_entries b))"

definition payload_layouts_ok :: "'v runner_descriptor \<Rightarrow> bool" where
  "payload_layouts_ok runner \<longleftrightarrow>
     \<not> (layouts (rd_payload runner) = [] \<or>
        preferred_layout (rd_payload runner) \<notin> set (layouts (rd_payload runner)) \<or>
        LayoutRow \<notin> set (layouts (rd_payload runner)))"

definition validate_ordering :: "'v runner_descriptor \<Rightarrow> unit runtime_result" where
  "validate_ordering runner =
     (case ordering_default (rd_ordering runner) of
        StrictSequence _ \<Rightarrow> check (supports_sequence (rd_ordering runner))
          (load_plan_error (''runner.'' @ runner_id runner @ ''.ordering.sequence''))
      | SameResourceOrder _ \<Rightarrow> check (supports_same_resource_order (rd_ordering runner))
          (load_plan_error (''runner.'' @ runner_id runner @ ''.ordering.resource''))
      | _ \<Rightarrow> Inr ())"

definition validate_runner_batch_capabilities :: "'v runner_descriptor \<Rightarrow> unit runtime_result" where
  "validate_runner_batch_capabilities runner =
     and_check (check (batch_limits_ok runner) (load_plan_error (''runner.'' @ runner_id runner @ ''.batch'')))
       (and_check (check (invocation_matches_concurrency (invocation_mode runner) (concurrency runner))
            (load_plan_error (''runner.'' @ runner_id runner @ ''.concurrency'')))
         (and_check (check (payload_layouts_ok runner)
              (load_plan_error (''runner.'' @ runner_id runner @ ''.payload'')))
           (validate_ordering runner)))"

definition validate_runner_privilege :: "'v runner_descriptor \<Rightarrow> unit runtime_result" where
  "validate_runner_privilege runner =
     and_check (check (\<not> (purity runner = Committer \<and> runner_id runner \<noteq> ''core.kernel''))
         (load_plan_error (''runner.'' @ runner_id runner @ ''.committer'')))
       (and_check (check (\<not> (execution_class runner = Control \<and> runner_id runner \<noteq> ''core.kernel''))
           (load_plan_error (''runner.'' @ runner_id runner @ ''.control'')))
         (validate_runner_batch_capabilities runner))"

definition runner_accepts_protocol :: "'v runner_descriptor \<Rightarrow> string \<Rightarrow> bool" where
  "runner_accepts_protocol runner prot \<longleftrightarrow> list_ex (\<lambda>a. a = prot) (accepted_protocol_ids runner)"

definition validate_handler_binding ::
  "'v runner_descriptor list \<Rightarrow> handler_binding \<Rightarrow> unit runtime_result" where
  "validate_handler_binding planned b =
     (let route = ''handler_binding.'' @ binding_id b in
      and_check
        (check (list_ex (\<lambda>r. runner_accepts_protocol r (target_protocol_id b)) planned)
          (load_plan_error (route @ ''.target_protocol_id.'' @ target_protocol_id b)))
        (case target_runner_hint b of
           None \<Rightarrow> Inr ()
         | Some hint \<Rightarrow>
             (case find (\<lambda>r. runner_id r = hint) planned of
                None \<Rightarrow> Inl (load_plan_error (route @ ''.target_runner_hint.'' @ hint))
              | Some r \<Rightarrow> check (runner_accepts_protocol r (target_protocol_id b))
                  (load_plan_error (route @ ''.target_runner_hint.'' @ hint @ ''.target_protocol_id.'' @
                     target_protocol_id b)))))"

definition validate_handler_bindings :: "'v runtime_load_plan \<Rightarrow> unit runtime_result" where
  "validate_handler_bindings plan =
     check_all (validate_handler_binding (planned_runners plan))
       (concat (map (\<lambda>m. handler_bindings (provides m)) (plan_plugins plan)))"

definition validate_runtime_descriptors ::
  "'v runtime_load_plan \<Rightarrow> 'v runner_descriptor list \<Rightarrow> unit runtime_result" where
  "validate_runtime_descriptors plan actual =
     (let planned = planned_runners plan;
          validate = (\<lambda>r. and_check (validate_runner_privilege r) (validate_runner_protocol_classes plan r))
      in and_check (check_all validate planned)
           (and_check
             (check_all (\<lambda>r.
                case find (\<lambda>p. runner_id p = runner_id r) planned of
                  None \<Rightarrow> Inl (load_plan_error (''runner.'' @ runner_id r))
                | Some p \<Rightarrow>
                    if invocation_mode p \<noteq> invocation_mode r \<or> concurrency p \<noteq> concurrency r
                    then Inl (load_plan_error (''runner.'' @ runner_id r @ ''.invocation''))
                    else validate r) actual)
             (validate_handler_bindings plan)))"

section \<open>Comparing surfaces\<close>

record contract_change =
  change_surface_id :: string
  compatibility :: surface_compatibility

record reload_decision =
  changes :: "contract_change list"
  blocked :: bool

text \<open>Collecting into a \<open>BTreeMap\<close>: of two items with one key, the later stays.\<close>

definition collect_by :: "('a \<Rightarrow> string) \<Rightarrow> 'a list \<Rightarrow> (string, 'a) fmap" where
  "collect_by key xs = fold (\<lambda>x m. fmupd (key x) x m) xs fmempty"

definition compare_surface ::
  "(string, contract_surface) fmap \<Rightarrow> (string, surface_occupancy) fmap \<Rightarrow> string \<Rightarrow> contract_surface \<Rightarrow>
    contract_change runtime_result" where
  "compare_surface new_by_id occupancy_by_id sid old_surface =
     (case fmlookup new_by_id sid of
        Some new_surface \<Rightarrow>
          if fingerprint new_surface = fingerprint old_surface
          then Inr \<lparr>change_surface_id = sid, compatibility =
                 (if deprecated new_surface \<and> \<not> deprecated old_surface then Deprecated else Identical)\<rparr>
          else Inr \<lparr>change_surface_id = sid, compatibility = Breaking\<rparr>
      | None \<Rightarrow>
          if (case fmlookup occupancy_by_id sid of None \<Rightarrow> True | Some occ \<Rightarrow> is_zero occ)
          then Inr \<lparr>change_surface_id = sid, compatibility = Removed\<rparr>
          else Inl (runtime_failure ERR_RELOAD_BLOCKED ''runtime.reload'' (''surface.remove.'' @ sid)))"

fun compare_loop ::
  "(string \<Rightarrow> contract_change runtime_result) \<Rightarrow> string list \<Rightarrow> contract_change list runtime_result" where
  "compare_loop f [] = Inr []"
| "compare_loop f (k # ks) =
     (case f k of
        Inl e \<Rightarrow> Inl e
      | Inr c \<Rightarrow> (case compare_loop f ks of Inl e \<Rightarrow> Inl e | Inr cs \<Rightarrow> Inr (c # cs)))"

definition compare_surfaces ::
  "contract_surface list \<Rightarrow> contract_surface list \<Rightarrow> surface_occupancy list \<Rightarrow>
    reload_decision runtime_result" where
  "compare_surfaces old new occupancy =
     (let old_by_id = collect_by surface_id old; new_by_id = collect_by surface_id new;
          occupancy_by_id = collect_by occ_surface_id occupancy
      in case compare_loop (\<lambda>sid. compare_surface new_by_id occupancy_by_id sid (the (fmlookup old_by_id sid)))
                (fm_keys old_by_id) of
           Inl e \<Rightarrow> Inl e
         | Inr cs \<Rightarrow>
             let all = cs @ map (\<lambda>sid. \<lparr>change_surface_id = sid, compatibility = Additive\<rparr>)
                   (filter (\<lambda>sid. fmlookup old_by_id sid = None) (fm_keys new_by_id))
             in Inr \<lparr>changes = all, blocked = list_ex (\<lambda>c. compatibility c = Breaking) all\<rparr>)"

end
