(* ===== verification/Registry_Properties.thy ===== *)
theory Registry_Properties
  imports Registry
begin

text \<open>
  The invariant of the runner registry over its calls, what freezing it means, and what a reload
  decision says about the contract surfaces.
\<close>

section \<open>The registry invariant\<close>

datatype ('r, 'h) registry_call =
    RegRegister 'r
  | RegRegisterAsync 'h
  | RegUnregister string
  | RegFreeze
  | RegHeartbeat string string u64
  | RegDeclare string "string list" nat
  | RegTake string
  | RegPut 'r
  | RegCancel string string

fun registry_run ::
  "('r \<Rightarrow> 'v runner_descriptor) \<Rightarrow> ('h \<Rightarrow> 'v runner_descriptor) \<Rightarrow> ('r \<Rightarrow> string \<Rightarrow> unit runtime_result \<times> 'r) \<Rightarrow>
    ('r, 'h) registry_call \<Rightarrow> ('r, 'h, 'v) runner_registry \<Rightarrow> ('r, 'h, 'v) runner_registry" where
  "registry_run dr dh cancel (RegRegister r) reg = snd (register dr reg r)"
| "registry_run dr dh cancel (RegRegisterAsync h) reg = snd (register_async_handler dh reg h)"
| "registry_run dr dh cancel (RegUnregister rid) reg = snd (unregister reg rid)"
| "registry_run dr dh cancel RegFreeze reg = freeze reg"
| "registry_run dr dh cancel (RegHeartbeat rid ex step) reg = snd (heartbeat reg rid ex step)"
| "registry_run dr dh cancel (RegDeclare rid ps cap) reg = snd (declare_capability reg rid ps cap)"
| "registry_run dr dh cancel (RegTake rid) reg = snd (take_runner reg rid)"
| "registry_run dr dh cancel (RegPut r) reg = put_runner dr reg r"
| "registry_run dr dh cancel (RegCancel rid i) reg = snd (cancel_runner cancel reg rid i)"

text \<open>A runner is put back only under an id that is not an async handler's.\<close>

fun may_call :: "('r \<Rightarrow> 'v runner_descriptor) \<Rightarrow> ('r, 'h) registry_call \<Rightarrow> ('r, 'h, 'v) runner_registry \<Rightarrow> bool" where
  "may_call dr (RegPut r) reg \<longleftrightarrow> fmlookup (async_handlers reg) (runner_id (dr r)) = None"
| "may_call dr _ reg \<longleftrightarrow> True"

inductive registry_reach ::
  "('r \<Rightarrow> 'v runner_descriptor) \<Rightarrow> ('h \<Rightarrow> 'v runner_descriptor) \<Rightarrow> ('r \<Rightarrow> string \<Rightarrow> unit runtime_result \<times> 'r) \<Rightarrow>
    ('r, 'h, 'v) runner_registry \<Rightarrow> bool" for dr dh cancel where
  empty: "registry_reach dr dh cancel runner_registry_default"
| call: "registry_reach dr dh cancel reg \<Longrightarrow> may_call dr c reg \<Longrightarrow>
    registry_reach dr dh cancel (registry_run dr dh cancel c reg)"

definition descriptor_ok :: "string \<Rightarrow> 'v runner_descriptor \<Rightarrow> bool" where
  "descriptor_ok rid d \<longleftrightarrow> runner_id d = rid \<and> sorted_wrt (<) (accepted_protocol_ids d)"

definition registry_ok :: "('r, 'h, 'v) runner_registry \<Rightarrow> bool" where
  "registry_ok reg \<longleftrightarrow>
     (\<forall>rid d. fmlookup (descriptors reg) rid = Some d \<longrightarrow> descriptor_ok rid d) \<and>
     descriptor_snapshot reg = fm_values (descriptors reg) \<and>
     (\<forall>rid. fmlookup (async_handlers reg) rid \<noteq> None \<longrightarrow>
        fmlookup (runners reg) rid = None \<and>
        (\<exists>d. fmlookup (descriptors reg) rid = Some d \<and> is_async_mode (invocation_mode d))) \<and>
     (\<forall>rid. fmlookup (heartbeats reg) rid \<noteq> None \<longrightarrow> fmlookup (descriptors reg) rid \<noteq> None) \<and>
     (\<forall>rid c. fmlookup (capabilities reg) rid = Some c \<longrightarrow>
        (\<exists>d. fmlookup (descriptors reg) rid = Some d \<and> set (decl_protocol_ids c) \<subseteq> set (accepted_protocol_ids d)))"

lemma strict_sorted_dedup: "sorted xs \<Longrightarrow> sorted_wrt (<) (remdups_adj (xs :: 'a :: linorder list))"
  by (induction xs rule: remdups_adj.induct) (auto simp: less_le)

lemma normalized_ok: "descriptor_ok (runner_id d) (normalized_descriptor d)"
  by (simp add: descriptor_ok_def normalized_descriptor_def strict_sorted_dedup)

lemma normalized_fields [simp]:
  "runner_id (normalized_descriptor d) = runner_id d"
  "invocation_mode (normalized_descriptor d) = invocation_mode d"
  "set (accepted_protocol_ids (normalized_descriptor d)) = set (accepted_protocol_ids d)"
  by (simp_all add: normalized_descriptor_def)

lemma sort_values:
  assumes "\<And>rid d. fmlookup m rid = Some d \<Longrightarrow> descriptor_ok rid d"
  shows "sort_key runner_id (fm_values m) = fm_values m"
proof -
  have "map runner_id (fm_values m) = fm_keys m"
    using assms by (auto simp: fm_values_keys fmdom'_lookup descriptor_ok_def intro!: map_idI)
  then show ?thesis
    by (metis sort_key_id_if_sorted sorted_fm_keys)
qed

lemma snapshot_rebuilt:
  assumes "\<And>rid d. fmlookup (descriptors reg) rid = Some d \<Longrightarrow> descriptor_ok rid d"
  shows "descriptor_snapshot (rebuild_descriptor_snapshot reg) = fm_values (descriptors reg)"
  using sort_values [OF assms] by (simp add: rebuild_descriptor_snapshot_def)

lemma rebuild_frame [simp]:
  "runners (rebuild_descriptor_snapshot reg) = runners reg"
  "async_handlers (rebuild_descriptor_snapshot reg) = async_handlers reg"
  "descriptors (rebuild_descriptor_snapshot reg) = descriptors reg"
  "heartbeats (rebuild_descriptor_snapshot reg) = heartbeats reg"
  "capabilities (rebuild_descriptor_snapshot reg) = capabilities reg"
  "frozen (rebuild_descriptor_snapshot reg) = frozen reg"
  by (simp_all add: rebuild_descriptor_snapshot_def)

lemma registry_okI:
  assumes "\<And>rid d. fmlookup (descriptors reg) rid = Some d \<Longrightarrow> descriptor_ok rid d"
    and "descriptor_snapshot reg = fm_values (descriptors reg)"
    and "\<And>rid h. fmlookup (async_handlers reg) rid = Some h \<Longrightarrow> fmlookup (runners reg) rid = None \<and>
        (\<exists>d. fmlookup (descriptors reg) rid = Some d \<and> is_async_mode (invocation_mode d))"
    and "\<And>rid b. fmlookup (heartbeats reg) rid = Some b \<Longrightarrow> fmlookup (descriptors reg) rid \<noteq> None"
    and "\<And>rid c. fmlookup (capabilities reg) rid = Some c \<Longrightarrow>
        (\<exists>d. fmlookup (descriptors reg) rid = Some d \<and> set (decl_protocol_ids c) \<subseteq> set (accepted_protocol_ids d))"
  shows "registry_ok reg"
  using assms unfolding registry_ok_def by blast

lemma registry_okD:
  assumes "registry_ok reg"
  shows "\<And>rid d. fmlookup (descriptors reg) rid = Some d \<Longrightarrow> descriptor_ok rid d"
    and "descriptor_snapshot reg = fm_values (descriptors reg)"
    and "\<And>rid h. fmlookup (async_handlers reg) rid = Some h \<Longrightarrow> fmlookup (runners reg) rid = None \<and>
        (\<exists>d. fmlookup (descriptors reg) rid = Some d \<and> is_async_mode (invocation_mode d))"
    and "\<And>rid b. fmlookup (heartbeats reg) rid = Some b \<Longrightarrow> fmlookup (descriptors reg) rid \<noteq> None"
    and "\<And>rid c. fmlookup (capabilities reg) rid = Some c \<Longrightarrow>
        (\<exists>d. fmlookup (descriptors reg) rid = Some d \<and> set (decl_protocol_ids c) \<subseteq> set (accepted_protocol_ids d))"
  using assms unfolding registry_ok_def by (blast, blast, blast, blast, blast)

text \<open>Changing only the runner instances of an id that is not an async handler's.\<close>

lemma ok_set_runners:
  assumes ok: "registry_ok reg" and "fmlookup (async_handlers reg) rid = None"
  shows "registry_ok (reg\<lparr>runners := fmupd rid rs (runners reg)\<rparr>)"
  using registry_okD [OF ok] assms(2) by (intro registry_okI) (auto split: if_splits)

lemma register_ok_new:
  assumes ok: "registry_ok reg" and rid: "rid = runner_id (dr r)"
    and no: "fmlookup (async_handlers reg) rid = None"
    and same: "\<And>e. fmlookup (descriptors reg) rid = Some e \<Longrightarrow> e = normalized_descriptor (dr r)"
  shows "registry_ok (rebuild_descriptor_snapshot
    (reg\<lparr>runners := fmupd rid rs (runners reg), descriptors := fmupd rid (normalized_descriptor (dr r)) (descriptors reg)\<rparr>))"
    (is "registry_ok (rebuild_descriptor_snapshot ?reg)")
proof (rule registry_okI)
  have desc: "descriptor_ok k d" if "fmlookup (descriptors ?reg) k = Some d" for k d
    using that registry_okD(1) [OF ok, of k d] normalized_ok [of "dr r"] rid by (auto split: if_splits)
  then show "descriptor_ok k d" if "fmlookup (descriptors (rebuild_descriptor_snapshot ?reg)) k = Some d" for k d
    using that by simp
  show "descriptor_snapshot (rebuild_descriptor_snapshot ?reg) = fm_values (descriptors (rebuild_descriptor_snapshot ?reg))"
    using snapshot_rebuilt [of ?reg, OF desc] by simp
next
  fix k c
  assume "fmlookup (capabilities (rebuild_descriptor_snapshot ?reg)) k = Some c"
  then have "fmlookup (capabilities reg) k = Some c" by simp
  then obtain d where d: "fmlookup (descriptors reg) k = Some d"
    "set (decl_protocol_ids c) \<subseteq> set (accepted_protocol_ids d)"
    using registry_okD(5) [OF ok] by blast
  then show "\<exists>d. fmlookup (descriptors (rebuild_descriptor_snapshot ?reg)) k = Some d \<and>
      set (decl_protocol_ids c) \<subseteq> set (accepted_protocol_ids d)"
    using same [of d] by (cases "k = rid") auto
qed (use registry_okD(3,4) [OF ok] no in \<open>auto split: if_splits\<close>)

lemma register_keeps:
  assumes ok: "registry_ok reg"
  shows "registry_ok (snd (register dr reg r))"
proof -
  let ?rid = "runner_id (dr r)"
  let ?taken = "frozen reg \<or> fmlookup (async_handlers reg) ?rid \<noteq> None \<or>
    (case fmlookup (descriptors reg) ?rid of None \<Rightarrow> False | Some e \<Rightarrow> e \<noteq> normalized_descriptor (dr r))"
  show ?thesis
  proof (cases ?taken)
    case True
    then have "snd (register dr reg r) = reg"
      by (auto simp: register_def Let_def)
    with ok show ?thesis by simp
  next
    case False
    then have no: "fmlookup (async_handlers reg) ?rid = None" by simp
    have same: "e = normalized_descriptor (dr r)" if "fmlookup (descriptors reg) ?rid = Some e" for e
      using False that by simp
    from False show ?thesis
      using ok_set_runners [OF ok no] register_ok_new [where dr = dr and r = r, OF ok refl no same]
      by (simp add: register_def Let_def)
  qed
qed

lemma register_async_keeps:
  assumes ok: "registry_ok reg"
  shows "registry_ok (snd (register_async_handler dh reg h))"
proof -
  let ?d = "normalized_descriptor (dh h)" and ?rid = "runner_id (dh h)"
  let ?reg = "reg\<lparr>descriptors := fmupd ?rid ?d (descriptors reg), async_handlers := fmupd ?rid h (async_handlers reg)\<rparr>"
  have "registry_ok (rebuild_descriptor_snapshot ?reg)"
    if new: "fmlookup (descriptors reg) ?rid = None" "fmlookup (runners reg) ?rid = None"
      and mode: "is_async_mode (invocation_mode (dh h))"
  proof (rule registry_okI)
    have desc: "descriptor_ok k d" if "fmlookup (descriptors ?reg) k = Some d" for k d
      using that registry_okD(1) [OF ok, of k d] normalized_ok [of "dh h"] by (auto split: if_splits)
    then show "descriptor_ok k d" if "fmlookup (descriptors (rebuild_descriptor_snapshot ?reg)) k = Some d" for k d
      using that by simp
    show "descriptor_snapshot (rebuild_descriptor_snapshot ?reg) = fm_values (descriptors (rebuild_descriptor_snapshot ?reg))"
      using snapshot_rebuilt [of ?reg, OF desc] by simp
  next
    fix k c
    assume "fmlookup (capabilities (rebuild_descriptor_snapshot ?reg)) k = Some c"
    then show "\<exists>d. fmlookup (descriptors (rebuild_descriptor_snapshot ?reg)) k = Some d \<and>
        set (decl_protocol_ids c) \<subseteq> set (accepted_protocol_ids d)"
      using registry_okD(5) [OF ok, of k c] new(1) by (cases "k = ?rid") auto
  qed (use registry_okD(3,4) [OF ok] new mode in \<open>auto split: if_splits\<close>)
  with ok show ?thesis
    by (simp add: register_async_handler_def Let_def)
qed

lemma unregister_keeps:
  assumes ok: "registry_ok reg"
  shows "registry_ok (snd (unregister reg rid))"
proof -
  let ?reg = "reg\<lparr>heartbeats := fmdrop rid (heartbeats reg), capabilities := fmdrop rid (capabilities reg),
      async_handlers := fmdrop rid (async_handlers reg), descriptors := fmdrop rid (descriptors reg)\<rparr>"
  have desc: "descriptor_ok k d" if "fmlookup (descriptors ?reg) k = Some d" for k d
    using that registry_okD(1) [OF ok, of k d] by (auto split: if_splits)
  have "registry_ok ((rebuild_descriptor_snapshot ?reg)\<lparr>runners := fmdrop rid (runners reg)\<rparr>)"
    by (rule registry_okI)
      (use desc snapshot_rebuilt [of ?reg, OF desc] registry_okD(3-5) [OF ok] in \<open>auto split: if_splits\<close>)
  with ok show ?thesis
    by (simp add: unregister_def)
qed

lemma heartbeat_keeps:
  assumes ok: "registry_ok reg"
  shows "registry_ok (snd (heartbeat reg rid ex step))"
proof (cases "fmlookup (descriptors reg) rid")
  case (Some d)
  have "registry_ok (reg\<lparr>heartbeats := fmupd rid hb (heartbeats reg)\<rparr>)" for hb
    by (rule registry_okI) (use registry_okD [OF ok] Some in \<open>auto split: if_splits\<close>)
  with Some show ?thesis by (simp add: heartbeat_def Let_def)
qed (simp add: heartbeat_def ok)

lemma declare_keeps:
  assumes ok: "registry_ok reg"
  shows "registry_ok (snd (declare_capability reg rid ps cap))"
proof (cases "fmlookup (descriptors reg) rid")
  case (Some d)
  have "registry_ok (reg\<lparr>capabilities := fmupd rid decl (capabilities reg)\<rparr>)"
    if "set (decl_protocol_ids decl) \<subseteq> set (accepted_protocol_ids d)" for decl
    by (rule registry_okI) (use registry_okD [OF ok] Some that in \<open>auto split: if_splits\<close>)
  with Some ok show ?thesis
    by (simp add: declare_capability_def Let_def list_ex_iff subset_iff)
qed (simp add: declare_capability_def ok)

lemma sync_not_async:
  "registry_ok reg \<Longrightarrow> fmlookup (runners reg) rid = Some rs \<Longrightarrow> fmlookup (async_handlers reg) rid = None"
  using registry_okD(3) [of reg rid] by (cases "fmlookup (async_handlers reg) rid") auto

lemma take_keeps: "registry_ok reg \<Longrightarrow> registry_ok (snd (take_runner reg rid))"
  by (cases "fmlookup (runners reg) rid") (simp_all add: take_runner_def ok_set_runners sync_not_async)

lemma put_keeps:
  "registry_ok reg \<Longrightarrow> fmlookup (async_handlers reg) (runner_id (dr r)) = None \<Longrightarrow> registry_ok (put_runner dr reg r)"
  by (simp add: put_runner_def Let_def ok_set_runners)

lemma cancel_keeps:
  assumes ok: "registry_ok reg"
  shows "registry_ok (snd (cancel_runner cancel reg rid i))"
proof (cases "fmlookup (runners reg) rid")
  case (Some rs)
  then show ?thesis
    using ok_set_runners [OF ok sync_not_async [OF ok Some]] ok
    by (simp add: cancel_runner_def Let_def last_opt_def split: prod.splits)
qed (simp add: cancel_runner_def ok)

lemma freeze_keeps: "registry_ok reg \<Longrightarrow> registry_ok (freeze reg)"
  by (simp add: registry_ok_def freeze_def)

lemmas registry_keeps =
  register_keeps register_async_keeps unregister_keeps heartbeat_keeps declare_keeps take_keeps
  put_keeps cancel_keeps freeze_keeps

lemma registry_reach_ok: "registry_reach dr dh cancel reg \<Longrightarrow> registry_ok reg"
proof (induction rule: registry_reach.induct)
  case empty
  show ?case
    by (rule registry_okI) (simp_all add: runner_registry_default_def fm_values_def sorted_list_of_fmap_def sorted_list_of_fset_def)
next
  case (call reg c)
  then show ?case by (cases c) (simp_all add: registry_keeps)
qed


text \<open>A registry of runners that are their own descriptors.\<close>

definition sample_runner :: "string \<Rightarrow> string list \<Rightarrow> nat runner_descriptor" where
  "sample_runner rid protocols =
     \<lparr>runner_id = rid, plugin_id = ''p'', plugin_generation = 1, accepted_protocol_ids = protocols,
      purity = Pure, execution_class = Cpu, invocation_mode = SyncExclusive, concurrency = Exclusive,
      input_schema = 0, output_schema = 0, rd_batch = runner_batch_capability_default,
      rd_payload = runner_payload_capability_default, rd_resources = runner_resource_capability_default,
      rd_ordering = runner_ordering_capability_default, rd_control = runner_control_capability_default,
      rd_metadata = fmempty, contract_surfaces = []\<rparr>"

definition sample_registry :: "(nat runner_descriptor, nat runner_descriptor, nat) runner_registry" where
  "sample_registry = fold (registry_run id id (\<lambda>r i. (Inr (), r)))
     [RegRegister (sample_runner ''r2'' [''b'', ''a'', ''b'']),
      RegRegister (sample_runner ''r1'' [''c'']),
      RegRegister (sample_runner ''r1'' [''d'']),
      RegRegisterAsync ((sample_runner ''h'' [''e''])\<lparr>invocation_mode := AsyncExclusive\<rparr>),
      RegDeclare ''r2'' [''a''] 3, RegFreeze] runner_registry_default"

lemma sample_registry_reach: "registry_reach id id (\<lambda>r i. (Inr (), r)) sample_registry"
  unfolding sample_registry_def fold.simps comp_apply id_apply
  by (intro registry_reach.intros) simp_all


text \<open>Comparing contract surfaces: the reference reads the surfaces of an id, the later of two.\<close>

definition latest :: "('a \<Rightarrow> string) \<Rightarrow> 'a list \<Rightarrow> string \<Rightarrow> 'a option" where
  "latest key xs k = find (\<lambda>x. key x = k) (rev xs)"

definition removed_in_use ::
  "contract_surface list \<Rightarrow> contract_surface list \<Rightarrow> surface_occupancy list \<Rightarrow> string \<Rightarrow> bool" where
  "removed_in_use old new occ sid \<longleftrightarrow>
     sid \<in> surface_id ` set old \<and> sid \<notin> surface_id ` set new \<and>
     (\<exists>u. latest occ_surface_id occ sid = Some u \<and> \<not> is_zero u)"

definition surface_change ::
  "contract_surface list \<Rightarrow> contract_surface list \<Rightarrow> string \<Rightarrow> surface_compatibility" where
  "surface_change old new sid =
     (case (latest surface_id old sid, latest surface_id new sid) of
        (Some x, Some y) \<Rightarrow>
          if fingerprint x \<noteq> fingerprint y then Breaking
          else if deprecated y \<and> \<not> deprecated x then Deprecated else Identical
      | (None, _) \<Rightarrow> Additive
      | (Some x, None) \<Rightarrow> Removed)"

lemma collect_by_snoc: "collect_by key (xs @ [x]) = fmupd (key x) x (collect_by key xs)"
  by (simp add: collect_by_def)

lemma lookup_collect_by [simp]: "fmlookup (collect_by key xs) k = latest key xs k"
  by (induction xs rule: rev_induct) (simp_all add: collect_by_snoc latest_def, simp add: collect_by_def)

lemma latest_None: "latest key xs k = None \<longleftrightarrow> k \<notin> key ` set xs"
  by (auto simp: latest_def find_None_iff)

lemma dom_collect_by: "fmdom' (collect_by key xs) = key ` set xs"
  by (rule set_eqI) (metis fmlookup_dom'_iff latest_None lookup_collect_by option.exhaust option.distinct(1))

lemma keys_collect_by: "fm_keys (collect_by key xs) = sorted_list_of_set (key ` set xs)"
proof -
  have "sorted_list_of_set (set (fm_keys (collect_by key xs))) = fm_keys (collect_by key xs)"
    by (simp only: sorted_list_of_set_sort_remdups distinct_remdups_id distinct_fm_keys sorted_fm_keys sorted_sort_id)
  then show ?thesis by (simp add: dom_collect_by)
qed

lemma compare_surface_cases:
  assumes "sid \<in> surface_id ` set old"
  shows "compare_surface (collect_by surface_id new) (collect_by occ_surface_id occ) sid
     (the (latest surface_id old sid)) =
     (if removed_in_use old new occ sid
      then Inl (runtime_failure ERR_RELOAD_BLOCKED ''runtime.reload'' (''surface.remove.'' @ sid))
      else Inr \<lparr>change_surface_id = sid, compatibility = surface_change old new sid\<rparr>)"
proof -
  obtain x where x: "latest surface_id old sid = Some x"
    using assms latest_None [of surface_id old sid] by (cases "latest surface_id old sid") auto
  show ?thesis
    using assms x latest_None [of surface_id new sid]
    by (cases "latest surface_id new sid"; cases "latest occ_surface_id occ sid")
       (simp_all add: compare_surface_def removed_in_use_def surface_change_def)
qed

lemma compare_loop_cases:
  assumes "\<forall>k \<in> set ks. f k = (if bad k then Inl (err k) else Inr (g k))" and "sorted ks"
  shows "compare_loop f ks =
     (case find bad ks of Some k \<Rightarrow> Inl (err k) | None \<Rightarrow> Inr (map g ks))"
  using assms by (induction ks) (auto split: option.splits)

lemma find_sorted_least: "sorted ks \<Longrightarrow> find bad ks = Some k \<Longrightarrow> bad k \<and> (\<forall>k' \<in> set ks. bad k' \<longrightarrow> k \<le> k')"
  by (induction ks) (auto split: if_splits)

lemma compare_surfaces_eq:
  "compare_surfaces old new occ =
     (case find (removed_in_use old new occ) (sorted_list_of_set (surface_id ` set old)) of
        Some sid \<Rightarrow> Inl (runtime_failure ERR_RELOAD_BLOCKED ''runtime.reload'' (''surface.remove.'' @ sid))
      | None \<Rightarrow>
          let all = map (\<lambda>sid. \<lparr>change_surface_id = sid, compatibility = surface_change old new sid\<rparr>)
                (sorted_list_of_set (surface_id ` set old) @
                 filter (\<lambda>sid. sid \<notin> surface_id ` set old) (sorted_list_of_set (surface_id ` set new)))
          in Inr \<lparr>changes = all, blocked = list_ex (\<lambda>c. compatibility c = Breaking) all\<rparr>)"
proof -
  have loop: "compare_loop (\<lambda>sid. compare_surface (collect_by surface_id new) (collect_by occ_surface_id occ) sid
        (the (latest surface_id old sid))) (sorted_list_of_set (surface_id ` set old)) =
      (case find (removed_in_use old new occ) (sorted_list_of_set (surface_id ` set old)) of
         Some sid \<Rightarrow> Inl (runtime_failure ERR_RELOAD_BLOCKED ''runtime.reload'' (''surface.remove.'' @ sid))
       | None \<Rightarrow> Inr (map (\<lambda>sid. \<lparr>change_surface_id = sid, compatibility = surface_change old new sid\<rparr>)
           (sorted_list_of_set (surface_id ` set old))))"
    by (rule compare_loop_cases) (simp_all add: compare_surface_cases)
  have additive: "map (\<lambda>sid. \<lparr>change_surface_id = sid, compatibility = Additive\<rparr>)
        (filter (\<lambda>sid. sid \<notin> surface_id ` set old) ks) =
      map (\<lambda>sid. \<lparr>change_surface_id = sid, compatibility = surface_change old new sid\<rparr>)
        (filter (\<lambda>sid. sid \<notin> surface_id ` set old) ks)" for ks
    by (rule map_cong [OF refl]) (simp add: surface_change_def flip: latest_None)
  show ?thesis
    unfolding compare_surfaces_def Let_def keys_collect_by lookup_collect_by loop latest_None additive
    by (simp split: option.split)
qed

text \<open>
  C40. A reload decision. Comparing the contract surfaces of two load plans fails exactly when a
  surface that is still in use disappears, and then names the first such surface in id order.
  Otherwise the decision lists every surface of either plan once, the old ones in id order and then
  the added ones; each is classified by the latest surface of its id on either side; and the reload
  is blocked exactly when a surface of both plans changed its fingerprint.
\<close>

theorem reload_decision_exact:
  "case compare_surfaces old new occ of
     Inl e \<Rightarrow> \<exists>sid. removed_in_use old new occ sid \<and>
       (\<forall>sid'. removed_in_use old new occ sid' \<longrightarrow> sid \<le> sid') \<and>
       e = runtime_failure ERR_RELOAD_BLOCKED ''runtime.reload'' (''surface.remove.'' @ sid)
   | Inr d \<Rightarrow> (\<nexists>sid. removed_in_use old new occ sid) \<and>
       map change_surface_id (changes d) =
         sorted_list_of_set (surface_id ` set old) @
         sorted_list_of_set (surface_id ` set new - surface_id ` set old) \<and>
       (\<forall>c \<in> set (changes d). compatibility c = surface_change old new (change_surface_id c)) \<and>
       (blocked d \<longleftrightarrow> (\<exists>sid x y. latest surface_id old sid = Some x \<and>
          latest surface_id new sid = Some y \<and> fingerprint x \<noteq> fingerprint y))"
proof (cases "find (removed_in_use old new occ) (sorted_list_of_set (surface_id ` set old))")
  case (Some sid)
  have "\<forall>sid'. removed_in_use old new occ sid' \<longrightarrow> sid' \<in> set (sorted_list_of_set (surface_id ` set old))"
    by (simp add: removed_in_use_def)
  with find_sorted_least [OF _ Some] show ?thesis
    by (auto simp: compare_surfaces_eq Some)
next
  case None
  have free: "\<nexists>sid. removed_in_use old new occ sid"
    using None by (auto simp: find_None_iff removed_in_use_def)
  have fresh: "filter (\<lambda>sid. sid \<notin> surface_id ` set old) (sorted_list_of_set (surface_id ` set new)) =
      sorted_list_of_set (surface_id ` set new - surface_id ` set old)"
    by (rule sorted_distinct_set_unique) (auto simp: sorted_wrt_filter)
  have breaking: "surface_change old new sid = Breaking \<longleftrightarrow> (\<exists>x y. latest surface_id old sid = Some x \<and>
      latest surface_id new sid = Some y \<and> fingerprint x \<noteq> fingerprint y)" for sid
    by (auto simp: surface_change_def split: option.splits)
  have known: "latest surface_id old sid = Some x \<Longrightarrow> sid \<in> surface_id ` set old" for sid x
    using latest_None [of surface_id old sid] by auto
  have blocks: "list_ex (\<lambda>c. compatibility c = Breaking)
      (map (\<lambda>sid. \<lparr>change_surface_id = sid, compatibility = surface_change old new sid\<rparr>)
        (sorted_list_of_set (surface_id ` set old) @ ks)) \<longleftrightarrow>
      (\<exists>sid x y. latest surface_id old sid = Some x \<and> latest surface_id new sid = Some y \<and>
        fingerprint x \<noteq> fingerprint y)" for ks
    by (simp add: list_ex_iff bex_Un breaking) (use known in blast)
  show ?thesis
    unfolding compare_surfaces_eq None option.case Let_def fresh sum.case reload_decision.simps blocks
    using free by (auto simp: comp_def)
qed

definition sample_surface :: "string \<Rightarrow> string \<Rightarrow> contract_surface" where
  "sample_surface sid fp =
     \<lparr>surface_id = sid, surface_kind = SurfProtocol, surface_owner = ''p'', fingerprint = fp, deprecated = False\<rparr>"

theorem reload_decision_exact_witness:
  "(case compare_surfaces [sample_surface ''b'' ''1'', sample_surface ''a'' ''1'']
      [sample_surface ''c'' ''1'', sample_surface ''b'' ''2''] [] of
      Inl e \<Rightarrow> False
    | Inr d \<Rightarrow> map change_surface_id (changes d) = [''a'', ''b'', ''c''] \<and> blocked d \<and>
        (\<forall>c \<in> set (changes d). compatibility c = surface_change
           [sample_surface ''b'' ''1'', sample_surface ''a'' ''1'']
           [sample_surface ''c'' ''1'', sample_surface ''b'' ''2''] (change_surface_id c))) \<and>
   compare_surfaces [sample_surface ''b'' ''1''] [] [(zero_occupancy ''b'')\<lparr>ready_tasks := 1\<rparr>] =
     Inl (runtime_failure ERR_RELOAD_BLOCKED ''runtime.reload'' ''surface.remove.b'')"
proof (rule conjI)
  have "case compare_surfaces [sample_surface ''b'' ''1'', sample_surface ''a'' ''1'']
      [sample_surface ''c'' ''1'', sample_surface ''b'' ''2''] [] of
      Inl e \<Rightarrow> False
    | Inr d \<Rightarrow> map change_surface_id (changes d) = [''a'', ''b'', ''c''] \<and> blocked d"
    by code_simp
  then show "case compare_surfaces [sample_surface ''b'' ''1'', sample_surface ''a'' ''1'']
      [sample_surface ''c'' ''1'', sample_surface ''b'' ''2''] [] of
      Inl e \<Rightarrow> False
    | Inr d \<Rightarrow> map change_surface_id (changes d) = [''a'', ''b'', ''c''] \<and> blocked d \<and>
        (\<forall>c \<in> set (changes d). compatibility c = surface_change
           [sample_surface ''b'' ''1'', sample_surface ''a'' ''1'']
           [sample_surface ''c'' ''1'', sample_surface ''b'' ''2''] (change_surface_id c))"
    using reload_decision_exact [of "[sample_surface ''b'' ''1'', sample_surface ''a'' ''1'']"
        "[sample_surface ''c'' ''1'', sample_surface ''b'' ''2'']" "[]"]
    by (simp split: sum.splits)
qed code_simp

end
