(* ===== verification/Runtime_State.thy ===== *)
theory Runtime_State
  imports Task_Claim Registry Resource_Manager State_Store Dispatch_Batch
begin

text \<open>
  The core runtime, \<open>crates/mutsuki-runtime-core/src/runtime.rs\<close>, with the runner contract of
  \<open>runner.rs\<close> and of \<open>crates/mutsuki-runtime-contracts/src/runner.rs\<close>: its state, boot, the stop
  states, the checks for deprecated surfaces, and what the clock does to tasks.

  The runtime owns a task pool, a runner registry, a resource manager, a state store and two logs.
  A method takes it and returns it updated next to a result. An early return with an error keeps
  the updates made so far, as \<open>&mut self\<close> does; \<open>None\<close> is a panic.

  The record \<open>externals\<close> holds the code that is not the runtime's own: the methods of a plugin's
  runners and handlers, and the conversions of \<open>serde_json\<close>.
\<close>

section \<open>Runner results\<close>

record runner_context =
  ctx_registry_generation :: u64
  ctx_current_step :: u64
  ctx_tick_id :: string
  ctx_batch_id :: string
  ctx_executor_id :: string
  ctx_task_lease_ids :: "string list"
  ctx_entry_count :: nat
  ctx_invocation_id :: string
  ctx_cancel_token :: string
  ctx_deadline_tick :: "u64 option"
  ctx_deadline_after_ms :: "u64 option"
  ctx_cancel_requested :: bool

definition runner_context_new ::
  "u64 \<Rightarrow> u64 \<Rightarrow> string \<Rightarrow> string list \<Rightarrow> string \<Rightarrow> runner_context" where
  "runner_context_new gen step executor lease_ids invocation =
     \<lparr>ctx_registry_generation = gen, ctx_current_step = step, ctx_tick_id = ''tick-'' @ show_u64 step,
      ctx_batch_id = invocation, ctx_executor_id = executor, ctx_task_lease_ids = lease_ids,
      ctx_entry_count = length lease_ids, ctx_invocation_id = invocation,
      ctx_cancel_token = invocation, ctx_deadline_tick = None, ctx_deadline_after_ms = None,
      ctx_cancel_requested = False\<rparr>"

definition with_batch :: "runner_context \<Rightarrow> string \<Rightarrow> nat \<Rightarrow> runner_context" where
  "with_batch ctx bid n = ctx\<lparr>ctx_batch_id := bid, ctx_entry_count := n\<rparr>"

datatype runner_status =
    ResCompleted | ResWaiting | ResBlocked | ResContinue | ResFailed | ResCancelled

record 'v domain_event =
  de_event_id :: string
  de_kind :: string
  de_payload :: 'v

record effect_precondition =
  ep_ref_id :: string
  ep_expected_version :: u64

record 'v effect_request =
  effect_id :: string
  effect_kind :: string
  effect_payload :: 'v
  preconditions :: "effect_precondition list"
  effect_idempotency_key :: "string option"

record 'v runner_result =
  rr_task_id :: string
  rr_output :: "'v option"
  rr_deltas :: "'v state_delta list"
  rr_events :: "'v domain_event list"
  rr_tasks :: "'v task list"
  rr_effects :: "'v effect_request list"
  rr_values :: "value_ref list"
  rr_resources :: "resource_ref list"
  rr_await :: "task_await option"
  rr_status :: runner_status

definition runner_result_completed :: "string \<Rightarrow> 'v runner_result" where
  "runner_result_completed tid =
     \<lparr>rr_task_id = tid, rr_output = None, rr_deltas = [], rr_events = [], rr_tasks = [],
      rr_effects = [], rr_values = [], rr_resources = [], rr_await = None, rr_status = ResCompleted\<rparr>"

record 'v entry_completion =
  ec_entry_id :: string
  ec_task_id :: string
  ec_result :: "'v runner_result option"
  ec_error :: "runtime_error option"

record 'v completion_batch =
  cb_batch_id :: string
  cb_tick_id :: string
  cb_results :: "'v entry_completion list"
  cb_metadata :: "(string \<times> scalar_value) list"

definition from_results :: "'v work_batch \<Rightarrow> 'v entry_completion list \<Rightarrow> 'v completion_batch" where
  "from_results b results =
     \<lparr>cb_batch_id = batch_id b, cb_tick_id = tick_id b, cb_results = results, cb_metadata = []\<rparr>"

definition from_error :: "'v work_batch \<Rightarrow> runtime_error \<Rightarrow> 'v completion_batch" where
  "from_error b e =
     from_results b (map (\<lambda>entry. \<lparr>ec_entry_id = entry_id entry, ec_task_id = entry_task_id entry,
       ec_result = None, ec_error = Some e\<rparr>) (batch_entries b))"

record runner_loop_report =
  claimed_tasks :: nat
  completed_tasks :: nat

text \<open>The marker runner of the kernel; \<open>empty_object\<close> is the JSON value \<open>{}\<close>.\<close>

definition core_kernel_descriptor :: "'v \<Rightarrow> u64 \<Rightarrow> 'v runner_descriptor" where
  "core_kernel_descriptor empty_object gen =
     \<lparr>runner_id = ''core.kernel'', plugin_id = ''core'', plugin_generation = gen,
      accepted_protocol_ids = [''core.commit'', ''core.event.append''], purity = Committer,
      execution_class = Control, invocation_mode = SyncExclusive, concurrency = Exclusive,
      input_schema = empty_object, output_schema = empty_object,
      rd_batch = runner_batch_capability_default, rd_payload = runner_payload_capability_default,
      rd_resources = runner_resource_capability_default,
      rd_ordering = runner_ordering_capability_default,
      rd_control = runner_control_capability_default, rd_metadata = fmempty,
      contract_surfaces = [''runner:core.kernel'']\<rparr>"

definition core_kernel_run_batch :: "runner_context \<Rightarrow> 'v work_batch \<Rightarrow> 'v completion_batch runtime_result" where
  "core_kernel_run_batch ctx b =
     Inr (from_results b (map (\<lambda>entry. \<lparr>ec_entry_id = entry_id entry, ec_task_id = entry_task_id entry,
       ec_result = Some (runner_result_completed (entry_task_id entry)), ec_error = None\<rparr>)
       (batch_entries b)))"

record ('r, 'h, 'v) externals =
  x_describe :: "'r \<Rightarrow> 'v runner_descriptor"
  x_describe_async :: "'h \<Rightarrow> 'v runner_descriptor"
  x_run_batch :: "'r \<Rightarrow> runner_context \<Rightarrow> 'v work_batch \<Rightarrow> 'v completion_batch runtime_result \<times> 'r"
  x_cancel :: "'r \<Rightarrow> string \<Rightarrow> unit runtime_result \<times> 'r"
  x_dispose :: "'r \<Rightarrow> unit runtime_result \<times> 'r"
  x_manage :: "'h \<Rightarrow> unit runtime_result option"
  x_to_writer :: "'v \<Rightarrow> string + string list"
  x_task_of :: "'v \<Rightarrow> 'v task option"
  x_delta_of :: "'v \<Rightarrow> string + 'v state_delta"
  x_event_of :: "'v \<Rightarrow> string + 'v domain_event"
  x_of_delta :: "'v state_delta \<Rightarrow> 'v"
  x_of_event :: "'v domain_event \<Rightarrow> 'v"
  x_of_effect :: "'v effect_request \<Rightarrow> 'v"

section \<open>State\<close>

definition ERR_TASK_EXPIRED :: string where
  "ERR_TASK_EXPIRED = ''task.expired''"
definition ERR_TASK_DEAD_LETTER :: string where
  "ERR_TASK_DEAD_LETTER = ''task.dead_letter''"
definition ERR_TASK_UNSUPPORTED :: string where
  "ERR_TASK_UNSUPPORTED = ''task.unsupported''"
definition ERR_RUNNER_PURITY_VIOLATION :: string where
  "ERR_RUNNER_PURITY_VIOLATION = ''runner.purity_violation''"

record 'v task_result_snapshot =
  trs_task_id :: string
  trs_status :: task_status
  trs_output :: "'v option"
  trs_output_ref :: "string option"
  trs_continuation_ref :: "string option"
  trs_failure :: "runtime_error option"

datatype runtime_stop_state = StopRunning | StopDraining | StopAborted

record runtime_statistics =
  rs_tasks :: task_pool_statistics
  retained_events :: nat
  dropped_events :: u64
  retained_traces :: nat
  dropped_traces :: u64
  rs_scheduler_decisions :: u64

record ('r, 'h, 'v) draining_generation =
  dg_registry_generation :: u64
  dg_runner_ids :: "string list"
  dg_registry :: "('r, 'h, 'v) runner_registry"

record ('r, 'h, 'v) core_runtime =
  load_plan :: "'v runtime_load_plan"
  rt_bindings :: handler_binding_registry
  rt_surfaces :: "contract_surface list"
  rt_classes :: "(string, protocol_class) fmap"
  rt_registry :: "('r, 'h, 'v) runner_registry"
  draining_generations :: "('r, 'h, 'v) draining_generation list"
  generation_states :: "plugin_generation_state list"
  rt_tasks :: "'v task_pool"
  rt_resources :: "'v resource_manager"
  rt_states :: "'v state_store"
  rt_events :: event_log
  rt_traces :: trace_log
  scheduler_decisions :: u64
  current_step :: u64
  stop_state :: runtime_stop_state

text \<open>The \<open>?\<close> operator: an error ends the method and keeps the runtime as it is at that point.\<close>

definition and_then ::
  "('a runtime_result \<times> 's) option \<Rightarrow> ('a \<Rightarrow> 's \<Rightarrow> ('b runtime_result \<times> 's) option) \<Rightarrow>
    ('b runtime_result \<times> 's) option" where
  "and_then m k =
     (case m of
        None \<Rightarrow> None
      | Some (Inl e, s) \<Rightarrow> Some (Inl e, s)
      | Some (Inr a, s) \<Rightarrow> k a s)"

definition in_pool ::
  "('r, 'h, 'v) core_runtime \<Rightarrow> ('a \<times> 'v task_pool) option \<Rightarrow> ('a \<times> ('r, 'h, 'v) core_runtime) option" where
  "in_pool rt m = map_option (\<lambda>(a, p). (a, rt\<lparr>rt_tasks := p\<rparr>)) m"

definition emit ::
  "runtime_event_kind \<Rightarrow> string \<Rightarrow> string option \<Rightarrow> (string, scalar_value) fmap \<Rightarrow> runtime_error option \<Rightarrow>
    ('r, 'h, 'v) core_runtime \<Rightarrow> ('r, 'h, 'v) core_runtime" where
  "emit kind name subject attrs err rt =
     rt\<lparr>rt_events := snd (event_record (rt_events rt) kind name subject attrs err)\<rparr>"

section \<open>Boot\<close>

definition generation_states_for_plan ::
  "'v runtime_load_plan \<Rightarrow> plugin_generation_phase \<Rightarrow> plugin_generation_state list" where
  "generation_states_for_plan plan phase =
     map (\<lambda>m. \<lparr>pgs_plugin_id = man_plugin_id m, pgs_generation = plan_registry_generation plan,
       pgs_phase = phase\<rparr>) (plan_plugins plan)"

definition protocol_classes_for_plan :: "'v runtime_load_plan \<Rightarrow> (string, protocol_class) fmap" where
  "protocol_classes_for_plan plan =
     fold (\<lambda>m acc. fmadd acc (protocol_classes (provides m))) (plan_plugins plan) fmempty"

fun register_all ::
  "('a \<Rightarrow> 's \<Rightarrow> unit runtime_result \<times> 's) \<Rightarrow> 'a list \<Rightarrow> 's \<Rightarrow> 's runtime_result" where
  "register_all reg_one [] reg = Inr reg"
| "register_all reg_one (r # rs) reg =
     (case reg_one r reg of (Inl e, _) \<Rightarrow> Inl e | (Inr _, reg') \<Rightarrow> register_all reg_one rs reg')"

definition build_registry ::
  "('r, 'h, 'v) externals \<Rightarrow> 'r list \<Rightarrow> 'h list \<Rightarrow> ('r, 'h, 'v) runner_registry runtime_result" where
  "build_registry x rs hs =
     (case register_all (\<lambda>r reg. register (x_describe x) reg r) rs runner_registry_default of
        Inl e \<Rightarrow> Inl e
      | Inr reg \<Rightarrow>
          (case register_all (\<lambda>h reg. register_async_handler (x_describe_async x) reg h) hs reg of
             Inl e \<Rightarrow> Inl e
           | Inr reg \<Rightarrow>
               (case validate_instance_counts reg of
                  Inl e \<Rightarrow> Inl e
                | Inr _ \<Rightarrow> Inr (freeze reg))))"

definition runner_descriptors :: "('r, 'h, 'v) externals \<Rightarrow> 'r list \<Rightarrow> 'h list \<Rightarrow> 'v runner_descriptor list" where
  "runner_descriptors x rs hs = map (x_describe x) rs @ map (x_describe_async x) hs"

definition boot_with_async_handlers ::
  "('r, 'h, 'v) externals \<Rightarrow> 'v runtime_load_plan \<Rightarrow> 'r list \<Rightarrow> 'h list \<Rightarrow>
    ('r, 'h, 'v) core_runtime runtime_result" where
  "boot_with_async_handlers x plan rs hs =
     (case validate_runtime_descriptors plan (runner_descriptors x rs hs) of
        Inl e \<Rightarrow> Inl e
      | Inr _ \<Rightarrow>
          (case build_registry x rs hs of
             Inl e \<Rightarrow> Inl e
           | Inr reg \<Rightarrow>
               Inr \<lparr>load_plan = plan, rt_bindings = bindings_from_load_plan plan,
                    rt_surfaces = plan_surfaces plan, rt_classes = protocol_classes_for_plan plan,
                    rt_registry = reg, draining_generations = [],
                    generation_states = generation_states_for_plan plan Active,
                    rt_tasks = task_pool_default, rt_resources = resource_manager_new,
                    rt_states = state_store_default,
                    rt_events = log_new (prof_events (plan_observability plan)),
                    rt_traces = log_new (prof_traces (plan_observability plan)),
                    scheduler_decisions = 0, current_step = 0, stop_state = StopRunning\<rparr>))"

definition boot ::
  "('r, 'h, 'v) externals \<Rightarrow> 'v runtime_load_plan \<Rightarrow> 'r list \<Rightarrow> ('r, 'h, 'v) core_runtime runtime_result" where
  "boot x plan rs = boot_with_async_handlers x plan rs []"

section \<open>Reading and configuring\<close>

definition rt_registry_snapshot :: "('r, 'h, 'v) core_runtime \<Rightarrow> 'v registry_snapshot" where
  "rt_registry_snapshot rt =
     \<lparr>snap_generation = plan_registry_generation (load_plan rt), snap_frozen = True,
      snap_runners = descriptor_snapshot (rt_registry rt), snap_bindings = bindings (rt_bindings rt),
      snap_surfaces = rt_surfaces rt\<rparr>"

definition rt_handler_bindings :: "('r, 'h, 'v) core_runtime \<Rightarrow> string \<Rightarrow> handler_binding list" where
  "rt_handler_bindings rt prot = query_protocol (rt_bindings rt) prot"

definition register_handler_binding ::
  "('r, 'h, 'v) core_runtime \<Rightarrow> handler_binding \<Rightarrow> unit runtime_result" where
  "register_handler_binding rt b =
     Inl (runtime_failure ERR_REGISTRY_FROZEN ''runtime.handler_binding'' (''handler_binding.'' @ binding_id b))"

definition next_required_step :: "('r, 'h, 'v) core_runtime \<Rightarrow> u64 option" where
  "next_required_step rt = next_required_step_after (rt_tasks rt) (current_step rt)"

definition is_drained :: "('r, 'h, 'v) core_runtime \<Rightarrow> bool" where
  "is_drained rt \<longleftrightarrow>
     (let s = statistics (rt_tasks rt)
      in stop_state rt = StopDraining \<and> st_ready s = 0 \<and> st_running s = 0 \<and> st_waiting s = 0 \<and> st_blocked s = 0)"

definition configure_event_capacity :: "nat \<Rightarrow> ('r, 'h, 'v) core_runtime \<Rightarrow> ('r, 'h, 'v) core_runtime" where
  "configure_event_capacity cap rt =
     (let plan = load_plan rt; obs = plan_observability plan
      in rt\<lparr>load_plan := plan\<lparr>plan_observability :=
              obs\<lparr>prof_events := (prof_events obs)\<lparr>capacity := cap\<rparr>\<rparr>\<rparr>,
            rt_events := log_set_capacity (rt_events rt) cap\<rparr>)"

definition configure_observability ::
  "observability_profile \<Rightarrow> ('r, 'h, 'v) core_runtime \<Rightarrow> ('r, 'h, 'v) core_runtime" where
  "configure_observability profile rt =
     rt\<lparr>rt_events := log_configure (rt_events rt) (prof_events profile),
        rt_traces := log_configure (rt_traces rt) (prof_traces profile),
        load_plan := (load_plan rt)\<lparr>plan_observability := profile\<rparr>\<rparr>"

definition configure_task_history_retention ::
  "task_history_retention option \<Rightarrow> ('r, 'h, 'v) core_runtime \<Rightarrow> ('r, 'h, 'v) core_runtime option" where
  "configure_task_history_retention ret rt =
     map_option (\<lambda>p. rt\<lparr>rt_tasks := p\<rparr>) (configure_history_retention (rt_tasks rt) ret)"

definition rt_statistics :: "('r, 'h, 'v) core_runtime \<Rightarrow> runtime_statistics" where
  "rt_statistics rt =
     \<lparr>rs_tasks = statistics (rt_tasks rt), retained_events = length (log_records (rt_events rt)),
      dropped_events = log_dropped (rt_events rt), retained_traces = length (log_records (rt_traces rt)),
      dropped_traces = log_dropped (rt_traces rt), rs_scheduler_decisions = scheduler_decisions rt\<rparr>"

definition in_registry ::
  "('r, 'h, 'v) core_runtime \<Rightarrow> 'a runtime_result \<times> ('r, 'h, 'v) runner_registry \<Rightarrow>
    'a runtime_result \<times> ('r, 'h, 'v) core_runtime" where
  "in_registry rt m = (case m of (res, reg) \<Rightarrow> (res, rt\<lparr>rt_registry := reg\<rparr>))"

definition rt_runner_heartbeat ::
  "string \<Rightarrow> string \<Rightarrow> ('r, 'h, 'v) core_runtime \<Rightarrow> runner_heartbeat runtime_result \<times> ('r, 'h, 'v) core_runtime" where
  "rt_runner_heartbeat rid executor rt =
     in_registry rt (heartbeat (rt_registry rt) rid executor (current_step rt))"

definition rt_runner_capability ::
  "string \<Rightarrow> string list \<Rightarrow> nat \<Rightarrow> ('r, 'h, 'v) core_runtime \<Rightarrow>
    runner_capability_declaration runtime_result \<times> ('r, 'h, 'v) core_runtime" where
  "rt_runner_capability rid protocols cap rt =
     in_registry rt (declare_capability (rt_registry rt) rid protocols cap)"

definition cancel_runner_invocation ::
  "('r, 'h, 'v) externals \<Rightarrow> string \<Rightarrow> string \<Rightarrow> ('r, 'h, 'v) core_runtime \<Rightarrow>
    unit runtime_result \<times> ('r, 'h, 'v) core_runtime" where
  "cancel_runner_invocation x rid invocation rt =
     in_registry rt (cancel_runner (x_cancel x) (rt_registry rt) rid invocation)"

definition state_value :: "('r, 'h, 'v) core_runtime \<Rightarrow> string \<Rightarrow> (u64 \<times> 'v) option" where
  "state_value rt rid = state_get (rt_states rt) rid"

definition trace_spans_after ::
  "('r, 'h, 'v) core_runtime \<Rightarrow> u64 \<Rightarrow> nat \<Rightarrow> trace_span observability_page" where
  "trace_spans_after rt cursor limit = trace_page_after (rt_traces rt) cursor limit"

section \<open>Stopping\<close>

definition begin_drain ::
  "('r, 'h, 'v) core_runtime \<Rightarrow> runtime_stop_state runtime_result \<times> ('r, 'h, 'v) core_runtime" where
  "begin_drain rt =
     (case stop_state rt of
        StopRunning \<Rightarrow>
          (Inr StopDraining,
           emit KLifecycle ''runtime.drain_started'' None fmempty None (rt\<lparr>stop_state := StopDraining\<rparr>))
      | StopDraining \<Rightarrow> (Inr StopDraining, rt)
      | StopAborted \<Rightarrow>
          (Inl (runtime_failure ERR_RUNTIME_ABORTED ''runtime.lifecycle'' ''runtime.drain.aborted''), rt))"

definition record_task_terminal_event ::
  "string \<Rightarrow> string \<Rightarrow> runtime_error option \<Rightarrow> ('r, 'h, 'v) core_runtime \<Rightarrow> ('r, 'h, 'v) core_runtime" where
  "record_task_terminal_event tid name err rt = emit KTask name (Some tid) fmempty err rt"

definition abort_failure :: "string \<Rightarrow> runtime_error" where
  "abort_failure reason =
     insert_evidence ''reason'' (SString reason)
       (runtime_error_new ERR_RUNTIME_ABORTED ''runtime.lifecycle'' ''runtime.abort'')"

definition abort ::
  "string \<Rightarrow> ('r, 'h, 'v) core_runtime \<Rightarrow> (nat runtime_result \<times> ('r, 'h, 'v) core_runtime) option" where
  "abort reason rt =
     (if stop_state rt = StopAborted then Some (Inr 0, rt)
      else
        let rt1 = rt\<lparr>stop_state := StopAborted\<rparr>; err = abort_failure reason
        in (case abort_all (rt_tasks rt1) (current_step rt1) err of
              None \<Rightarrow> None
            | Some (aborted, p) \<Rightarrow>
                let rt2 = fold (\<lambda>tid. record_task_terminal_event tid ''task.cancelled'' (Some err)) aborted
                      (rt1\<lparr>rt_tasks := p\<rparr>)
                in Some (Inr (length aborted),
                     emit KLifecycle ''runtime.aborted'' None
                       (fmap_of_list [(''reason'', SString reason),
                          (''cancelled_tasks'', SInt (usize_as_i64 (length aborted)))])
                       (Some err) rt2)))"

definition ensure_accepting_external_tasks :: "('r, 'h, 'v) core_runtime \<Rightarrow> unit runtime_result" where
  "ensure_accepting_external_tasks rt =
     (case stop_state rt of
        StopRunning \<Rightarrow> Inr ()
      | StopAborted \<Rightarrow> Inl (runtime_failure ERR_RUNTIME_ABORTED ''runtime.lifecycle'' ''runtime.submit'')
      | StopDraining \<Rightarrow> Inl (runtime_failure ERR_RUNTIME_NOT_ACCEPTING ''runtime.lifecycle'' ''runtime.submit''))"

definition ensure_not_aborted :: "('r, 'h, 'v) core_runtime \<Rightarrow> unit runtime_result" where
  "ensure_not_aborted rt =
     check (stop_state rt \<noteq> StopAborted)
       (runtime_failure ERR_RUNTIME_ABORTED ''runtime.lifecycle'' ''runtime.execute.aborted'')"

section \<open>Deprecated surfaces\<close>

definition is_surface_deprecated :: "('r, 'h, 'v) core_runtime \<Rightarrow> string \<Rightarrow> bool" where
  "is_surface_deprecated rt sid = list_ex (\<lambda>s. surface_id s = sid \<and> deprecated s) (rt_surfaces rt)"

definition ensure_surface_not_deprecated ::
  "('r, 'h, 'v) core_runtime \<Rightarrow> string \<Rightarrow> string \<Rightarrow> unit runtime_result" where
  "ensure_surface_not_deprecated rt sid src =
     check (\<not> is_surface_deprecated rt sid)
       (runtime_failure ERR_RELOAD_BLOCKED src (''surface.deprecated.'' @ sid))"

definition ensure_resource_surfaces_not_deprecated ::
  "('r, 'h, 'v) core_runtime \<Rightarrow> string \<Rightarrow> string option \<Rightarrow> string \<Rightarrow> unit runtime_result" where
  "ensure_resource_surfaces_not_deprecated rt sch provider src =
     check_all (\<lambda>sid. ensure_surface_not_deprecated rt sid src)
       ([sch, ''resource_schema:'' @ sch] @
        (case provider of None \<Rightarrow> [] | Some p \<Rightarrow> [p, ''resource_provider:'' @ p]))"

definition ensure_task_can_suspend :: "('r, 'h, 'v) core_runtime \<Rightarrow> string \<Rightarrow> unit runtime_result" where
  "ensure_task_can_suspend rt tid =
     (let active = active_mutable_lease_routes_for_task (rt_resources rt) tid
      in check (active = [])
           (insert_evidence ''active_mutable_leases'' (SString (join '','' active))
             (runtime_error_new ''resource.lease_cross_await'' ''runtime.resource_manager''
               (''task.await.'' @ tid))))"

section \<open>Waking and rejecting\<close>

definition rt_task_status :: "('r, 'h, 'v) core_runtime \<Rightarrow> string \<Rightarrow> task_status option" where
  "rt_task_status rt tid = map_option status (fmlookup (tasks (rt_tasks rt)) tid)"

fun wake_waits ::
  "string \<Rightarrow> task_await list \<Rightarrow> nat \<Rightarrow> ('r, 'h, 'v) core_runtime \<Rightarrow>
    nat runtime_result \<times> ('r, 'h, 'v) core_runtime" where
  "wake_waits child [] woken rt = (Inr woken, rt)"
| "wake_waits child (w # ws) woken rt =
     (if rt_task_status rt (parent_task_id w) = Some Waiting \<or> rt_task_status rt (parent_task_id w) = Some Blocked
      then (case wake (rt_tasks rt) (parent_task_id w) (current_step rt) of
              (Inl e, p) \<Rightarrow> (Inl e, rt\<lparr>rt_tasks := p\<rparr>)
            | (Inr _, p) \<Rightarrow>
                wake_waits child ws (woken + 1)
                  (emit KTask ''task.wake'' (Some (parent_task_id w))
                    (fmap_of_list [(''child_task_id'', SString child)]) None (rt\<lparr>rt_tasks := p\<rparr>)))
      else wake_waits child ws woken rt)"

definition wake_tasks_waiting_on ::
  "string \<Rightarrow> ('r, 'h, 'v) core_runtime \<Rightarrow> (nat runtime_result \<times> ('r, 'h, 'v) core_runtime) option" where
  "wake_tasks_waiting_on child rt =
     (case take_waits_for_child (rt_tasks rt) child of
        None \<Rightarrow> None
      | Some (waits, p) \<Rightarrow> Some (wake_waits child waits 0 (rt\<lparr>rt_tasks := p\<rparr>)))"

definition rt_wake_due_tasks ::
  "('r, 'h, 'v) core_runtime \<Rightarrow> (nat \<times> ('r, 'h, 'v) core_runtime) option" where
  "rt_wake_due_tasks rt =
     (case wake_due_tasks (rt_tasks rt) (current_step rt) of
        None \<Rightarrow> None
      | Some (due, p) \<Rightarrow>
          Some (length due,
            fold (\<lambda>(tid, ready_at). emit KTask ''task.wake'' (Some tid)
                (fmap_of_list [(''reason'', SString ''ready_at_step''),
                   (''ready_at_step'', SInt (u64_as_i64 ready_at))]) None)
              due (rt\<lparr>rt_tasks := p\<rparr>)))"

definition stale_ready_tasks :: "('r, 'h, 'v) core_runtime \<Rightarrow> (string \<times> runtime_error) list" where
  "stale_ready_tasks rt =
     List.map_filter (\<lambda>tid.
       case fmlookup (tasks (rt_tasks rt)) tid of
         None \<Rightarrow> None
       | Some record \<Rightarrow>
           (case validate_expectations (rt_states rt) (expected_versions (rec_task record))
              (''task.precondition.'' @ tid) of
              Inl e \<Rightarrow> Some (tid, e) | Inr _ \<Rightarrow> None))
       (stale_expectation_task_ids (rt_tasks rt))"

fun reject_stale_loop ::
  "(string \<times> runtime_error) list \<Rightarrow> nat \<Rightarrow> ('r, 'h, 'v) core_runtime \<Rightarrow>
    (nat runtime_result \<times> ('r, 'h, 'v) core_runtime) option" where
  "reject_stale_loop [] rejected rt = Some (Inr rejected, rt)"
| "reject_stale_loop ((tid, err) # rest) rejected rt =
     and_then (in_pool rt (reject_ready (rt_tasks rt) tid err)) (\<lambda>_ rt.
       and_then (wake_tasks_waiting_on tid (record_task_terminal_event tid ''task.failed'' (Some err) rt)) (\<lambda>_ rt.
         reject_stale_loop rest (rejected + 1) rt))"

definition reject_stale_ready_tasks ::
  "('r, 'h, 'v) core_runtime \<Rightarrow> (nat runtime_result \<times> ('r, 'h, 'v) core_runtime) option" where
  "reject_stale_ready_tasks rt = reject_stale_loop (stale_ready_tasks rt) 0 rt"

end
