(* ===== verification/Runtime_Tasks.thy ===== *)
theory Runtime_Tasks
  imports Runtime_State
begin

text \<open>
  The task interface of the core runtime, \<open>crates/mutsuki-runtime-core/src/runtime/task_api.rs\<close>:
  submission, handles and outcomes, and the transitions that the core makes on its own.
\<close>

section \<open>Submission\<close>

definition enqueue_task ::
  "('r, 'h, 'v) externals \<Rightarrow> 'v task \<Rightarrow> ('r, 'h, 'v) core_runtime \<Rightarrow>
    (string runtime_result \<times> ('r, 'h, 'v) core_runtime) option" where
  "enqueue_task x t rt =
     (case ensure_not_aborted rt of
        Inl e \<Rightarrow> Some (Inl e, rt)
      | Inr _ \<Rightarrow>
          let t = (if registry_generation t = 0
                   then t\<lparr>registry_generation := plan_registry_generation (load_plan rt)\<rparr> else t);
              deprecated_surface = find (is_surface_deprecated rt) (surface_ids_for_task t (rt_classes rt))
          in and_then (in_pool rt (Some (enqueue_at (x_to_writer x) (rt_tasks rt) t (current_step rt))))
               (\<lambda>tid rt.
                 case (case deprecated_surface of
                         None \<Rightarrow> Some rt
                       | Some sid \<Rightarrow>
                           map_option snd (in_pool rt (reject_ready (rt_tasks rt) tid
                             (runtime_error_new ERR_RELOAD_BLOCKED ''runtime.result_router''
                               (''surface.deprecated.'' @ sid))))) of
                   None \<Rightarrow> None
                 | Some rt \<Rightarrow>
                     Some (Inr tid,
                       emit KTask ''task.submitted'' (Some tid) fmempty None
                         (emit KTask ''task.enqueue'' (Some tid) fmempty None rt))))"

definition task_handle_for_id ::
  "('r, 'h, 'v) core_runtime \<Rightarrow> string \<Rightarrow> task_handle runtime_result" where
  "task_handle_for_id rt tid =
     (case fmlookup (tasks (rt_tasks rt)) tid of
        None \<Rightarrow> Inl (runtime_failure ERR_TASK_NOT_FOUND ''runtime.task'' (''task.handle.'' @ tid))
      | Some record \<Rightarrow>
          Inr \<lparr>h_task_id = task_id (rec_task record), h_protocol_id = protocol_id (rec_task record),
               h_target_binding_id = target_binding_id (rec_task record), h_cancel_policy = Cascade,
               h_trace_id = trace_id (rec_task record),
               h_correlation_id = correlation_id (rec_task record)\<rparr>)"

fun collect_results :: "('a \<Rightarrow> 'b runtime_result) \<Rightarrow> 'a list \<Rightarrow> 'b list runtime_result" where
  "collect_results f [] = Inr []"
| "collect_results f (a # as) =
     (case f a of
        Inl e \<Rightarrow> Inl e
      | Inr b \<Rightarrow> (case collect_results f as of Inl e \<Rightarrow> Inl e | Inr bs \<Rightarrow> Inr (b # bs)))"

fun batch_ids_available ::
  "'v task_pool \<Rightarrow> (string \<Rightarrow> runtime_error) \<Rightarrow> string fset \<Rightarrow> 'v task list \<Rightarrow> unit runtime_result" where
  "batch_ids_available p err seen [] = Inr ()"
| "batch_ids_available p err seen (t # ts) =
     (if task_id t |\<in>| seen \<or> contains_task_id p (task_id t) then Inl (err (task_id t))
      else batch_ids_available p err (finsert (task_id t) seen) ts)"

fun enqueue_all ::
  "('r, 'h, 'v) externals \<Rightarrow> 'v task list \<Rightarrow> ('r, 'h, 'v) core_runtime \<Rightarrow>
    (string list runtime_result \<times> ('r, 'h, 'v) core_runtime) option" where
  "enqueue_all x [] rt = Some (Inr [], rt)"
| "enqueue_all x (t # ts) rt =
     and_then (enqueue_task x t rt) (\<lambda>tid rt.
       and_then (enqueue_all x ts rt) (\<lambda>tids rt. Some (Inr (tid # tids), rt)))"

definition submit_batch ::
  "('r, 'h, 'v) externals \<Rightarrow> 'v task_batch \<Rightarrow> ('r, 'h, 'v) core_runtime \<Rightarrow>
    (task_handle list runtime_result \<times> ('r, 'h, 'v) core_runtime) option" where
  "submit_batch x b rt =
     (case ensure_accepting_external_tasks rt of
        Inl e \<Rightarrow> Some (Inl e, rt)
      | Inr _ \<Rightarrow>
          (case batch_ids_available (rt_tasks rt) (\<lambda>tid. runtime_failure ERR_TASK_DUPLICATE ''runtime.task''
               (''task.batch.'' @ tb_batch_id b @ ''.'' @ tid)) {||} (tb_tasks b) of
             Inl e \<Rightarrow> Some (Inl e, rt)
           | Inr _ \<Rightarrow>
               and_then (enqueue_all x (tb_tasks b) rt) (\<lambda>tids rt.
                 Some (collect_results (task_handle_for_id rt) tids, rt))))"

definition submit_task ::
  "('r, 'h, 'v) externals \<Rightarrow> 'v task \<Rightarrow> ('r, 'h, 'v) core_runtime \<Rightarrow>
    (task_handle runtime_result \<times> ('r, 'h, 'v) core_runtime) option" where
  "submit_task x t rt =
     and_then (submit_batch x (task_batch_one (''core.submit.'' @ task_id t) t) rt) (\<lambda>handles rt.
       Some (case handles of
               [] \<Rightarrow> Inl (runtime_failure ERR_TASK_CLAIM_CONFLICT ''runtime.task'' ''task.submit.empty'')
             | h # _ \<Rightarrow> Inr h, rt))"

definition submit_targeted_task ::
  "('r, 'h, 'v) externals \<Rightarrow> string \<Rightarrow> string \<Rightarrow> 'v \<Rightarrow> ('r, 'h, 'v) core_runtime \<Rightarrow>
    (task_handle runtime_result \<times> ('r, 'h, 'v) core_runtime) option" where
  "submit_targeted_task x tid bid pl rt =
     (case find (\<lambda>b. binding_id b = bid) (bindings (rt_bindings rt)) of
        None \<Rightarrow> Some (Inl (runtime_failure ERR_REGISTRY_UNAUTHORIZED ''runtime.handler_binding''
                  (''handler_binding.'' @ bid)), rt)
      | Some b \<Rightarrow>
          submit_task x ((task_new tid (target_protocol_id b) pl)
            \<lparr>target_binding_id := Some (binding_id b), runner_hint := target_runner_hint b\<rparr>) rt)"

section \<open>Reading tasks\<close>

definition task_result :: "('r, 'h, 'v) core_runtime \<Rightarrow> string \<Rightarrow> 'v task_result_snapshot option" where
  "task_result rt tid =
     map_option (\<lambda>record.
       \<lparr>trs_task_id = task_id (rec_task record), trs_status = status record, trs_output = rec_output record,
        trs_output_ref = output_ref (rec_task record),
        trs_continuation_ref = continuation_ref (rec_task record), trs_failure = failure record\<rparr>)
       (fmlookup (tasks (rt_tasks rt)) tid)"

definition record_outcome :: "string \<Rightarrow> 'v task_record \<Rightarrow> 'v task_outcome option" where
  "record_outcome tid record =
     (let reason = map_option err_route (failure record); tid' = task_id (rec_task record) in
      case status record of
        Completed \<Rightarrow> Some (OutcomeCompleted tid' (rec_output record) (output_ref (rec_task record)))
      | Failed \<Rightarrow>
          Some (OutcomeFailed tid' (case failure record of
            Some e \<Rightarrow> e
          | None \<Rightarrow> runtime_error_new ''runner.failed'' ''runtime.task'' (''task.outcome.'' @ tid)))
      | Cancelled \<Rightarrow> Some (OutcomeCancelled tid' reason)
      | Expired \<Rightarrow> Some (OutcomeExpired tid' reason)
      | DeadLetter \<Rightarrow> Some (OutcomeDeadLetter tid' reason)
      | _ \<Rightarrow> None)"

definition rt_task_outcome ::
  "('r, 'h, 'v) core_runtime \<Rightarrow> string \<Rightarrow> 'v task_outcome option runtime_result" where
  "rt_task_outcome rt tid =
     (case fmlookup (tasks (rt_tasks rt)) tid of
        None \<Rightarrow> Inl (runtime_failure ERR_TASK_NOT_FOUND ''runtime.task'' (''task.outcome.'' @ tid))
      | Some record \<Rightarrow> Inr (record_outcome tid record))"

definition task_events :: "('r, 'h, 'v) core_runtime \<Rightarrow> string \<Rightarrow> runtime_event list" where
  "task_events rt tid = filter (\<lambda>e. ev_subject_id e = Some tid) (log_records (rt_events rt))"

definition events_after ::
  "('r, 'h, 'v) core_runtime \<Rightarrow> u64 \<Rightarrow> nat \<Rightarrow> runtime_event observability_page" where
  "events_after rt cursor limit = event_page_after (rt_events rt) cursor limit"

section \<open>Cancellation\<close>

text \<open>The work list of \<open>task_cancellation_targets\<close>; \<open>pop\<close> takes the last element of the vector.\<close>

definition cascade_children :: "'v task_pool \<Rightarrow> string \<Rightarrow> string list" where
  "cascade_children p tid =
     map await_child_id (filter (\<lambda>w. await_cancel_policy w = Cascade) (awaits_for_parent p tid))"

definition owner_target :: "'v task_pool \<Rightarrow> string \<Rightarrow> (string \<times> string) list" where
  "owner_target p tid =
     (case Option.bind (fmlookup (tasks p) tid) owner_runner of None \<Rightarrow> [] | Some rid \<Rightarrow> [(tid, rid)])"

function target_loop ::
  "'v task_pool \<Rightarrow> string list \<Rightarrow> string fset \<Rightarrow> (string \<times> string) list \<Rightarrow> (string \<times> string) list" where
  "target_loop p pending visited targets =
     (if pending = [] then targets
      else
        let tid = last pending; rest = butlast pending in
        if tid |\<in>| visited then target_loop p rest visited targets
        else target_loop p (rest @ cascade_children p tid) (finsert tid visited) (targets @ owner_target p tid))"
  by pat_completeness auto
termination
proof (relation "measures [\<lambda>(p, pending, visited, targets). card (fmdom' (waits_by_parent p) - fset visited),
      \<lambda>(p, pending, visited, targets). length pending]", goal_cases)
  case (3 p pending visited targets tid rest)
  show ?case
  proof (cases "tid \<in> fmdom' (waits_by_parent p)")
    case True
    then have "fmdom' (waits_by_parent p) - fset (finsert tid visited) \<subset> fmdom' (waits_by_parent p) - fset visited"
      using 3 by auto
    then have "card (fmdom' (waits_by_parent p) - fset (finsert tid visited)) <
        card (fmdom' (waits_by_parent p) - fset visited)"
      by (intro psubset_card_mono) simp_all
    then show ?thesis by simp
  next
    case False
    then have "cascade_children p tid = []"
      by (simp add: cascade_children_def awaits_for_parent_def fm_get_or_def fmdom'_notD)
    moreover have "fmdom' (waits_by_parent p) - fset (finsert tid visited) = fmdom' (waits_by_parent p) - fset visited"
      using False by auto
    ultimately show ?thesis
      using 3 by (simp del: Diff_insert)
  qed
qed auto

declare target_loop.simps [simp del]

definition task_cancellation_targets :: "('r, 'h, 'v) core_runtime \<Rightarrow> task_handle \<Rightarrow> (string \<times> string) list" where
  "task_cancellation_targets rt handle = sort (target_loop (rt_tasks rt) [h_task_id handle] {||} [])"

definition is_live_status :: "task_status option \<Rightarrow> bool" where
  "is_live_status st \<longleftrightarrow>
     st = Some Created \<or> st = Some Ready \<or> st = Some Running \<or> st = Some Waiting \<or> st = Some Blocked"

text \<open>
  \<open>cancel_task_by_id\<close> calls itself on the children a cancelled task awaits. Each turn makes one more
  stored task terminal, so the number of stored tasks bounds the depth; running out of fuel would be
  \<open>None\<close>.
\<close>

fun cancel_fuel ::
  "nat \<Rightarrow> string \<Rightarrow> ('r, 'h, 'v) core_runtime \<Rightarrow> (unit runtime_result \<times> ('r, 'h, 'v) core_runtime) option"
and cancel_children ::
  "nat \<Rightarrow> task_await list \<Rightarrow> ('r, 'h, 'v) core_runtime \<Rightarrow>
    (unit runtime_result \<times> ('r, 'h, 'v) core_runtime) option" where
  "cancel_fuel 0 tid rt = None"
| "cancel_fuel (Suc n) tid rt =
     (let awaits = awaits_for_parent (rt_tasks rt) tid in
      if list_ex (\<lambda>w. await_cancel_policy w \<noteq> Cascade) awaits
      then Some (Inl (runtime_failure ''task.cancel_policy_unsupported'' ''runtime.task'' (''task.cancel.'' @ tid)), rt)
      else
        and_then (in_pool rt (cancel_by_core (rt_tasks rt) tid (current_step rt))) (\<lambda>_ rt.
          and_then (cancel_children n awaits (record_task_terminal_event tid ''task.cancelled'' None rt)) (\<lambda>_ rt.
            and_then (wake_tasks_waiting_on tid rt) (\<lambda>_ rt. Some (Inr (), rt)))))"
| "cancel_children n [] rt = Some (Inr (), rt)"
| "cancel_children n (w # ws) rt =
     (if is_live_status (rt_task_status rt (await_child_id w))
      then and_then (cancel_fuel n (await_child_id w) rt) (\<lambda>_ rt. cancel_children n ws rt)
      else cancel_children n ws rt)"

definition cancel_task_by_id ::
  "string \<Rightarrow> ('r, 'h, 'v) core_runtime \<Rightarrow> (unit runtime_result \<times> ('r, 'h, 'v) core_runtime) option" where
  "cancel_task_by_id tid rt = cancel_fuel (Suc (length (fm_keys (tasks (rt_tasks rt))))) tid rt"

definition cancel_task_handle ::
  "task_handle \<Rightarrow> ('r, 'h, 'v) core_runtime \<Rightarrow> (unit runtime_result \<times> ('r, 'h, 'v) core_runtime) option" where
  "cancel_task_handle handle rt = cancel_task_by_id (h_task_id handle) rt"

section \<open>Other transitions by the core\<close>

definition expire_task ::
  "string \<Rightarrow> string \<Rightarrow> ('r, 'h, 'v) core_runtime \<Rightarrow> (unit runtime_result \<times> ('r, 'h, 'v) core_runtime) option" where
  "expire_task tid reason rt =
     (let err = insert_evidence ''reason'' (SString reason)
            (runtime_error_new ERR_TASK_EXPIRED ''runtime.task'' (''task.expire.'' @ tid))
      in and_then (in_pool rt (expire_by_core (rt_tasks rt) tid err (current_step rt))) (\<lambda>_ rt.
           and_then (wake_tasks_waiting_on tid (record_task_terminal_event tid ''task.expired'' (Some err) rt))
             (\<lambda>_ rt. Some (Inr (), rt))))"

definition dead_letter_task ::
  "string \<Rightarrow> string \<Rightarrow> ('r, 'h, 'v) core_runtime \<Rightarrow> (unit runtime_result \<times> ('r, 'h, 'v) core_runtime) option" where
  "dead_letter_task tid reason rt =
     (let err = insert_evidence ''reason'' (SString reason)
            (runtime_error_new ERR_TASK_DEAD_LETTER ''runtime.task'' (''task.dead_letter.'' @ tid))
      in and_then (in_pool rt (dead_letter_by_core (rt_tasks rt) tid err (current_step rt))) (\<lambda>_ rt.
           and_then (wake_tasks_waiting_on tid (record_task_terminal_event tid ''task.dead_lettered'' (Some err) rt))
             (\<lambda>_ rt. Some (Inr (), rt))))"

definition wake_task_by_id ::
  "string \<Rightarrow> ('r, 'h, 'v) core_runtime \<Rightarrow> (unit runtime_result \<times> ('r, 'h, 'v) core_runtime) option" where
  "wake_task_by_id tid rt = in_pool rt (Some (wake (rt_tasks rt) tid (current_step rt)))"

definition wake_task_handle ::
  "task_handle \<Rightarrow> ('r, 'h, 'v) core_runtime \<Rightarrow> (unit runtime_result \<times> ('r, 'h, 'v) core_runtime) option" where
  "wake_task_handle handle rt = wake_task_by_id (h_task_id handle) rt"

end
