(* ===== verification/Runtime_Results.thy ===== *)
theory Runtime_Results
  imports Runtime_Tasks
begin

text \<open>
  What comes back from runners: \<open>result_router.rs\<close>, \<open>completion_router.rs\<close>, \<open>failure_reporting.rs\<close>
  and \<open>kernel.rs\<close> of \<open>crates/mutsuki-runtime-core/src/runtime/runner_loop\<close>. A completed batch is
  matched to the leases it was dispatched under, entry by entry; a result is checked, its outputs
  become tasks, and only then the task changes its status.
\<close>

section \<open>Derived tasks\<close>

definition commit_task :: "('r, 'h, 'v) externals \<Rightarrow> string \<Rightarrow> u64 \<Rightarrow> nat \<times> 'v state_delta \<Rightarrow> 'v task" where
  "commit_task x source gen = (\<lambda>(index, delta).
     (task_new (source @ '':commit:'' @ show_nat index) ''core.commit'' (x_of_delta x delta))
       \<lparr>registry_generation := gen\<rparr>)"

definition event_task :: "('r, 'h, 'v) externals \<Rightarrow> string \<Rightarrow> u64 \<Rightarrow> 'v domain_event \<Rightarrow> 'v task" where
  "event_task x source gen event =
     (task_new (source @ '':event:'' @ de_event_id event) ''core.event.append'' (x_of_event x event))
       \<lparr>registry_generation := gen\<rparr>"

definition effect_task :: "('r, 'h, 'v) externals \<Rightarrow> string \<Rightarrow> u64 \<Rightarrow> 'v effect_request \<Rightarrow> 'v task" where
  "effect_task x source gen effect =
     (task_new (source @ '':effect:'' @ effect_id effect) (effect_kind effect) (x_of_effect x effect))
       \<lparr>registry_generation := gen,
        expected_versions := map (\<lambda>c. \<lparr>exp_ref_id = ep_ref_id c, exp_expected_version = ep_expected_version c\<rparr>)
          (preconditions effect)\<rparr>"

definition pending_output_tasks ::
  "('r, 'h, 'v) externals \<Rightarrow> string \<Rightarrow> u64 \<Rightarrow> runner_purity \<Rightarrow> 'v runner_result \<Rightarrow> 'v task list" where
  "pending_output_tasks x source gen pur res =
     (if pur = Pure
      then map (commit_task x source gen) (enumerate 0 (rr_deltas res)) @ map (effect_task x source gen) (rr_effects res)
      else []) @
     map (event_task x source gen) (rr_events res) @ rr_tasks res"

definition ref_lineage_attrs :: "string \<Rightarrow> string \<Rightarrow> u64 \<Rightarrow> (string, scalar_value) fmap" where
  "ref_lineage_attrs rid sch gen =
     fmap_of_list [(''ref_id'', SString rid), (''schema'', SString sch), (''generation'', SInt (u64_as_i64 gen))]"

section \<open>Checks of a result\<close>

definition router_conflict :: "string \<Rightarrow> runtime_error" where
  "router_conflict route = runtime_failure ERR_TASK_CLAIM_CONFLICT ''runtime.result_router'' route"

definition validate_status_outputs :: "'v runner_result \<Rightarrow> unit runtime_result" where
  "validate_status_outputs res =
     (if rr_output res \<noteq> None \<and> rr_status res \<noteq> ResCompleted
      then Inl (router_conflict (''task.status.output.'' @ rr_task_id res))
      else if rr_status res \<noteq> ResContinue then Inr ()
      else if rr_output res = None \<and> rr_deltas res = [] \<and> rr_events res = [] \<and> rr_tasks res = [] \<and>
        rr_effects res = [] \<and> rr_values res = [] \<and> rr_resources res = []
      then Inr ()
      else Inl (router_conflict (''task.continue.outputs.'' @ rr_task_id res)))"

definition validate_await_child_task ::
  "string \<Rightarrow> 'v task \<Rightarrow> task_await \<Rightarrow> 'v task \<Rightarrow> unit runtime_result" where
  "validate_await_child_task parent_id parent w child_task =
     (let child = await_child w;
          child_matches_handle =
            (h_protocol_id child = protocol_id child_task \<and>
             h_target_binding_id child = target_binding_id child_task \<and>
             h_trace_id child = trace_id child_task \<and> h_correlation_id child = correlation_id child_task);
          child_inherits_parent_context =
            (trace_id child_task = trace_id parent \<and> correlation_id child_task = correlation_id parent)
      in check (child_matches_handle \<and> child_inherits_parent_context)
           (router_conflict (''task.await.child_descriptor.'' @ parent_id)))"

definition validate_await_child_descriptor ::
  "('r, 'h, 'v) core_runtime \<Rightarrow> string \<Rightarrow> task_await \<Rightarrow> 'v task list \<Rightarrow> unit runtime_result" where
  "validate_await_child_descriptor rt parent_id w output_tasks =
     (let find_record = (\<lambda>tid. fmlookup (tasks (rt_tasks rt)) tid);
          not_found = (\<lambda>route. runtime_failure ERR_TASK_NOT_FOUND ''runtime.result_router'' route)
      in case find_record parent_id of
           None \<Rightarrow> Inl (not_found (''task.await.parent.'' @ parent_id))
         | Some parent \<Rightarrow>
             (case find (\<lambda>t. task_id t = await_child_id w) output_tasks of
                Some output_task \<Rightarrow> validate_await_child_task parent_id (rec_task parent) w output_task
              | None \<Rightarrow>
                  (case find_record (await_child_id w) of
                     None \<Rightarrow> Inl (not_found (''task.await.child.'' @ await_child_id w))
                   | Some child \<Rightarrow>
                       if is_terminal_status (status child)
                       then Inl (router_conflict (''task.await.child_terminal.'' @ await_child_id w))
                       else validate_await_child_task parent_id (rec_task parent) w (rec_task child))))"

definition validate_waiting_result ::
  "('r, 'h, 'v) core_runtime \<Rightarrow> 'v runner_result \<Rightarrow> unit runtime_result" where
  "validate_waiting_result rt res =
     (let tid = rr_task_id res in
      case rr_await res of
        None \<Rightarrow> Inr ()
      | Some w \<Rightarrow>
          if rr_status res \<noteq> ResWaiting then Inl (router_conflict (''task.await.status.'' @ tid))
          else
            and_check (ensure_task_can_suspend rt tid)
              (and_check (check (parent_task_id w = tid) (router_conflict (''task.await.parent.'' @ tid)))
                (validate_await_child_descriptor rt tid w (rr_tasks res))))"

definition ensure_output_task_ids_available ::
  "('r, 'h, 'v) core_runtime \<Rightarrow> 'v task list \<Rightarrow> unit runtime_result" where
  "ensure_output_task_ids_available rt pending =
     batch_ids_available (rt_tasks rt)
       (\<lambda>tid. runtime_failure ERR_TASK_DUPLICATE ''runtime.result_router'' (''task.enqueue.'' @ tid)) {||} pending"

section \<open>Routing a result\<close>

definition route_result_outputs ::
  "('r, 'h, 'v) externals \<Rightarrow> 'v runner_descriptor \<Rightarrow> 'v runner_result \<Rightarrow> ('r, 'h, 'v) core_runtime \<Rightarrow>
    (unit runtime_result \<times> ('r, 'h, 'v) core_runtime) option" where
  "route_result_outputs x runner res rt =
     (if purity runner \<noteq> Pure \<and> (rr_deltas res \<noteq> [] \<or> rr_effects res \<noteq> [])
      then Some (Inl (runtime_failure ERR_RUNNER_PURITY_VIOLATION ''runtime.result_router''
             (''runner.'' @ runner_id runner @ ''.core_derivation'')), rt)
      else
        let tid = rr_task_id res;
            pending = pending_output_tasks x tid (plan_registry_generation (load_plan rt)) (purity runner) res
        in (case ensure_output_task_ids_available rt pending of
              Inl e \<Rightarrow> Some (Inl e, rt)
            | Inr _ \<Rightarrow>
                let rt1 = fold (\<lambda>v. emit KResource ''value.lineage'' (Some tid)
                      (ref_lineage_attrs (vr_ref_id v) (vr_schema v) (vr_generation v)) None) (rr_values res) rt;
                    rt2 = fold (\<lambda>r. emit KResource ''resource.lineage'' (Some tid)
                      (ref_lineage_attrs (ref_id r) (schema r) (generation r)) None) (rr_resources res) rt1
                in and_then (enqueue_all x pending rt2) (\<lambda>_ rt. Some (Inr (), rt))))"

definition settle ::
  "string \<Rightarrow> string \<Rightarrow> runtime_error option \<Rightarrow> ('r, 'h, 'v) core_runtime \<Rightarrow>
    (nat runtime_result \<times> ('r, 'h, 'v) core_runtime) option" where
  "settle tid name err rt =
     and_then (wake_tasks_waiting_on tid (record_task_terminal_event tid name err rt)) (\<lambda>_ rt. Some (Inr 1, rt))"

definition progress ::
  "string \<Rightarrow> string \<Rightarrow> ('r, 'h, 'v) core_runtime \<Rightarrow> (nat runtime_result \<times> ('r, 'h, 'v) core_runtime) option" where
  "progress tid what rt =
     Some (Inr 0, emit KTask ''task.progress'' (Some tid) (fmap_of_list [(''status'', SString what)]) None rt)"

definition commit_result_status ::
  "'v runner_descriptor \<Rightarrow> task_lease \<Rightarrow> 'v runner_result \<Rightarrow> ('r, 'h, 'v) core_runtime \<Rightarrow>
    (nat runtime_result \<times> ('r, 'h, 'v) core_runtime) option" where
  "commit_result_status runner l res rt =
     (let tid = rr_task_id res; p = rt_tasks rt; step = current_step rt in
      case rr_status res of
        ResCompleted \<Rightarrow>
          and_then (in_pool rt (complete_with_output p l step (rr_output res))) (\<lambda>_ rt.
            settle tid ''task.completed'' None rt)
      | ResWaiting \<Rightarrow>
          and_then (in_pool rt (Some (case rr_await res of
              Some w \<Rightarrow> wait_on_task p l step w | None \<Rightarrow> wait p l step None))) (\<lambda>_ rt.
            progress tid ''waiting'' rt)
      | ResBlocked \<Rightarrow>
          and_then (in_pool rt (Some (block p l step))) (\<lambda>_ rt. progress tid ''blocked'' rt)
      | ResFailed \<Rightarrow>
          let err = runtime_error_new ''runner.failed'' ''runtime.result_router'' (''runner.'' @ runner_id runner)
          in and_then (in_pool rt (fail p l step err)) (\<lambda>_ rt. settle tid ''task.failed'' (Some err) rt)
      | ResCancelled \<Rightarrow>
          and_then (in_pool rt (cancel_task p l step)) (\<lambda>_ rt. settle tid ''task.cancelled'' None rt)
      | ResContinue \<Rightarrow> Some (Inr 0, rt))"

definition route_result ::
  "('r, 'h, 'v) externals \<Rightarrow> 'v runner_descriptor \<Rightarrow> task_lease \<Rightarrow> 'v runner_result \<Rightarrow>
    ('r, 'h, 'v) core_runtime \<Rightarrow> (nat runtime_result \<times> ('r, 'h, 'v) core_runtime) option" where
  "route_result x runner l res rt =
     (case and_check (ensure_active_lease (rt_tasks rt) (rr_task_id res) l (current_step rt) ''route'')
         (and_check (validate_waiting_result rt res) (validate_status_outputs res)) of
        Inl e \<Rightarrow> Some (Inl e, rt)
      | Inr _ \<Rightarrow>
          and_then (route_result_outputs x runner res rt) (\<lambda>_ rt. commit_result_status runner l res rt))"

section \<open>Failures\<close>

definition lease_expired_attrs :: "task_lease \<Rightarrow> u64 \<Rightarrow> (string, scalar_value) fmap" where
  "lease_expired_attrs l step =
     (let attrs = fmap_of_list [(''lease_id'', SString (lease_id l)), (''runner_id'', SString (lease_runner_id l)),
            (''executor_id'', SString (lease_executor_id l)),
            (''registry_generation'', SInt (u64_as_i64 (lease_registry_generation l))),
            (''acquired_at_step'', SInt (u64_as_i64 (acquired_at_step l)))];
          attrs = (case expires_at_step l of
            None \<Rightarrow> attrs | Some e \<Rightarrow> fmupd ''expires_at_step'' (SInt (u64_as_i64 e)) attrs)
      in fmupd ''current_step'' (SInt (u64_as_i64 step)) attrs)"

definition rt_reclaim_expired_task_leases ::
  "('r, 'h, 'v) core_runtime \<Rightarrow> ('r, 'h, 'v) core_runtime option" where
  "rt_reclaim_expired_task_leases rt =
     (case reclaim_expired_task_leases (rt_tasks rt) (current_step rt) of
        None \<Rightarrow> None
      | Some (reclaimed, p) \<Rightarrow>
          Some (fold (\<lambda>l. emit KTask ''task.lease.expired'' (Some (lease_task_id l))
              (lease_expired_attrs l (current_step rt)) None) reclaimed (rt\<lparr>rt_tasks := p\<rparr>)))"

definition fail_runner_dispatch ::
  "task_lease \<Rightarrow> runtime_error \<Rightarrow> ('r, 'h, 'v) core_runtime \<Rightarrow>
    (nat runtime_result \<times> ('r, 'h, 'v) core_runtime) option" where
  "fail_runner_dispatch l err rt =
     (case in_pool rt (fail (rt_tasks rt) l (current_step rt) err) of
        None \<Rightarrow> None
      | Some (Inr _, rt) \<Rightarrow> settle (lease_task_id l) ''task.failed'' (Some err) rt
      | Some (Inl _, rt) \<Rightarrow> Some (Inr 0, rt))"

fun fail_runner_dispatches ::
  "task_lease list \<Rightarrow> runtime_error \<Rightarrow> ('r, 'h, 'v) core_runtime \<Rightarrow>
    (nat runtime_result \<times> ('r, 'h, 'v) core_runtime) option" where
  "fail_runner_dispatches [] err rt = Some (Inr 0, rt)"
| "fail_runner_dispatches (l # ls) err rt =
     and_then (fail_runner_dispatch l err rt) (\<lambda>n rt.
       and_then (fail_runner_dispatches ls err rt) (\<lambda>m rt. Some (Inr (n + m), rt)))"

definition record_rejected_runner_result ::
  "string \<Rightarrow> runtime_error \<Rightarrow> ('r, 'h, 'v) core_runtime \<Rightarrow> ('r, 'h, 'v) core_runtime" where
  "record_rejected_runner_result tid err rt =
     emit KTask ''task.result.rejected'' (Some tid)
       (fmap_of_list [(''error_code'', SString (err_code err)), (''error_route'', SString (err_route err)),
          (''current_step'', SInt (u64_as_i64 (current_step rt)))]) (Some err) rt"

section \<open>Routing a batch\<close>

definition batch_claim_conflict :: "string \<Rightarrow> runtime_error" where
  "batch_claim_conflict route = runtime_error_new ERR_TASK_CLAIM_CONFLICT ''runtime.runner_loop'' route"

definition is_stale_completion_conflict :: "runtime_error \<Rightarrow> bool" where
  "is_stale_completion_conflict e \<longleftrightarrow>
     err_code e = ERR_TASK_CLAIM_CONFLICT \<and> take (length ''task.route.'') (err_route e) = ''task.route.''"

definition route_entry_completion ::
  "('r, 'h, 'v) externals \<Rightarrow> 'v runner_descriptor \<Rightarrow> task_lease \<Rightarrow> 'v entry_completion \<Rightarrow>
    ('r, 'h, 'v) core_runtime \<Rightarrow> (nat runtime_result \<times> ('r, 'h, 'v) core_runtime) option" where
  "route_entry_completion x runner l c rt =
     (case ec_error c of
        Some e \<Rightarrow> fail_runner_dispatch l e rt
      | None \<Rightarrow>
          (case ec_result c of
             None \<Rightarrow> fail_runner_dispatch l (batch_claim_conflict (''batch.entry.empty.'' @ ec_entry_id c)) rt
           | Some res \<Rightarrow>
               if rr_task_id res \<noteq> lease_task_id l \<or> ec_task_id c \<noteq> lease_task_id l
               then fail_runner_dispatch l (batch_claim_conflict (''task.result.'' @ rr_task_id res)) rt
               else
                 (case route_result x runner l res rt of
                    None \<Rightarrow> None
                  | Some (Inr n, rt) \<Rightarrow> Some (Inr n, rt)
                  | Some (Inl e, rt) \<Rightarrow>
                      if is_stale_completion_conflict e
                      then Some (Inr 0, record_rejected_runner_result (lease_task_id l) e
                             (rt\<lparr>rt_tasks := record_stale_result_rejection (rt_tasks rt)\<rparr>))
                      else Some (Inl e, rt))))"

fun index_entries ::
  "(string, task_lease) fmap \<Rightarrow> nat \<Rightarrow> batch_entry list \<Rightarrow> (string, nat) fmap \<Rightarrow> string + (string, nat) fmap" where
  "index_entries leases_by_task i [] m = Inr m"
| "index_entries leases_by_task i (e # es) m =
     (if fmlookup m (entry_id e) \<noteq> None \<or> fmlookup leases_by_task (entry_task_id e) = None
      then Inl (''batch.entry.expected.'' @ entry_id e)
      else index_entries leases_by_task (Suc i) es (fmupd (entry_id e) i m))"

fun match_completions ::
  "(string, task_lease) fmap \<Rightarrow> batch_entry list \<Rightarrow> (string, nat) fmap \<Rightarrow> 'v entry_completion list \<Rightarrow>
    'v entry_completion option list \<Rightarrow> string + 'v entry_completion option list" where
  "match_completions leases_by_task expected by_id [] slots = Inr slots"
| "match_completions leases_by_task expected by_id (c # cs) slots =
     (case fmlookup by_id (ec_entry_id c) of
        None \<Rightarrow> Inl (''batch.entry.'' @ ec_entry_id c)
      | Some i \<Rightarrow>
          if entry_task_id (expected ! i) \<noteq> ec_task_id c \<or> fmlookup leases_by_task (ec_task_id c) = None
          then Inl (''batch.entry.'' @ ec_entry_id c)
          else if slots ! i \<noteq> None then Inl (''batch.entry.'' @ entry_id (expected ! i))
          else match_completions leases_by_task expected by_id cs (slots[i := Some c]))"

fun route_entries ::
  "('r, 'h, 'v) externals \<Rightarrow> 'v runner_descriptor \<Rightarrow> task_lease list \<Rightarrow> (string, task_lease) fmap \<Rightarrow>
    (batch_entry \<times> 'v entry_completion option) list \<Rightarrow> nat \<Rightarrow> ('r, 'h, 'v) core_runtime \<Rightarrow>
    (nat runtime_result \<times> ('r, 'h, 'v) core_runtime) option" where
  "route_entries x runner leases leases_by_task [] n rt = Some (Inr n, rt)"
| "route_entries x runner leases leases_by_task ((e, slot) # rest) n rt =
     (case fmlookup leases_by_task (entry_task_id e) of
        None \<Rightarrow> fail_runner_dispatches leases (batch_claim_conflict (''batch.entry.expected.'' @ entry_id e)) rt
      | Some l \<Rightarrow>
          and_then
            (case slot of
               None \<Rightarrow> fail_runner_dispatch l (batch_claim_conflict (''batch.missing.'' @ entry_id e)) rt
             | Some c \<Rightarrow> route_entry_completion x runner l c rt)
            (\<lambda>m rt. route_entries x runner leases leases_by_task rest (n + m) rt))"

definition route_completion_batch ::
  "('r, 'h, 'v) externals \<Rightarrow> 'v runner_descriptor \<Rightarrow> task_lease list \<Rightarrow> batch_entry list \<Rightarrow>
    'v completion_batch \<Rightarrow> ('r, 'h, 'v) core_runtime \<Rightarrow>
    (nat runtime_result \<times> ('r, 'h, 'v) core_runtime) option" where
  "route_completion_batch x runner leases expected batch rt =
     (let leases_by_task = collect_by lease_task_id leases in
      case index_entries leases_by_task 0 expected fmempty of
        Inl route \<Rightarrow> fail_runner_dispatches leases (batch_claim_conflict route) rt
      | Inr by_id \<Rightarrow>
          (case match_completions leases_by_task expected by_id (cb_results batch) (replicate (length expected) None) of
             Inl route \<Rightarrow> fail_runner_dispatches leases (batch_claim_conflict route) rt
           | Inr slots \<Rightarrow> route_entries x runner leases leases_by_task (zip expected slots) 0 rt))"

record ('r, 'v) runner_completion =
  rc_runner :: "'r option"
  rc_task_leases :: "task_lease list"
  rc_batch_id :: string
  rc_expected_entries :: "batch_entry list"
  rc_result :: "'v completion_batch runtime_result"

definition report :: "nat \<Rightarrow> nat \<Rightarrow> runner_loop_report" where
  "report claimed completed = \<lparr>claimed_tasks = claimed, completed_tasks = completed\<rparr>"

definition completion_runner_id :: "('r, 'h, 'v) externals \<Rightarrow> ('r, 'v) runner_completion \<Rightarrow> string option" where
  "completion_runner_id x c =
     (case rc_runner c of
        Some r \<Rightarrow> Some (runner_id (x_describe x r))
      | None \<Rightarrow> (case rc_task_leases c of [] \<Rightarrow> None | l # _ \<Rightarrow> Some (lease_runner_id l)))"

definition complete_runner_dispatch ::
  "('r, 'h, 'v) externals \<Rightarrow> ('r, 'v) runner_completion \<Rightarrow> ('r, 'h, 'v) core_runtime \<Rightarrow>
    (runner_loop_report runtime_result \<times> ('r, 'h, 'v) core_runtime) option" where
  "complete_runner_dispatch x c rt =
     (case Option.bind (completion_runner_id x c)
         (\<lambda>rid. find (\<lambda>d. runner_id d = rid) (descriptor_snapshot (rt_registry rt))) of
        None \<Rightarrow> Some (Inl (runtime_failure ERR_RUNNER_NOT_FOUND ''runtime.runner_loop''
                  (''batch.'' @ rc_batch_id c @ ''.runner'')), rt)
      | Some d \<Rightarrow>
          let rt = (case rc_runner c of
                None \<Rightarrow> rt | Some r \<Rightarrow> rt\<lparr>rt_registry := put_runner (x_describe x) (rt_registry rt) r\<rparr>)
          in and_then
               (case rc_result c of
                  Inl e \<Rightarrow> fail_runner_dispatches (rc_task_leases c) e rt
                | Inr batch \<Rightarrow>
                    if cb_batch_id batch \<noteq> rc_batch_id c
                    then fail_runner_dispatches (rc_task_leases c)
                           (batch_claim_conflict (''batch.result.'' @ cb_batch_id batch)) rt
                    else route_completion_batch x d (rc_task_leases c) (rc_expected_entries c) batch rt)
               (\<lambda>n rt. Some (Inr (report 0 n), rt)))"

section \<open>Kernel tasks\<close>

definition kernel_done ::
  "task_lease \<Rightarrow> ('r, 'h, 'v) core_runtime \<Rightarrow> (unit runtime_result \<times> ('r, 'h, 'v) core_runtime) option" where
  "kernel_done l rt = in_pool rt (complete (rt_tasks rt) l (current_step rt))"

definition process_kernel_task ::
  "('r, 'h, 'v) externals \<Rightarrow> task_lease \<Rightarrow> 'v task \<Rightarrow> ('r, 'h, 'v) core_runtime \<Rightarrow>
    (unit runtime_result \<times> ('r, 'h, 'v) core_runtime) option" where
  "process_kernel_task x l t rt =
     (case ensure_active_lease (rt_tasks rt) (task_id t) l (current_step rt) ''kernel'' of
        Inl e \<Rightarrow> Some (Inl e, rt)
      | Inr _ \<Rightarrow>
          if protocol_id t = ''core.commit'' then
            (case x_delta_of x (payload t) of
               Inl msg \<Rightarrow> Some (Inl (runtime_failure ''state.delta_decode_failed'' ''runtime.committer'' msg), rt)
             | Inr delta \<Rightarrow>
                 (case state_apply (rt_states rt) delta of
                    (Inl e, st) \<Rightarrow> Some (Inl e, rt\<lparr>rt_states := st\<rparr>)
                  | (Inr _, st) \<Rightarrow>
                      kernel_done l (emit KState ''state.commit'' (Some (target_ref delta)) fmempty None
                        (rt\<lparr>rt_states := st\<rparr>))))
          else if protocol_id t = ''core.event.append'' then
            (case x_event_of x (payload t) of
               Inl msg \<Rightarrow> Some (Inl (runtime_failure ''event.decode_failed'' ''runtime.event_log'' msg), rt)
             | Inr event \<Rightarrow>
                 kernel_done l (emit KTask (de_kind event) (Some (de_event_id event)) fmempty None rt))
          else
            let err = runtime_error_new ERR_TASK_UNSUPPORTED ''runtime.committer'' (''core.task.'' @ protocol_id t)
            in and_then (in_pool rt (fail (rt_tasks rt) l (current_step rt) err)) (\<lambda>_ rt.
                 and_then (settle (task_id t) ''task.failed'' (Some err) rt) (\<lambda>_ rt. Some (Inr (), rt))))"

fun process_kernel_tasks ::
  "('r, 'h, 'v) externals \<Rightarrow> (task_lease \<times> 'v task) list \<Rightarrow> nat \<Rightarrow> ('r, 'h, 'v) core_runtime \<Rightarrow>
    (nat runtime_result \<times> ('r, 'h, 'v) core_runtime) option" where
  "process_kernel_tasks x [] n rt = Some (Inr n, rt)"
| "process_kernel_tasks x ((l, t) # rest) n rt =
     and_then (process_kernel_task x l t rt) (\<lambda>_ rt. process_kernel_tasks x rest (n + 1) rt)"

end
