(* ===== verification/Runtime_Loop.thy ===== *)
theory Runtime_Loop
  imports Runtime_Results
begin

text \<open>
  The runner loop, \<open>crates/mutsuki-runtime-core/src/runtime/runner_loop.rs\<close> with
  \<open>dispatch_selection.rs\<close>, \<open>dispatch_build.rs\<close>, \<open>executor.rs\<close> and \<open>trace_metadata.rs\<close>: one pass
  over the registered runners claims work for each, splits it into batches, and either hands the
  batches to a host or runs them in place.
\<close>

section \<open>Attributes\<close>

definition descriptor_fingerprint :: "'v runner_descriptor \<Rightarrow> string" where
  "descriptor_fingerprint d =
     ''runner:'' @ runner_id d @ '':'' @ plugin_id d @ '':'' @ show_u64 (plugin_generation d) @ '':'' @
     join '','' (accepted_protocol_ids d)"

definition contract_fingerprint :: "'v runner_descriptor \<Rightarrow> 'v runtime_load_plan \<Rightarrow> string" where
  "contract_fingerprint d plan =
     join '';'' (sort (map (\<lambda>sid. sid @ ''='' @
       (case find (\<lambda>s. surface_id s = sid) (plan_surfaces plan) of
          Some s \<Rightarrow> fingerprint s | None \<Rightarrow> ''missing'')) (contract_surfaces d)))"

definition runner_attrs :: "'v runner_descriptor \<Rightarrow> 'v runtime_load_plan \<Rightarrow> (string, scalar_value) fmap" where
  "runner_attrs d plan =
     fmap_of_list
       [(''runner_id'', SString (runner_id d)), (''plugin_id'', SString (plugin_id d)),
        (''plugin_generation'', SInt (u64_as_i64 (plugin_generation d))),
        (''artifact_hash'', SString (case find (\<lambda>m. man_plugin_id m = plugin_id d) (plan_plugins plan) of
           Some m \<Rightarrow> artifact_sha256 (man_artifact m) | None \<Rightarrow> ''unknown'')),
        (''descriptor_hash'', SString (descriptor_fingerprint d)),
        (''contract_fingerprint'', SString (contract_fingerprint d plan))]"

definition trace_attrs :: "trace_span \<Rightarrow> (string, scalar_value) fmap" where
  "trace_attrs span =
     fmap_of_list [(''trace_id'', SString (sp_trace_id span)), (''span_id'', SString (span_id span)),
       (''span_name'', SString (sp_name span))]"

section \<open>Dispatches\<close>

datatype ('r, 'h) runner_dispatch_target = TargetSync 'r | TargetAsync 'h

record ('r, 'h, 'v) runner_dispatch =
  dsp_target :: "('r, 'h) runner_dispatch_target"
  dsp_ctx :: runner_context
  dsp_task_leases :: "task_lease list"
  dsp_batch :: "'v work_batch"

definition dispatch_trace_id :: "'v task \<Rightarrow> string" where
  "dispatch_trace_id t = (case trace_id t of Some i \<Rightarrow> i | None \<Rightarrow> ''trace-task-'' @ task_id t)"

definition dispatch_batch_id :: "u64 \<Rightarrow> 'v runner_descriptor \<Rightarrow> (task_lease \<times> 'v task) list \<Rightarrow> string" where
  "dispatch_batch_id step d lts =
     ''batch-'' @ show_u64 step @ ''-'' @ runner_id d @ ''-'' @
     show_u64 (case lts of [] \<Rightarrow> 0 | lt # _ \<Rightarrow> created_sequence (snd lt))"

definition record_dispatch_span ::
  "('r, 'h, 'v) externals \<Rightarrow> 'v runner_descriptor \<Rightarrow> string \<Rightarrow> (task_lease \<times> 'v task) list \<Rightarrow> 'v work_batch \<Rightarrow>
    ('r, 'h, 'v) core_runtime \<Rightarrow> trace_span option \<times> ('r, 'h, 'v) core_runtime" where
  "record_dispatch_span x d executor lts b rt =
     (if dispatch_spans (plan_observability (load_plan rt)) \<and> will_retain_next (rt_traces rt) then
        let trace = (case lts of [] \<Rightarrow> ''trace-batch-'' @ batch_id b | lt # _ \<Rightarrow> dispatch_trace_id (snd lt));
            attrs = fmadd (runner_attrs d (load_plan rt))
              (dispatch_batch_attrs (x_task_of x) d b (map fst lts) executor);
            (span, traces) = trace_record (rt_traces rt) trace ''runner.run_batch'' None SpanOk attrs
        in (span, rt\<lparr>rt_traces := traces\<rparr>)
      else (None, rt))"

definition dispatch_target ::
  "'v runner_descriptor \<Rightarrow> ('r, 'h, 'v) core_runtime \<Rightarrow>
    ('r, 'h) runner_dispatch_target runtime_result \<times> ('r, 'h, 'v) core_runtime" where
  "dispatch_target d rt =
     (case fmlookup (async_handlers (rt_registry rt)) (runner_id d) of
        Some h \<Rightarrow> (Inr (TargetAsync h), rt)
      | None \<Rightarrow>
          (case take_runner (rt_registry rt) (runner_id d) of
             (Some r, reg) \<Rightarrow> (Inr (TargetSync r), rt\<lparr>rt_registry := reg\<rparr>)
           | (None, reg) \<Rightarrow>
               (Inl (runtime_failure ERR_RUNNER_NOT_FOUND ''runtime.runner_loop'' (''runner.'' @ runner_id d)),
                rt\<lparr>rt_registry := reg\<rparr>)))"

definition started_attrs :: "task_lease \<Rightarrow> (string, scalar_value) fmap" where
  "started_attrs l =
     fmap_of_list [(''lease_id'', SString (lease_id l)), (''runner_id'', SString (lease_runner_id l)),
       (''registry_generation'', SInt (u64_as_i64 (lease_registry_generation l)))]"

definition build_runner_dispatch ::
  "('r, 'h, 'v) externals \<Rightarrow> 'v runner_descriptor \<Rightarrow> string \<Rightarrow> (task_lease \<times> 'v task) list \<Rightarrow>
    ('r, 'h, 'v) core_runtime \<Rightarrow>
    (('r, 'h, 'v) runner_dispatch runtime_result \<times> ('r, 'h, 'v) core_runtime) option" where
  "build_runner_dispatch x d executor lts rt =
     (let bid = dispatch_batch_id (current_step rt) d lts; leases = map fst lts;
          b = build_work_batch (current_step rt) bid d lts;
          (span, rt) = record_dispatch_span x d executor lts b rt
      in and_then (Some (dispatch_target d rt)) (\<lambda>target rt.
           let ctx = with_batch (runner_context_new (plan_registry_generation (load_plan rt)) (current_step rt)
                 executor (map lease_id leases) bid) bid (length leases);
               rt = fold (\<lambda>l. emit KTask ''task.started'' (Some (lease_task_id l)) (started_attrs l) None) leases rt;
               rt = (case span of
                   Some sp \<Rightarrow>
                     if is_enabled (rt_events rt)
                     then emit KTrace ''trace.span'' (Some (runner_id d)) (trace_attrs sp) None rt else rt
                 | None \<Rightarrow> rt)
           in Some (Inr \<lparr>dsp_target = target, dsp_ctx = ctx, dsp_task_leases = leases, dsp_batch = b\<rparr>, rt)))"

fun build_dispatches ::
  "('r, 'h, 'v) externals \<Rightarrow> 'v runner_descriptor \<Rightarrow> string \<Rightarrow> (task_lease \<times> 'v task) list list \<Rightarrow>
    ('r, 'h, 'v) core_runtime \<Rightarrow>
    (('r, 'h, 'v) runner_dispatch list runtime_result \<times> ('r, 'h, 'v) core_runtime) option" where
  "build_dispatches x d executor [] rt = Some (Inr [], rt)"
| "build_dispatches x d executor (chunk # rest) rt =
     and_then (build_runner_dispatch x d executor chunk rt) (\<lambda>dsp rt.
       and_then (build_dispatches x d executor rest rt) (\<lambda>dsps rt. Some (Inr (dsp # dsps), rt)))"

section \<open>Claiming work for one runner\<close>

definition decision_attrs ::
  "'v runner_descriptor \<Rightarrow> schedule_decision \<Rightarrow> ('r, 'h, 'v) core_runtime \<Rightarrow> (string, scalar_value) fmap" where
  "decision_attrs d decision rt =
     fmap_of_list
       [(''scheduler_id'', SString (scheduler_id decision)), (''runner_id'', SString (runner_id d)),
        (''requested_dispatch_limit'', SInt (usize_as_i64 (requested_dispatch_limit decision))),
        (''effective_dispatch_limit'', SInt (usize_as_i64 (dispatch_limit decision))),
        (''budget_max_entries'', SInt (usize_as_i64 (max_entries (decision_budget decision)))),
        (''budget_max_batches'', SInt (usize_as_i64 (max_batches (decision_budget decision)))),
        (''reason'', SString (decision_reason decision)),
        (''registry_generation'', SInt (u64_as_i64 (plan_registry_generation (load_plan rt)))),
        (''current_step'', SInt (u64_as_i64 (current_step rt)))]"

definition record_scheduler_decision ::
  "'v runner_descriptor \<Rightarrow> schedule_decision \<Rightarrow> ('r, 'h, 'v) core_runtime \<Rightarrow> ('r, 'h, 'v) core_runtime" where
  "record_scheduler_decision d decision rt =
     (let rt = rt\<lparr>scheduler_decisions := sat_add (scheduler_decisions rt) 1\<rparr> in
      if \<not> detailed_scheduler_decisions (plan_observability (load_plan rt)) then rt
      else if \<not> is_enabled (rt_events rt) \<and> \<not> will_retain_next (rt_traces rt) then rt
      else
        let attrs = decision_attrs d decision rt;
            (span, rt) = (if will_retain_next (rt_traces rt) then
                let (span, traces) = trace_record (rt_traces rt) (''trace-scheduler-'' @ runner_id d)
                      ''scheduler.decision'' None SpanOk attrs
                in (span, rt\<lparr>rt_traces := traces\<rparr>)
              else (None, rt));
            attrs = (case span of Some sp \<Rightarrow> fmupd ''span_id'' (SString (span_id sp)) attrs | None \<Rightarrow> attrs)
        in if is_enabled (rt_events rt)
           then emit KTrace ''scheduler.decision'' (Some (runner_id d)) attrs None rt else rt)"

definition runner_can_dispatch :: "'v runner_descriptor \<Rightarrow> bool" where
  "runner_can_dispatch d \<longleftrightarrow> execution_class d \<noteq> Control \<or> runner_id d = ''core.kernel''"

fun defer_all ::
  "task_lease list \<Rightarrow> ('r, 'h, 'v) core_runtime \<Rightarrow> (unit runtime_result \<times> ('r, 'h, 'v) core_runtime) option" where
  "defer_all [] rt = Some (Inr (), rt)"
| "defer_all (l # ls) rt =
     and_then (in_pool rt (Some (defer_leased (rt_tasks rt) l (current_step rt)))) (\<lambda>_ rt. defer_all ls rt)"

text \<open>
  Of the claimed tasks, the first group without write conflicts is cut into batches and the rest goes
  back to ready. \<open>remove(0)\<close> of no group and \<open>chunks(0)\<close> would panic.
\<close>

definition dispatch_claimed ::
  "('r, 'h, 'v) externals \<Rightarrow> 'v runner_descriptor \<Rightarrow> schedule_decision \<Rightarrow> string \<Rightarrow> (task_lease \<times> 'v task) list \<Rightarrow>
    ('r, 'h, 'v) core_runtime \<Rightarrow>
    ((runner_loop_report \<times> ('r, 'h, 'v) runner_dispatch list) runtime_result \<times> ('r, 'h, 'v) core_runtime) option" where
  "dispatch_claimed x d decision executor leased rt =
     (case split_leased_tasks_by_resource_conflict leased of
        [] \<Rightarrow> None
      | grp # others \<Rightarrow>
          and_then (defer_all (map fst (concat others)) rt) (\<lambda>_ rt.
            if max_batch_entries (rd_batch d) = 0 then None
            else
              let batches = dispatch_chunks d decision grp; dispatched = sum_list (map length batches)
              in and_then (defer_all (map fst (drop dispatched grp)) rt) (\<lambda>_ rt.
                   and_then (build_dispatches x d executor batches rt) (\<lambda>dsps rt.
                     Some (Inr (report dispatched 0, dsps), rt)))))"

definition claim_runner_work ::
  "('r, 'h, 'v) externals \<Rightarrow> 'v runner_descriptor \<Rightarrow> schedule_decision \<Rightarrow> u64 option \<Rightarrow>
    ('r, 'h, 'v) core_runtime \<Rightarrow>
    ((runner_loop_report \<times> ('r, 'h, 'v) runner_dispatch list) runtime_result \<times> ('r, 'h, 'v) core_runtime) option" where
  "claim_runner_work x d decision lease_expires_at rt =
     (let effective = effective_decision d decision;
          rt = record_scheduler_decision d effective rt;
          executor = ''executor:'' @ runner_id d in
      if dispatch_limit effective = 0 then Some (Inr (report 0 0, []), rt)
      else
        (case in_pool rt (claim_ready_for_executor_with_budget (rt_tasks rt) d executor (current_step rt)
             (plan_registry_generation (load_plan rt)) (dispatch_limit effective)
             (Some (decision_budget effective)) lease_expires_at) of
           None \<Rightarrow> None
         | Some (leased, rt) \<Rightarrow>
             if leased = [] then Some (Inr (report 0 0, []), rt)
             else if purity d = Committer \<and> runner_id d = ''core.kernel'' then
               and_then (process_kernel_tasks x leased 0 rt) (\<lambda>n rt. Some (Inr (report (length leased) n, []), rt))
             else dispatch_claimed x d decision executor leased rt))"

section \<open>Executors\<close>

definition inline_execute ::
  "('r, 'h, 'v) externals \<Rightarrow> ('r, 'h, 'v) runner_dispatch \<Rightarrow> ('r, 'v) runner_completion" where
  "inline_execute x dsp =
     (let finish = (\<lambda>runner result. \<lparr>rc_runner = runner, rc_task_leases = dsp_task_leases dsp,
            rc_batch_id = batch_id (dsp_batch dsp), rc_expected_entries = batch_entries (dsp_batch dsp),
            rc_result = result\<rparr>)
      in case dsp_target dsp of
           TargetSync r \<Rightarrow> (case x_run_batch x r (dsp_ctx dsp) (dsp_batch dsp) of (result, r') \<Rightarrow> finish (Some r') result)
         | TargetAsync h \<Rightarrow>
             finish None (Inl (runtime_failure ERR_RUNTIME_HOST_FAILED ''runtime.inline_executor''
               ''host.async_executor.unavailable'')))"

fun complete_all ::
  "('r, 'h, 'v) externals \<Rightarrow> ('r, 'h, 'v) runner_dispatch list \<Rightarrow> ('r, 'h, 'v) core_runtime \<Rightarrow>
    (nat runtime_result \<times> ('r, 'h, 'v) core_runtime) option" where
  "complete_all x [] rt = Some (Inr 0, rt)"
| "complete_all x (dsp # dsps) rt =
     and_then (complete_runner_dispatch x (inline_execute x dsp) rt) (\<lambda>rep rt.
       and_then (complete_all x dsps rt) (\<lambda>n rt. Some (Inr (completed_tasks rep + n), rt)))"

section \<open>Passes\<close>

definition advance_clock ::
  "u64 \<Rightarrow> ('r, 'h, 'v) core_runtime \<Rightarrow> (nat runtime_result \<times> ('r, 'h, 'v) core_runtime) option" where
  "advance_clock step rt =
     (case rt_reclaim_expired_task_leases (rt\<lparr>current_step := step\<rparr>) of
        None \<Rightarrow> None
      | Some rt \<Rightarrow>
          (case rt_wake_due_tasks rt of
             None \<Rightarrow> None
           | Some (_, rt) \<Rightarrow> reject_stale_ready_tasks rt))"

definition rt_runner_load ::
  "'v runner_descriptor \<Rightarrow> ('r, 'h, 'v) core_runtime \<Rightarrow> runner_load \<times> ('r, 'h, 'v) core_runtime" where
  "rt_runner_load d rt =
     (case pool_runner_load (rt_tasks rt) d (current_step rt) (plan_registry_generation (load_plan rt)) of
        (load, p) \<Rightarrow> (load, rt\<lparr>rt_tasks := p\<rparr>))"

fun tick_loop ::
  "('r, 'h, 'v) externals \<Rightarrow> 'v runner_descriptor list \<Rightarrow> runner_loop_report \<Rightarrow> ('r, 'h, 'v) core_runtime \<Rightarrow>
    (runner_loop_report runtime_result \<times> ('r, 'h, 'v) core_runtime) option" where
  "tick_loop x [] rep rt = Some (Inr rep, rt)"
| "tick_loop x (d # ds) rep rt =
     (if \<not> runner_can_dispatch d then tick_loop x ds rep rt
      else
        let (load, rt) = rt_runner_load d rt;
            decision = decision_clamp_to (schedule_decision_new ''core.inline'' (load_queued_count load) ''inline.default'')
              (load_queued_count load)
        in and_then (claim_runner_work x d decision (Some (current_step rt + TASK_LEASE_TTL_STEPS)) rt)
             (\<lambda>(claimed, dsps) rt.
               and_then (complete_all x dsps rt) (\<lambda>n rt.
                 tick_loop x ds (report (claimed_tasks rep + claimed_tasks claimed)
                   (completed_tasks rep + completed_tasks claimed + n)) rt)))"

definition tick_once ::
  "('r, 'h, 'v) externals \<Rightarrow> ('r, 'h, 'v) core_runtime \<Rightarrow>
    (runner_loop_report runtime_result \<times> ('r, 'h, 'v) core_runtime) option" where
  "tick_once x rt =
     (case ensure_not_aborted rt of
        Inl e \<Rightarrow> Some (Inl e, rt)
      | Inr _ \<Rightarrow>
          and_then (advance_clock (current_step rt + 1) rt) (\<lambda>rejected rt.
            tick_loop x (descriptor_snapshot (rt_registry rt)) (report 0 rejected) rt))"

text \<open>The closure \<open>decide_schedule\<close> of a host carries its own state.\<close>

fun claim_pass ::
  "('r, 'h, 'v) externals \<Rightarrow> ('s \<Rightarrow> 'v runner_descriptor \<Rightarrow> runner_load \<Rightarrow> u64 \<Rightarrow> u64 \<Rightarrow> schedule_decision runtime_result \<times> 's) \<Rightarrow>
    u64 option \<Rightarrow> 'v runner_descriptor list \<Rightarrow> runner_loop_report \<Rightarrow> ('r, 'h, 'v) runner_dispatch list \<Rightarrow> 's \<Rightarrow>
    ('r, 'h, 'v) core_runtime \<Rightarrow>
    ((runner_loop_report \<times> ('r, 'h, 'v) runner_dispatch list) runtime_result \<times> ('r, 'h, 'v) core_runtime) option" where
  "claim_pass x decide expires [] rep dsps s rt = Some (Inr (rep, dsps), rt)"
| "claim_pass x decide expires (d # ds) rep dsps s rt =
     (if \<not> runner_can_dispatch d then claim_pass x decide expires ds rep dsps s rt
      else
        (case rt_runner_load d rt of
           (load, rt) \<Rightarrow>
             (case decide s d load (current_step rt) (plan_registry_generation (load_plan rt)) of
                (Inl e, _) \<Rightarrow> Some (Inl e, rt)
              | (Inr decision, s) \<Rightarrow>
                  and_then (claim_runner_work x d decision expires rt) (\<lambda>(claimed, new) rt.
                    claim_pass x decide expires ds
                      (report (claimed_tasks rep + claimed_tasks claimed) (completed_tasks rep + completed_tasks claimed))
                      (dsps @ new) s rt))))"

definition claim_ready_dispatches_at_step ::
  "('r, 'h, 'v) externals \<Rightarrow> u64 \<Rightarrow> ('s \<Rightarrow> 'v runner_descriptor \<Rightarrow> runner_load \<Rightarrow> u64 \<Rightarrow> u64 \<Rightarrow>
     schedule_decision runtime_result \<times> 's) \<Rightarrow> 's \<Rightarrow> u64 option \<Rightarrow> ('r, 'h, 'v) core_runtime \<Rightarrow>
    ((runner_loop_report \<times> ('r, 'h, 'v) runner_dispatch list) runtime_result \<times> ('r, 'h, 'v) core_runtime) option" where
  "claim_ready_dispatches_at_step x target decide s expires rt =
     (case ensure_not_aborted rt of
        Inl e \<Rightarrow> Some (Inl e, rt)
      | Inr _ \<Rightarrow>
          if target \<le> current_step rt
          then Some (Inl (runtime_failure ''runtime.tick.invalid'' ''runtime.runner_loop''
                 (''runtime.step.'' @ show_u64 target @ ''.after.'' @ show_u64 (current_step rt))), rt)
          else
            and_then (advance_clock target rt) (\<lambda>rejected rt.
              claim_pass x decide expires (descriptor_snapshot (rt_registry rt)) (report 0 rejected) [] s rt))"

definition claim_ready_dispatches ::
  "('r, 'h, 'v) externals \<Rightarrow> ('s \<Rightarrow> 'v runner_descriptor \<Rightarrow> runner_load \<Rightarrow> u64 \<Rightarrow> u64 \<Rightarrow>
     schedule_decision runtime_result \<times> 's) \<Rightarrow> 's \<Rightarrow> u64 option \<Rightarrow> ('r, 'h, 'v) core_runtime \<Rightarrow>
    ((runner_loop_report \<times> ('r, 'h, 'v) runner_dispatch list) runtime_result \<times> ('r, 'h, 'v) core_runtime) option" where
  "claim_ready_dispatches x decide s expires rt =
     claim_ready_dispatches_at_step x (sat_add (current_step rt) 1) decide s expires rt"

definition defer_runner_dispatch ::
  "('r, 'h, 'v) externals \<Rightarrow> ('r, 'h, 'v) runner_dispatch \<Rightarrow> ('r, 'h, 'v) core_runtime \<Rightarrow>
    (nat runtime_result \<times> ('r, 'h, 'v) core_runtime) option" where
  "defer_runner_dispatch x dsp rt =
     (case check_all (\<lambda>l. ensure_active_lease (rt_tasks rt) (lease_task_id l) l (current_step rt) ''host_defer'')
         (dsp_task_leases dsp) of
        Inl e \<Rightarrow> Some (Inl e, rt)
      | Inr _ \<Rightarrow>
          and_then (defer_all (dsp_task_leases dsp) rt) (\<lambda>_ rt.
            Some (Inr (length (dsp_task_leases dsp)),
              (case dsp_target dsp of
                 TargetSync r \<Rightarrow> rt\<lparr>rt_registry := put_runner (x_describe x) (rt_registry rt) r\<rparr>
               | TargetAsync h \<Rightarrow> rt))))"

fun idle_loop ::
  "('r, 'h, 'v) externals \<Rightarrow> nat \<Rightarrow> runner_loop_report \<Rightarrow> ('r, 'h, 'v) core_runtime \<Rightarrow>
    (runner_loop_report runtime_result \<times> ('r, 'h, 'v) core_runtime) option" where
  "idle_loop x 0 agg rt = Some (Inr agg, rt)"
| "idle_loop x (Suc n) agg rt =
     and_then (tick_once x rt) (\<lambda>rep rt.
       let agg = report (claimed_tasks agg + claimed_tasks rep) (completed_tasks agg + completed_tasks rep)
       in if claimed_tasks rep = 0 \<and> completed_tasks rep = 0 then Some (Inr agg, rt)
          else idle_loop x n agg rt)"

definition run_until_idle ::
  "('r, 'h, 'v) externals \<Rightarrow> nat \<Rightarrow> ('r, 'h, 'v) core_runtime \<Rightarrow>
    (runner_loop_report runtime_result \<times> ('r, 'h, 'v) core_runtime) option" where
  "run_until_idle x max_ticks rt = idle_loop x max_ticks (report 0 0) rt"

end
