(* ===== verification/Runtime_Reload.thy ===== *)
theory Runtime_Reload
  imports Runtime_Loop
begin

text \<open>
  Reloading and resources at runtime level: \<open>crates/mutsuki-runtime-core/src/runtime/reload.rs\<close> with
  \<open>reload/generations.rs\<close>, \<open>reload/invocation.rs\<close> and \<open>reload/occupancy.rs\<close>, and
  \<open>runtime/resource_api.rs\<close>. A reload compares contract surfaces against their occupancy, cancels or
  drains the running invocations of the old generation, and swaps the registry.
\<close>

section \<open>Occupancy\<close>

definition merge_item ::
  "surface_occupancy \<Rightarrow> (string, surface_occupancy) fmap \<Rightarrow> (string, surface_occupancy) fmap" where
  "merge_item item m =
     (let e = (case fmlookup m (occ_surface_id item) of
            Some e \<Rightarrow> e | None \<Rightarrow> zero_occupancy (occ_surface_id item))
      in fmupd (occ_surface_id item)
           (e\<lparr>ready_tasks := ready_tasks e + ready_tasks item,
              running_invocations := running_invocations e + running_invocations item,
              resource_refs := resource_refs e + resource_refs item,
              state_refs := state_refs e + state_refs item,
              active_lease_count := active_lease_count e + active_lease_count item,
              open_streams := open_streams e + open_streams item,
              subscriptions := subscriptions e + subscriptions item,
              timers := timers e + timers item,
              effect_inflight := effect_inflight e + effect_inflight item\<rparr>) m)"

definition merge_occupancy :: "surface_occupancy list \<Rightarrow> surface_occupancy list \<Rightarrow> surface_occupancy list" where
  "merge_occupancy task_occ resource_occ = fm_values (fold merge_item (task_occ @ resource_occ) fmempty)"

definition rt_surface_occupancy :: "('r, 'h, 'v) core_runtime \<Rightarrow> surface_occupancy list" where
  "rt_surface_occupancy rt =
     merge_occupancy (task_surface_occupancy (rt_tasks rt) (rt_classes rt))
       (rm_surface_occupancy (rt_resources rt) (rt_surfaces rt))"

section \<open>Generations\<close>

definition mark_generation_phase ::
  "u64 \<Rightarrow> plugin_generation_phase \<Rightarrow> ('r, 'h, 'v) core_runtime \<Rightarrow> ('r, 'h, 'v) core_runtime" where
  "mark_generation_phase gen phase rt =
     rt\<lparr>generation_states :=
       map (\<lambda>s. if pgs_generation s = gen then s\<lparr>pgs_phase := phase\<rparr> else s) (generation_states rt)\<rparr>"

definition add_generation_states ::
  "plugin_generation_state list \<Rightarrow> plugin_generation_state list \<Rightarrow> plugin_generation_state list" where
  "add_generation_states new states =
     fold (\<lambda>n states. if list_ex (\<lambda>s. pgs_plugin_id s = pgs_plugin_id n \<and> pgs_generation s = pgs_generation n) states
       then states else states @ [n]) new states"

definition set_active_generation_states :: "('r, 'h, 'v) core_runtime \<Rightarrow> ('r, 'h, 'v) core_runtime" where
  "set_active_generation_states rt =
     (let active = plan_registry_generation (load_plan rt);
          states = map (\<lambda>s. if pgs_generation s = active then s\<lparr>pgs_phase := Active\<rparr>
            else if pgs_phase s = Active then s\<lparr>pgs_phase := Draining\<rparr> else s) (generation_states rt)
      in rt\<lparr>generation_states := add_generation_states (generation_states_for_plan (load_plan rt) Active) states\<rparr>)"

definition apply_load_plan ::
  "'v runtime_load_plan \<Rightarrow> ('r, 'h, 'v) core_runtime \<Rightarrow> ('r, 'h, 'v) core_runtime" where
  "apply_load_plan plan rt =
     rt\<lparr>rt_tasks := snd (rebind_ready_generation (rt_tasks rt)
          (plan_registry_generation (load_plan rt)) (plan_registry_generation plan)),
        rt_bindings := bindings_from_load_plan plan, rt_surfaces := plan_surfaces plan,
        rt_classes := protocol_classes_for_plan plan, load_plan := plan\<rparr>"

definition x_dispose_all ::
  "('r, 'h, 'v) externals \<Rightarrow> ('r, 'h, 'v) runner_registry \<Rightarrow> dispose_bag runtime_result \<times> ('r, 'h, 'v) runner_registry" where
  "x_dispose_all x reg = dispose_all (x_dispose x) (x_describe x) (x_manage x) (x_describe_async x) reg"

definition dispose_plugins ::
  "('r, 'h, 'v) externals \<Rightarrow> ('r, 'h, 'v) core_runtime \<Rightarrow> dispose_bag runtime_result \<times> ('r, 'h, 'v) core_runtime" where
  "dispose_plugins x rt =
     (case x_dispose_all x (rt_registry rt) of
        (Inl e, reg) \<Rightarrow> (Inl e, rt\<lparr>rt_registry := reg\<rparr>)
      | (Inr bag, reg) \<Rightarrow>
          (Inr bag, emit KPlugin ''plugin.dispose'' None fmempty None
             (mark_generation_phase (plan_registry_generation (load_plan rt)) Disposed (rt\<lparr>rt_registry := reg\<rparr>))))"

text \<open>The loop drains the vector; an error drops what it has not looked at and what it kept.\<close>

fun settle_loop ::
  "('r, 'h, 'v) externals \<Rightarrow> 'v task_pool \<Rightarrow> ('r, 'h, 'v) draining_generation list \<Rightarrow>
    ('r, 'h, 'v) draining_generation list \<Rightarrow> string list \<Rightarrow> u64 list \<Rightarrow>
    (('r, 'h, 'v) draining_generation list \<times> string list \<times> u64 list) runtime_result" where
  "settle_loop x p [] remaining bag gens = Inr (remaining, bag, gens)"
| "settle_loop x p (g # gs) remaining bag gens =
     (if list_ex (\<lambda>rid. running_records_for_runner p rid \<noteq> []) (dg_runner_ids g)
      then settle_loop x p gs (remaining @ [g]) bag gens
      else
        (case x_dispose_all x (dg_registry g) of
           (Inl e, _) \<Rightarrow> Inl e
         | (Inr b, _) \<Rightarrow> settle_loop x p gs remaining (bag @ disposed b) (gens @ [dg_registry_generation g])))"

definition settle_draining_generations ::
  "('r, 'h, 'v) externals \<Rightarrow> ('r, 'h, 'v) core_runtime \<Rightarrow> dispose_bag runtime_result \<times> ('r, 'h, 'v) core_runtime" where
  "settle_draining_generations x rt =
     (case settle_loop x (rt_tasks rt) (draining_generations rt) [] [] [] of
        Inl e \<Rightarrow> (Inl e, rt\<lparr>draining_generations := []\<rparr>)
      | Inr (remaining, bag, gens) \<Rightarrow>
          (Inr \<lparr>disposed = bag\<rparr>,
           fold (\<lambda>gen. mark_generation_phase gen Disposed) gens (rt\<lparr>draining_generations := remaining\<rparr>)))"

section \<open>Running invocations\<close>

datatype invocation_pollution = Clean | LocalDirty | Polluted | UnknownDirty

fun pollution_debug :: "invocation_pollution \<Rightarrow> string" where
  "pollution_debug Clean = ''Clean''"
| "pollution_debug LocalDirty = ''LocalDirty''"
| "pollution_debug Polluted = ''Polluted''"
| "pollution_debug UnknownDirty = ''UnknownDirty''"

record running_invocation_disposition =
  rid_task_id :: string
  rid_invocation_id :: string
  rid_runner_id :: string
  rid_plugin_id :: string
  rid_plugin_generation :: u64
  pollution :: invocation_pollution

definition classify_pollution ::
  "'v task \<Rightarrow> 'v runner_descriptor \<Rightarrow> (string, protocol_class) fmap \<Rightarrow> invocation_pollution" where
  "classify_pollution t d classes =
     (case fmlookup classes (protocol_id t) of
        Some Effect \<Rightarrow> Polluted
      | Some Core \<Rightarrow> Polluted
      | Some ControlClass \<Rightarrow> Polluted
      | None \<Rightarrow> UnknownDirty
      | Some Domain \<Rightarrow>
          if purity d \<noteq> Pure then UnknownDirty
          else if input_refs t \<noteq> [] \<or> expected_versions t \<noteq> [] then LocalDirty
          else Clean)"

definition classify_record ::
  "('r, 'h, 'v) core_runtime \<Rightarrow> 'v task_record \<Rightarrow> running_invocation_disposition option" where
  "classify_record rt record =
     (case claimed_by record of
        None \<Rightarrow> None
      | Some rid \<Rightarrow>
          let t = rec_task record;
              invocation = (case lease record of Some l \<Rightarrow> lease_id l | None \<Rightarrow> task_id t)
          in Some (case fmlookup (descriptors (rt_registry rt)) rid of
               Some d \<Rightarrow>
                 \<lparr>rid_task_id = task_id t, rid_invocation_id = invocation, rid_runner_id = rid,
                  rid_plugin_id = plugin_id d, rid_plugin_generation = plugin_generation d,
                  pollution = classify_pollution t d (rt_classes rt)\<rparr>
             | None \<Rightarrow>
                 \<lparr>rid_task_id = task_id t, rid_invocation_id = invocation, rid_runner_id = rid,
                  rid_plugin_id = ''unknown'', rid_plugin_generation = registry_generation t,
                  pollution = UnknownDirty\<rparr>))"

definition classify_running_invocations ::
  "('r, 'h, 'v) core_runtime \<Rightarrow> running_invocation_disposition list" where
  "classify_running_invocations rt = List.map_filter (classify_record rt) (running_records (rt_tasks rt))"

definition invocation_attrs :: "string \<Rightarrow> string \<Rightarrow> nat \<Rightarrow> (string, scalar_value) fmap" where
  "invocation_attrs rid invocation returned =
     fmap_of_list [(''runner_id'', SString rid), (''invocation_id'', SString invocation),
       (''returned_to_ready'', SInt (usize_as_i64 returned))]"

definition cancel_attrs :: "running_invocation_disposition \<Rightarrow> string \<Rightarrow> (string, scalar_value) fmap" where
  "cancel_attrs disp policy =
     fmap_of_list [(''runner_id'', SString (rid_runner_id disp)), (''invocation_id'', SString (rid_invocation_id disp)),
       (''plugin_id'', SString (rid_plugin_id disp)),
       (''plugin_generation'', SInt (u64_as_i64 (rid_plugin_generation disp))),
       (''pollution'', SString (pollution_debug (pollution disp))), (''policy'', SString policy)]"

definition return_invocation ::
  "('r, 'h, 'v) externals \<Rightarrow> string \<Rightarrow> string \<Rightarrow> ('r, 'h, 'v) core_runtime \<Rightarrow>
    (nat runtime_result \<times> ('r, 'h, 'v) core_runtime) option" where
  "return_invocation x rid invocation rt =
     and_then (Some (in_registry rt (cancel_runner (x_cancel x) (rt_registry rt) rid invocation))) (\<lambda>_ rt.
       map_option (\<lambda>(n, rt). (Inr n, rt))
         (in_pool rt (cancel_running_invocation (rt_tasks rt) rid invocation (current_step rt))))"

definition cancel_invocation ::
  "('r, 'h, 'v) externals \<Rightarrow> string \<Rightarrow> string \<Rightarrow> ('r, 'h, 'v) core_runtime \<Rightarrow>
    (nat runtime_result \<times> ('r, 'h, 'v) core_runtime) option" where
  "cancel_invocation x rid invocation rt =
     and_then (return_invocation x rid invocation rt) (\<lambda>n rt.
       Some (Inr n, emit KRunner ''runner.cancel'' (Some rid) (invocation_attrs rid invocation n) None rt))"

section \<open>Reload\<close>

definition needs_drain :: "running_invocation_disposition \<Rightarrow> bool" where
  "needs_drain disp \<longleftrightarrow> pollution disp = Polluted \<or> pollution disp = UnknownDirty"

fun settle_invocations ::
  "('r, 'h, 'v) externals \<Rightarrow> running_invocation_disposition list \<Rightarrow> ('r, 'h, 'v) core_runtime \<Rightarrow>
    (unit runtime_result \<times> ('r, 'h, 'v) core_runtime) option" where
  "settle_invocations x [] rt = Some (Inr (), rt)"
| "settle_invocations x (disp # disps) rt =
     (if needs_drain disp
      then settle_invocations x disps
             (emit KReload ''plugin.reload.drain_invocation'' (Some (rid_task_id disp))
               (cancel_attrs disp ''reload.drain'') None rt)
      else and_then (return_invocation x (rid_runner_id disp) (rid_invocation_id disp) rt) (\<lambda>_ rt.
             settle_invocations x disps
               (emit KRunner ''runner.cancel'' (Some (rid_runner_id disp))
                 (cancel_attrs disp ''reload.cancel_requeue'') None rt)))"

definition reload_decide ::
  "'v runtime_load_plan \<Rightarrow> ('r, 'h, 'v) core_runtime \<Rightarrow> reload_decision runtime_result" where
  "reload_decide plan rt =
     (case compare_surfaces (rt_surfaces rt) (plan_surfaces plan) (rt_surface_occupancy rt) of
        Inl e \<Rightarrow> Inl e
      | Inr decision \<Rightarrow>
          if blocked decision then Inl (runtime_failure ERR_RELOAD_BLOCKED ''runtime.reload'' ''reload.breaking'')
          else Inr decision)"

definition reload_load_plan_only ::
  "'v runtime_load_plan \<Rightarrow> ('r, 'h, 'v) core_runtime \<Rightarrow> reload_decision runtime_result \<times> ('r, 'h, 'v) core_runtime" where
  "reload_load_plan_only plan rt =
     (case reload_decide plan rt of
        Inl e \<Rightarrow> (Inl e, rt)
      | Inr decision \<Rightarrow>
          (Inr decision, apply_load_plan plan
             (emit KReload ''plugin.reload'' (Some (show_u64 (plan_registry_generation plan))) fmempty None rt)))"

text \<open>From \<open>mem::take\<close> of the registry on: the old one drains or is disposed, the new one takes over.\<close>

definition swap_registry ::
  "('r, 'h, 'v) externals \<Rightarrow> 'v runtime_load_plan \<Rightarrow> ('r, 'h, 'v) runner_registry \<Rightarrow> u64 \<Rightarrow> string list \<Rightarrow> bool \<Rightarrow>
    ('r, 'h, 'v) core_runtime \<Rightarrow> (unit runtime_result \<times> ('r, 'h, 'v) core_runtime) option" where
  "swap_registry x plan new_registry old_generation old_ids drain rt =
     (let old_registry = rt_registry rt; rt = rt\<lparr>rt_registry := runner_registry_default\<rparr> in
      and_then
        (if drain
         then Some (Inr (), rt\<lparr>draining_generations := draining_generations rt @
                [\<lparr>dg_registry_generation = old_generation, dg_runner_ids = old_ids, dg_registry = old_registry\<rparr>]\<rparr>)
         else (case x_dispose_all x old_registry of
                 (Inl e, _) \<Rightarrow> Some (Inl e, rt)
               | (Inr _, _) \<Rightarrow> Some (Inr (), mark_generation_phase old_generation Disposed rt)))
        (\<lambda>_ rt.
          let rt = emit KReload ''plugin.reload.swap_generation'' (Some (show_u64 (plan_registry_generation plan)))
                fmempty None rt;
              rt = set_active_generation_states ((apply_load_plan plan rt)\<lparr>rt_registry := new_registry\<rparr>)
          in (case settle_draining_generations x rt of
                (Inl e, rt) \<Rightarrow> Some (Inl e, rt) | (Inr _, rt) \<Rightarrow> Some (Inr (), rt))))"

definition reload_with_async_handlers ::
  "('r, 'h, 'v) externals \<Rightarrow> 'v runtime_load_plan \<Rightarrow> 'r list \<Rightarrow> 'h list \<Rightarrow> ('r, 'h, 'v) core_runtime \<Rightarrow>
    (reload_decision runtime_result \<times> ('r, 'h, 'v) core_runtime) option" where
  "reload_with_async_handlers x plan rs hs rt =
     (case validate_runtime_descriptors plan (runner_descriptors x rs hs) of
        Inl e \<Rightarrow> Some (Inl e, rt)
      | Inr _ \<Rightarrow>
          (case reload_decide plan rt of
             Inl e \<Rightarrow> Some (Inl e, rt)
           | Inr decision \<Rightarrow>
               (case build_registry x rs hs of
                  Inl e \<Rightarrow> Some (Inl e, rt)
                | Inr new_registry \<Rightarrow>
                    let rt = rt\<lparr>generation_states := add_generation_states
                          (generation_states_for_plan plan ShadowStarting) (generation_states rt)\<rparr>;
                        disps = classify_running_invocations rt;
                        old_ids = runner_ids (rt_registry rt);
                        old_generation = plan_registry_generation (load_plan rt)
                    in and_then (settle_invocations x disps rt) (\<lambda>_ rt.
                         and_then (swap_registry x plan new_registry old_generation old_ids
                             (list_ex needs_drain disps) rt) (\<lambda>_ rt. Some (Inr decision, rt))))))"

definition reload_with_runners ::
  "('r, 'h, 'v) externals \<Rightarrow> 'v runtime_load_plan \<Rightarrow> 'r list \<Rightarrow> ('r, 'h, 'v) core_runtime \<Rightarrow>
    (reload_decision runtime_result \<times> ('r, 'h, 'v) core_runtime) option" where
  "reload_with_runners x plan rs rt = reload_with_async_handlers x plan rs [] rt"

section \<open>Resources\<close>

definition in_resources ::
  "('r, 'h, 'v) core_runtime \<Rightarrow> 'a \<times> 'v resource_manager \<Rightarrow> 'a \<times> ('r, 'h, 'v) core_runtime" where
  "in_resources rt m = (case m of (a, r) \<Rightarrow> (a, rt\<lparr>rt_resources := r\<rparr>))"

definition guarded ::
  "unit runtime_result \<Rightarrow> ('r, 'h, 'v) core_runtime \<Rightarrow> 'a runtime_result \<times> ('r, 'h, 'v) core_runtime \<Rightarrow>
    'a runtime_result \<times> ('r, 'h, 'v) core_runtime" where
  "guarded guard rt m = (case guard of Inl e \<Rightarrow> (Inl e, rt) | Inr _ \<Rightarrow> m)"

definition open_stream ::
  "string \<Rightarrow> string \<Rightarrow> string \<Rightarrow> string \<Rightarrow> ('r, 'h, 'v) core_runtime \<Rightarrow>
    resource_ref runtime_result \<times> ('r, 'h, 'v) core_runtime" where
  "open_stream stream_id sch provider endpoint rt =
     guarded
       (and_check (ensure_surface_not_deprecated rt (''stream:'' @ stream_id) ''runtime.resource_manager'')
         (ensure_resource_surfaces_not_deprecated rt sch (Some provider) ''runtime.resource_manager''))
       rt (in_resources rt (apfst Inr (create_stream_resource (rt_resources rt) stream_id sch provider endpoint)))"

definition close_stream ::
  "string \<Rightarrow> ('r, 'h, 'v) core_runtime \<Rightarrow> unit runtime_result \<times> ('r, 'h, 'v) core_runtime" where
  "close_stream rid rt =
     in_resources rt (apfst (map_sum id (\<lambda>_. ())) (close_stream_resource (rt_resources rt) rid))"

definition ensure_resource_descriptor_not_deprecated ::
  "('r, 'h, 'v) core_runtime \<Rightarrow> resource_ref \<Rightarrow> unit runtime_result" where
  "ensure_resource_descriptor_not_deprecated rt d =
     ensure_resource_surfaces_not_deprecated rt (schema d) (Some (provider_id d)) ''runtime.resource_manager''"

definition rt_register_resource_descriptor ::
  "resource_ref \<Rightarrow> ('r, 'h, 'v) core_runtime \<Rightarrow> resource_ref runtime_result \<times> ('r, 'h, 'v) core_runtime" where
  "rt_register_resource_descriptor d rt =
     guarded (ensure_resource_descriptor_not_deprecated rt d) rt
       (in_resources rt (register_resource_descriptor (rt_resources rt) d))"

definition rt_sync_plan_receipt ::
  "'v plan_receipt \<Rightarrow> ('r, 'h, 'v) core_runtime \<Rightarrow> resource_ref list runtime_result \<times> ('r, 'h, 'v) core_runtime" where
  "rt_sync_plan_receipt receipt rt =
     guarded
       (check_all (ensure_resource_descriptor_not_deprecated rt)
         ((case pr_resource_ref receipt of None \<Rightarrow> [] | Some r \<Rightarrow> [r]) @
          (case pr_snapshot receipt of None \<Rightarrow> [] | Some s \<Rightarrow> [snapshot_ref s]) @
          descriptor_updates receipt))
       rt (in_resources rt (sync_plan_receipt (rt_resources rt) receipt))"

fun sync_plan_receipts ::
  "'v plan_receipt list \<Rightarrow> ('r, 'h, 'v) core_runtime \<Rightarrow> resource_ref list runtime_result \<times> ('r, 'h, 'v) core_runtime" where
  "sync_plan_receipts [] rt = (Inr [], rt)"
| "sync_plan_receipts (r # rs) rt =
     (case rt_sync_plan_receipt r rt of
        (Inl e, rt) \<Rightarrow> (Inl e, rt)
      | (Inr synced, rt) \<Rightarrow>
          (case sync_plan_receipts rs rt of
             (Inl e, rt) \<Rightarrow> (Inl e, rt) | (Inr more_synced, rt) \<Rightarrow> (Inr (synced @ more_synced), rt)))"

definition lock_resource ::
  "string \<Rightarrow> string \<Rightarrow> u64 option \<Rightarrow> ('r, 'h, 'v) core_runtime \<Rightarrow>
    exclusive_write_lease runtime_result \<times> ('r, 'h, 'v) core_runtime" where
  "lock_resource rid owner expires rt = in_resources rt (acquire_write_lease (rt_resources rt) rid owner expires)"

definition rt_release_write_lease ::
  "exclusive_write_lease \<Rightarrow> ('r, 'h, 'v) core_runtime \<Rightarrow> unit runtime_result \<times> ('r, 'h, 'v) core_runtime" where
  "rt_release_write_lease l rt = in_resources rt (release_write_lease_at (rt_resources rt) l (current_step rt))"

definition rt_create_resource_cell ::
  "string \<Rightarrow> string \<Rightarrow> string \<Rightarrow> string \<Rightarrow> string \<Rightarrow> ('r, 'h, 'v) core_runtime \<Rightarrow>
    resource_cell_ref runtime_result \<times> ('r, 'h, 'v) core_runtime" where
  "rt_create_resource_cell cid kind owner sch policy rt =
     guarded (ensure_resource_surfaces_not_deprecated rt sch None ''runtime.resource_manager'') rt
       (in_resources rt (apfst Inr (create_resource_cell (rt_resources rt) cid kind owner sch policy)))"

definition rt_acquire_resource_lease ::
  "string \<Rightarrow> string \<Rightarrow> string \<Rightarrow> string \<Rightarrow> u64 option \<Rightarrow> ('r, 'h, 'v) core_runtime \<Rightarrow>
    resource_lease runtime_result \<times> ('r, 'h, 'v) core_runtime" where
  "rt_acquire_resource_lease cid tid eid mode expires rt =
     in_resources rt (acquire_resource_lease (rt_resources rt) cid tid eid mode expires)"

definition rt_release_resource_lease ::
  "resource_lease \<Rightarrow> ('r, 'h, 'v) core_runtime \<Rightarrow> unit runtime_result \<times> ('r, 'h, 'v) core_runtime" where
  "rt_release_resource_lease l rt = in_resources rt (release_resource_lease_at (rt_resources rt) l (current_step rt))"

definition rt_reclaim_expired_resource_leases ::
  "('r, 'h, 'v) core_runtime \<Rightarrow> resource_lease list \<times> ('r, 'h, 'v) core_runtime" where
  "rt_reclaim_expired_resource_leases rt =
     in_resources rt (reclaim_expired_resource_leases (rt_resources rt) (current_step rt))"

definition rt_register_surface_occupancy ::
  "surface_occupancy_handle \<Rightarrow> ('r, 'h, 'v) core_runtime \<Rightarrow> unit runtime_result \<times> ('r, 'h, 'v) core_runtime" where
  "rt_register_surface_occupancy h rt =
     guarded (ensure_surface_not_deprecated rt (handle_surface_id h) ''runtime.resource_manager'') rt
       (in_resources rt (register_surface_occupancy (rt_resources rt) h))"

definition rt_release_surface_occupancy ::
  "string \<Rightarrow> ('r, 'h, 'v) core_runtime \<Rightarrow> surface_occupancy_handle runtime_result \<times> ('r, 'h, 'v) core_runtime" where
  "rt_release_surface_occupancy hid rt = in_resources rt (release_surface_occupancy (rt_resources rt) hid)"

end
