(* ===== verification/Runtime_Invariant.thy ===== *)
theory Runtime_Invariant
  imports Pool_Properties Resource_Properties Registry_Properties Runtime_Reload
begin

text \<open>
  What every method of the core runtime keeps. \<open>core_ok\<close> says that the parts of a runtime are
  reachable by their own calls, and \<open>runs\<close> that a step returns (no lookup that the code unwraps
  fails) and leaves such a runtime. The rules for \<open>and_then\<close> and for one pool call carry the proofs.
\<close>

section \<open>Steps that return\<close>

definition core_ok ::
  "('v \<Rightarrow> string + string) \<Rightarrow> ('r, 'h, 'v) externals \<Rightarrow> ('r, 'h, 'v) core_runtime \<Rightarrow> bool" where
  "core_ok tv x rt \<longleftrightarrow>
     pool_reach (x_to_writer x) (rt_tasks rt) \<and> manager_reach tv (rt_resources rt) \<and>
     (\<forall>d \<in> set (descriptor_snapshot (rt_registry rt)). distinct (accepted_protocol_ids d))"

definition runs ::
  "('v \<Rightarrow> string + string) \<Rightarrow> ('r, 'h, 'v) externals \<Rightarrow> ('a \<times> ('r, 'h, 'v) core_runtime) option \<Rightarrow> bool" where
  "runs tv x m \<longleftrightarrow> (\<exists>res rt. m = Some (res, rt) \<and> core_ok tv x rt)"

named_theorems runs_intros

lemma runs_Some [simp]: "runs tv x (Some (res, rt)) = core_ok tv x rt"
  by (simp add: runs_def)

lemma runs_SomeI [runs_intros]: "core_ok tv x rt \<Longrightarrow> runs tv x (Some (res, rt))"
  by simp

lemma runs_and_then [runs_intros]:
  assumes "runs tv x m" and "\<And>a rt. core_ok tv x rt \<Longrightarrow> runs tv x (k a rt)"
  shows "runs tv x (and_then m k)"
  using assms by (auto simp: runs_def and_then_def split: sum.splits)

lemma core_ok_frame [simp]:
  "core_ok tv x (emit kind name subject attrs err rt) = core_ok tv x rt"
  "core_ok tv x (rt\<lparr>rt_states := st\<rparr>) = core_ok tv x rt"
  "core_ok tv x (rt\<lparr>stop_state := ss\<rparr>) = core_ok tv x rt"
  "core_ok tv x (rt\<lparr>current_step := step\<rparr>) = core_ok tv x rt"
  "core_ok tv x (rt\<lparr>rt_traces := traces\<rparr>) = core_ok tv x rt"
  "core_ok tv x (rt\<lparr>scheduler_decisions := n\<rparr>) = core_ok tv x rt"
  "core_ok tv x (rt\<lparr>generation_states := gs\<rparr>) = core_ok tv x rt"
  "core_ok tv x (rt\<lparr>draining_generations := dgs\<rparr>) = core_ok tv x rt"
  "core_ok tv x (record_task_terminal_event tid name err rt) = core_ok tv x rt"
  by (simp_all add: core_ok_def emit_def record_task_terminal_event_def)

lemma core_ok_fold_emit [simp]:
  "core_ok tv x (fold (\<lambda>a. emit (k a) (n a) (s a) (at a) (e a)) as rt) = core_ok tv x rt"
  by (induction as arbitrary: rt) simp_all

lemma core_ok_fold_terminal [simp]:
  "core_ok tv x (fold (\<lambda>a. record_task_terminal_event (t a) (n a) (e a)) as rt) = core_ok tv x rt"
  by (induction as arbitrary: rt) simp_all

lemma core_ok_tasks:
  "core_ok tv x rt \<Longrightarrow> pool_reach (x_to_writer x) p \<Longrightarrow> core_ok tv x (rt\<lparr>rt_tasks := p\<rparr>)"
  by (simp add: core_ok_def)

lemma core_ok_registry:
  "core_ok tv x rt \<Longrightarrow> descriptor_snapshot reg = descriptor_snapshot (rt_registry rt) \<Longrightarrow>
     core_ok tv x (rt\<lparr>rt_registry := reg\<rparr>)"
  by (simp add: core_ok_def)

lemma core_ok_resources:
  "core_ok tv x rt \<Longrightarrow> manager_reach tv m \<Longrightarrow> core_ok tv x (rt\<lparr>rt_resources := m\<rparr>)"
  by (simp add: core_ok_def)

lemma core_ok_reach: "core_ok tv x rt \<Longrightarrow> pool_reach (x_to_writer x) (rt_tasks rt)"
  by (simp add: core_ok_def)

lemma core_ok_inv: "core_ok tv x rt \<Longrightarrow> pool_inv (rt_tasks rt)"
  using core_ok_reach reach_inv by blast

text \<open>One call of the pool returns, and its pool is reachable again.\<close>

lemma pool_step:
  assumes ok: "core_ok tv x rt" and c: "admissible c (rt_tasks rt)"
    and m: "map_option snd m = run_call (x_to_writer x) c (rt_tasks rt)"
  obtains a p where "m = Some (a, p)" and "pool_reach (x_to_writer x) p"
proof -
  obtain q where q: "run_call (x_to_writer x) c (rt_tasks rt) = Some q"
    using run_call_the [OF core_ok_reach [OF ok] c] by blast
  then have "pool_reach (x_to_writer x) q"
    using core_ok_reach [OF ok] c by (auto intro: reach_call)
  with q m that show ?thesis by (cases m) auto
qed

lemma runs_pool:
  assumes "core_ok tv x rt" and "admissible c (rt_tasks rt)"
    and "map_option snd m = run_call (x_to_writer x) c (rt_tasks rt)"
  shows "runs tv x (in_pool rt m)"
proof -
  obtain a p where "m = Some (a, p)" "pool_reach (x_to_writer x) p"
    using pool_step [OF assms] .
  then show ?thesis
    using core_ok_tasks [OF assms(1)] by (simp add: in_pool_def)
qed

lemma runs_pool_calls [runs_intros]:
  assumes ok: "core_ok tv x rt"
  shows "runs tv x (in_pool rt (Some (enqueue_at (x_to_writer x) (rt_tasks rt) t s)))"
    "runs tv x (in_pool rt (complete_with_output (rt_tasks rt) l s out))"
    "runs tv x (in_pool rt (complete (rt_tasks rt) l s))"
    "runs tv x (in_pool rt (fail (rt_tasks rt) l s f))"
    "runs tv x (in_pool rt (cancel_task (rt_tasks rt) l s))"
    "runs tv x (in_pool rt (Some (wait (rt_tasks rt) l s at)))"
    "runs tv x (in_pool rt (Some (block (rt_tasks rt) l s)))"
    "runs tv x (in_pool rt (Some (defer_leased (rt_tasks rt) l s)))"
    "runs tv x (in_pool rt (Some (wait_on_task (rt_tasks rt) l s w)))"
    "runs tv x (in_pool rt (Some (wake (rt_tasks rt) tid s)))"
    "runs tv x (in_pool rt (reject_ready (rt_tasks rt) tid f))"
    "runs tv x (in_pool rt (cancel_by_core (rt_tasks rt) tid s))"
    "runs tv x (in_pool rt (expire_by_core (rt_tasks rt) tid f s))"
    "runs tv x (in_pool rt (dead_letter_by_core (rt_tasks rt) tid f s))"
    "runs tv x (in_pool rt (cancel_running_invocation (rt_tasks rt) rid iid s))"
    "runs tv x (in_pool rt (abort_all (rt_tasks rt) s f))"
    "runs tv x (in_pool rt (take_waits_for_child (rt_tasks rt) tid))"
    "runs tv x (in_pool rt (wake_due_tasks (rt_tasks rt) s))"
    "runs tv x (in_pool rt (reclaim_expired_task_leases (rt_tasks rt) s))"
  by (simp_all add: complete_def
      runs_pool [OF ok, where c = "Enqueue t s"]
      runs_pool [OF ok, where c = "CompleteLeased l s out"]
      runs_pool [OF ok, where c = "CompleteLeased l s None"]
      runs_pool [OF ok, where c = "FailLeased l s f"]
      runs_pool [OF ok, where c = "CancelLeased l s"]
      runs_pool [OF ok, where c = "WaitLeased l s at"]
      runs_pool [OF ok, where c = "BlockLeased l s"]
      runs_pool [OF ok, where c = "DeferLeased l s"]
      runs_pool [OF ok, where c = "WaitOnTask l s w"]
      runs_pool [OF ok, where c = "Wake tid s"]
      runs_pool [OF ok, where c = "RejectReady tid f"]
      runs_pool [OF ok, where c = "CancelByCore tid s"]
      runs_pool [OF ok, where c = "ExpireByCore tid f s"]
      runs_pool [OF ok, where c = "DeadLetterByCore tid f s"]
      runs_pool [OF ok, where c = "CancelInvocation rid iid s"]
      runs_pool [OF ok, where c = "AbortAll s f"]
      runs_pool [OF ok, where c = "TakeWaits tid"]
      runs_pool [OF ok, where c = "WakeDue s"]
      runs_pool [OF ok, where c = "ReclaimExpired s"])

lemma runsE:
  assumes "runs tv x m" obtains res rt where "m = Some (res, rt)" and "core_ok tv x rt"
  using assms by (auto simp: runs_def)

section \<open>Tasks\<close>

lemma wake_waits_ok: "core_ok tv x rt \<Longrightarrow> core_ok tv x (snd (wake_waits child ws n rt))"
proof (induction ws arbitrary: n rt)
  case (Cons w ws)
  obtain res p where p: "wake (rt_tasks rt) (parent_task_id w) (current_step rt) = (res, p)"
    by (cases "wake (rt_tasks rt) (parent_task_id w) (current_step rt)")
  have "core_ok tv x (rt\<lparr>rt_tasks := p\<rparr>)"
    using runs_pool_calls(10) [OF Cons.prems, of "parent_task_id w" "current_step rt"] p by (simp add: in_pool_def)
  with Cons p show ?case by (simp split: sum.splits)
qed simp

lemma runs_wake_on [runs_intros]:
  assumes ok: "core_ok tv x rt"
  shows "runs tv x (wake_tasks_waiting_on child rt)"
proof -
  obtain ws p where p: "take_waits_for_child (rt_tasks rt) child = Some (ws, p)" "core_ok tv x (rt\<lparr>rt_tasks := p\<rparr>)"
    using runs_pool_calls(17) [OF ok, of child] by (auto simp: runs_def in_pool_def)
  show ?thesis
    using wake_waits_ok [OF p(2), of child ws 0] by (simp add: wake_tasks_waiting_on_def p(1) runs_def)
      (metis prod.collapse)
qed

lemma runs_settle [runs_intros]: "core_ok tv x rt \<Longrightarrow> runs tv x (settle tid name err rt)"
  unfolding settle_def by (intro runs_intros) simp_all

lemma runs_snd: "runs tv x m \<Longrightarrow> \<exists>rt. map_option snd m = Some rt \<and> core_ok tv x rt"
  by (auto simp: runs_def)

lemma runs_case_reject:
  assumes "core_ok tv x rt" and "\<And>sid. \<exists>rt'. f sid = Some rt' \<and> core_ok tv x rt'"
    and "\<And>rt. core_ok tv x rt \<Longrightarrow> runs tv x (k rt)"
  shows "runs tv x (case (case found of None \<Rightarrow> Some rt | Some sid \<Rightarrow> f sid) of None \<Rightarrow> None | Some rt \<Rightarrow> k rt)"
proof (cases found)
  case (Some sid)
  then show ?thesis using assms(2) [of sid] assms(3) by auto
qed (use assms in simp)

lemma runs_enqueue_task [runs_intros]:
  assumes ok: "core_ok tv x rt"
  shows "runs tv x (enqueue_task x t rt)"
proof (cases "ensure_not_aborted rt")
  case (Inr u)
  show ?thesis
    unfolding enqueue_task_def Inr sum.case Let_def
  proof (rule runs_and_then [OF runs_pool_calls(1) [OF ok]], goal_cases)
    case (1 tid rt')
    then show ?case
      by (rule runs_case_reject) (rule runs_snd, rule runs_pool_calls(11) [OF 1], simp)
  qed
qed (simp add: enqueue_task_def ok)

lemma runs_enqueue_all [runs_intros]: "core_ok tv x rt \<Longrightarrow> runs tv x (enqueue_all x ts rt)"
proof (induction ts arbitrary: rt)
  case (Cons t ts)
  then show ?case unfolding enqueue_all.simps by (intro runs_and_then runs_enqueue_task runs_SomeI)
qed simp

lemma runs_submit_batch [runs_intros]: "core_ok tv x rt \<Longrightarrow> runs tv x (submit_batch x b rt)"
  unfolding submit_batch_def
  by (cases "ensure_accepting_external_tasks rt") (auto split: sum.splits intro!: runs_intros)

lemma runs_submit_task [runs_intros]: "core_ok tv x rt \<Longrightarrow> runs tv x (submit_task x t rt)"
  unfolding submit_task_def by (intro runs_intros)

lemma runs_submit_targeted [runs_intros]: "core_ok tv x rt \<Longrightarrow> runs tv x (submit_targeted_task x tid bid pl rt)"
  unfolding submit_targeted_task_def by (auto split: option.splits intro!: runs_intros)

lemma runs_core_transitions [runs_intros]:
  assumes ok: "core_ok tv x rt"
  shows "runs tv x (expire_task tid reason rt)" "runs tv x (dead_letter_task tid reason rt)"
    "runs tv x (wake_task_by_id tid rt)"
  unfolding expire_task_def dead_letter_task_def wake_task_by_id_def Let_def
  by (intro runs_intros ok; simp)+

lemma runs_reject_loop: "core_ok tv x rt \<Longrightarrow> runs tv x (reject_stale_loop es n rt)"
proof (induction es arbitrary: n rt)
  case (Cons e es)
  obtain tid err where e: "e = (tid, err)" by (cases e)
  show ?case
    unfolding e reject_stale_loop.simps
    by (intro runs_and_then runs_pool_calls runs_wake_on Cons) simp_all
qed simp

lemma runs_reject_stale [runs_intros]: "core_ok tv x rt \<Longrightarrow> runs tv x (reject_stale_ready_tasks rt)"
  by (simp add: reject_stale_ready_tasks_def runs_reject_loop)

lemma runs_abort [runs_intros]:
  assumes ok: "core_ok tv x rt"
  shows "runs tv x (abort reason rt)"
proof (cases "stop_state rt = StopAborted")
  case False
  have ok1: "core_ok tv x (rt\<lparr>stop_state := StopAborted\<rparr>)" using ok by simp
  obtain ids p where "abort_all (rt_tasks rt) (current_step rt) (abort_failure reason) = Some (ids, p)"
    "core_ok tv x (rt\<lparr>stop_state := StopAborted, rt_tasks := p\<rparr>)"
    using runs_pool_calls(16) [OF ok1, of "current_step rt" "abort_failure reason"]
    by (auto simp: runs_def in_pool_def)
  with False show ?thesis by (simp add: abort_def Let_def)
qed (simp add: abort_def ok)

section \<open>Cancellation ends\<close>

text \<open>Cancelling makes live tasks terminal and no task live, so the live tasks bound the recursion.\<close>

definition live_set :: "('r, 'h, 'v) core_runtime \<Rightarrow> string set" where
  "live_set rt = live_ids (tab (rt_tasks rt))"

definition runs_within ::
  "('v \<Rightarrow> string + string) \<Rightarrow> ('r, 'h, 'v) externals \<Rightarrow> string set \<Rightarrow>
    ('a \<times> ('r, 'h, 'v) core_runtime) option \<Rightarrow> bool" where
  "runs_within tv x L m \<longleftrightarrow> (\<exists>res rt. m = Some (res, rt) \<and> core_ok tv x rt \<and> live_set rt \<subseteq> L)"

lemma runs_within_Some [simp]: "runs_within tv x L (Some (res, rt)) \<longleftrightarrow> core_ok tv x rt \<and> live_set rt \<subseteq> L"
  by (simp add: runs_within_def)

lemma runs_within_runs: "runs_within tv x L m \<Longrightarrow> runs tv x m"
  by (auto simp: runs_within_def runs_def)

lemma within_and_then:
  assumes "runs_within tv x L m"
    and "\<And>a rt. m = Some (Inr a, rt) \<Longrightarrow> core_ok tv x rt \<Longrightarrow> live_set rt \<subseteq> L \<Longrightarrow> runs_within tv x L (k a rt)"
  shows "runs_within tv x L (and_then m k)"
  using assms by (auto simp: runs_within_def and_then_def split: sum.splits)

lemma live_set_emit [simp]:
  "live_set (emit kind name subject attrs err rt) = live_set rt"
  "live_set (record_task_terminal_event tid name err rt) = live_set rt"
  by (simp_all add: live_set_def emit_def record_task_terminal_event_def)

lemma live_set_dom: "live_set rt \<subseteq> dom (tab (rt_tasks rt))"
  unfolding live_set_def live_ids_def by blast

lemma finite_live_set [simp]: "finite (live_set rt)"
  by (rule finite_subset [OF live_set_dom]) simp

lemma live_set_bound: "card (live_set rt) \<le> length (fm_keys (tasks (rt_tasks rt)))"
proof -
  have "card (live_set rt) \<le> card (dom (tab (rt_tasks rt)))"
    by (rule card_mono [OF _ live_set_dom]) simp
  also have "\<dots> = length (fm_keys (tasks (rt_tasks rt)))"
    using distinct_card [OF distinct_fm_keys, of "tasks (rt_tasks rt)"] by simp
  finally show ?thesis .
qed

lemma wake_live:
  assumes "pool_inv p" shows "live_ids (tab (snd (wake p k s))) \<subseteq> live_ids (tab p)"
proof (cases "\<exists>r. tab p k = Some r \<and> (status r = Waiting \<or> status r = Blocked)")
  case True
  then obtain r where r: "tab p k = Some r" "status r = Waiting \<or> status r = Blocked" by blast
  obtain q where "wake p k s = (Inr (), q)" "tab q = (tab p)(k := Some (make_ready s r))"
    using wake_ok [OF assms r, of s] by (elim exE conjE) (rule that)
  then show ?thesis
    using r by (auto simp: live_ids_def is_terminal_status_def)
next
  case False
  then have "\<exists>e. wake p k s = (Inl e, p)" by (intro wake_reject [OF assms]) auto
  then show ?thesis by auto
qed

lemma wake_waits_live:
  "core_ok tv x rt \<Longrightarrow> live_set (snd (wake_waits child ws n rt)) \<subseteq> live_set rt"
proof (induction ws arbitrary: n rt)
  case (Cons w ws)
  obtain res p where p: "wake (rt_tasks rt) (parent_task_id w) (current_step rt) = (res, p)"
    by (cases "wake (rt_tasks rt) (parent_task_id w) (current_step rt)")
  have ok: "core_ok tv x (rt\<lparr>rt_tasks := p\<rparr>)"
    using runs_pool_calls(10) [OF Cons.prems, of "parent_task_id w" "current_step rt"] p by (simp add: in_pool_def)
  have "live_set (rt\<lparr>rt_tasks := p\<rparr>) \<subseteq> live_set rt"
    using wake_live [OF core_ok_inv [OF Cons.prems], of "parent_task_id w" "current_step rt"] p
    by (simp add: live_set_def)
  then have woken: "live_set (snd (wake_waits child ws n (emit KTask nm sub at err (rt\<lparr>rt_tasks := p\<rparr>)))) \<subseteq> live_set rt"
    "live_set (rt\<lparr>rt_tasks := p\<rparr>) \<subseteq> live_set rt" for n nm sub at err
    using Cons.IH [of "emit KTask nm sub at err (rt\<lparr>rt_tasks := p\<rparr>)" n] ok by simp_all
  show ?case
    using woken Cons.IH [OF Cons.prems] by (cases res) (simp_all add: p)
qed simp

lemma within_wake_on:
  assumes ok: "core_ok tv x rt" and L: "live_set rt \<subseteq> L"
  shows "runs_within tv x L (wake_tasks_waiting_on child rt)"
proof -
  obtain ws q E where q: "take_waits_for_child (rt_tasks rt) child = Some (ws, q)"
    "tab q = tab (rt_tasks rt) |` (- E)"
    using take_waits_for_child_ok [OF core_ok_inv [OF ok], of child] by blast
  have ok1: "core_ok tv x (rt\<lparr>rt_tasks := q\<rparr>)"
    using runs_pool_calls(17) [OF ok, of child] q(1) by (simp add: in_pool_def)
  have "live_set (rt\<lparr>rt_tasks := q\<rparr>) \<subseteq> live_set rt"
    using q(2) by (auto simp: live_set_def live_ids_def restrict_map_def split: if_splits)
  then have "live_set (snd (wake_waits child ws 0 (rt\<lparr>rt_tasks := q\<rparr>))) \<subseteq> L"
    using wake_waits_live [OF ok1, of child ws 0] L by blast
  moreover have "core_ok tv x (snd (wake_waits child ws 0 (rt\<lparr>rt_tasks := q\<rparr>)))"
    by (rule wake_waits_ok [OF ok1])
  ultimately show ?thesis
    by (cases "wake_waits child ws 0 (rt\<lparr>rt_tasks := q\<rparr>)") (simp add: wake_tasks_waiting_on_def q(1))
qed

lemma within_cancel_by_core:
  assumes ok: "core_ok tv x rt"
  shows "runs_within tv x (live_set rt) (in_pool rt (cancel_by_core (rt_tasks rt) tid s))"
    and "in_pool rt (cancel_by_core (rt_tasks rt) tid s) = Some (Inr u, rt') \<Longrightarrow>
      card (live_set rt') < card (live_set rt)"
proof -
  let ?p = "rt_tasks rt"
  note inv = core_ok_inv [OF ok]
  have run: "runs tv x (in_pool rt (cancel_by_core ?p tid s))"
    by (rule runs_pool_calls(12) [OF ok])
  have *: "\<exists>res q. cancel_by_core ?p tid s = Some (res, q) \<and>
      (case res of Inl e \<Rightarrow> q = ?p | Inr _ \<Rightarrow> live_ids (tab q) \<subset> live_ids (tab ?p))"
  proof (cases "\<exists>r. tab ?p tid = Some r \<and> \<not> is_terminal_status (status r)")
    case True
    then obtain r where r: "tab ?p tid = Some r" "\<not> is_terminal_status (status r)" by blast
    obtain q where q: "terminal_by_core ?p tid Cancelled None ''cancel'' s = Some (Inr (), q)"
      "settles ?p tid (mark_terminal_record Cancelled None r) q"
      using terminal_by_core_ok [OF inv r, of Cancelled None "''cancel''" s] by (auto simp: is_terminal_status_def)
    obtain E where "tab q = (tab ?p)(tid := Some (mark_terminal_record Cancelled None r)) |` (- E)"
      using q(2) unfolding settles_def by (elim exE conjE) (rule that)
    then have "tab q k = Some r' \<Longrightarrow> \<not> is_terminal_status (status r') \<Longrightarrow> k \<noteq> tid \<and> tab ?p k = Some r'" for k r'
      by (auto simp: restrict_map_def is_terminal_status_def split: if_splits)
    then have "live_ids (tab q) \<subseteq> live_ids (tab ?p) - {tid}"
      unfolding live_ids_def by blast
    moreover have "tid \<in> live_ids (tab ?p)" using r by (simp add: live_ids_def)
    ultimately show ?thesis using q(1) by (auto simp: cancel_by_core_def)
  next
    case False
    then have "\<exists>e. terminal_by_core ?p tid Cancelled None ''cancel'' s = Some (Inl e, ?p)"
      by (intro terminal_by_core_reject [OF inv]) auto
    then show ?thesis by (auto simp: cancel_by_core_def)
  qed
  then obtain res q where q: "cancel_by_core ?p tid s = Some (res, q)"
    "case res of Inl e \<Rightarrow> q = ?p | Inr _ \<Rightarrow> live_ids (tab q) \<subset> live_ids (tab ?p)" by blast
  show "runs_within tv x (live_set rt) (in_pool rt (cancel_by_core ?p tid s))"
    using q run by (cases res) (simp_all add: in_pool_def live_set_def psubset_imp_subset)
  assume "in_pool rt (cancel_by_core ?p tid s) = Some (Inr u, rt')"
  then have "live_set rt' \<subset> live_set rt"
    using q by (cases res) (auto simp: in_pool_def live_set_def)
  then show "card (live_set rt') < card (live_set rt)"
    by (rule psubset_card_mono [OF finite_live_set])
qed

lemma within_cancel:
  shows "core_ok tv x rt \<Longrightarrow> card (live_set rt) < n \<Longrightarrow> runs_within tv x (live_set rt) (cancel_fuel n tid rt)"
    and "core_ok tv x rt \<Longrightarrow> card (live_set rt) < n \<Longrightarrow> runs_within tv x (live_set rt) (cancel_children n ws rt)"
proof (induction n tid rt and n ws rt rule: cancel_fuel_cancel_children.induct)
  case (2 n tid rt)
  show ?case
  proof (cases "list_ex (\<lambda>w. await_cancel_policy w \<noteq> Cascade) (awaits_for_parent (rt_tasks rt) tid)")
    case False
    show ?thesis
      unfolding cancel_fuel.simps Let_def if_not_P [OF False]
    proof (rule within_and_then [OF within_cancel_by_core(1) [OF "2.prems"(1)]], goal_cases)
      case (1 u rt1)
      let ?rt = "record_task_terminal_event tid ''task.cancelled'' None rt1"
      have "card (live_set ?rt) < n"
        using within_cancel_by_core(2) [OF "2.prems"(1) 1(1)] "2.prems"(2) by simp
      then have "runs_within tv x (live_set rt1) (cancel_children n (awaits_for_parent (rt_tasks rt) tid) ?rt)"
        using "2.IH" [OF refl False] 1(2) by simp
      then have "runs_within tv x (live_set rt) (cancel_children n (awaits_for_parent (rt_tasks rt) tid) ?rt)"
        using 1(3) unfolding runs_within_def by blast
      then show ?case
        by (rule within_and_then) (rule within_and_then, rule within_wake_on, simp_all)
    qed
  qed (simp add: "2.prems")
next
  case (4 n w ws rt)
  show ?case
  proof (cases "is_live_status (rt_task_status rt (await_child_id w))")
    case True
    have "runs_within tv x (live_set rt) (cancel_fuel n (await_child_id w) rt)"
      by (rule "4.IH"(1) [OF True "4.prems"])
    then have "runs_within tv x (live_set rt) (and_then (cancel_fuel n (await_child_id w) rt) (\<lambda>_ rt. cancel_children n ws rt))"
    proof (rule within_and_then, goal_cases)
      case (1 u rt1)
      have "card (live_set rt1) < n"
        using card_mono [OF finite_live_set 1(3)] "4.prems"(2) by simp
      then have "runs_within tv x (live_set rt1) (cancel_children n ws rt1)"
        by (rule "4.IH"(2) [OF True 1(2)])
      then show ?case
        using 1(3) unfolding runs_within_def by blast
    qed
    with True show ?thesis by simp
  next
    case False
    show ?thesis
      unfolding cancel_children.simps if_not_P [OF False] by (rule "4.IH"(3) [OF False "4.prems"])
  qed
qed simp_all

lemma runs_cancel [runs_intros]: "core_ok tv x rt \<Longrightarrow> runs tv x (cancel_task_by_id tid rt)"
  using within_cancel(1) [of tv x rt "Suc (length (fm_keys (tasks (rt_tasks rt))))" tid] live_set_bound [of rt]
  by (simp add: cancel_task_by_id_def less_Suc_eq_le runs_within_runs)

section \<open>Results\<close>

lemma runs_route_outputs [runs_intros]:
  assumes ok: "core_ok tv x rt"
  shows "runs tv x (route_result_outputs x runner res rt)"
  unfolding route_result_outputs_def Let_def
  by (auto simp: ok split: sum.splits intro!: runs_and_then runs_enqueue_all)

lemma runs_progress [runs_intros]: "core_ok tv x rt \<Longrightarrow> runs tv x (progress tid what rt)"
  by (simp add: progress_def)

lemma runs_commit_status [runs_intros]:
  assumes ok: "core_ok tv x rt"
  shows "runs tv x (commit_result_status runner l res rt)"
proof (cases "rr_status res")
  case ResWaiting
  then show ?thesis
    by (cases "rr_await res") (simp_all add: commit_result_status_def runs_and_then runs_pool_calls runs_progress ok)
qed (simp_all add: commit_result_status_def Let_def runs_and_then runs_pool_calls runs_progress runs_settle ok)

lemma runs_route_result [runs_intros]: "core_ok tv x rt \<Longrightarrow> runs tv x (route_result x runner l res rt)"
  unfolding route_result_def by (auto split: sum.split intro!: runs_and_then runs_route_outputs runs_commit_status)

lemma runs_fail_dispatch [runs_intros]:
  assumes ok: "core_ok tv x rt"
  shows "runs tv x (fail_runner_dispatch l err rt)"
proof -
  obtain res rt' where "in_pool rt (fail (rt_tasks rt) l (current_step rt) err) = Some (res, rt')" "core_ok tv x rt'"
    using runs_pool_calls(4) [OF ok] by (rule runsE)
  then show ?thesis by (cases res) (simp_all add: fail_runner_dispatch_def runs_settle)
qed

lemma runs_fail_dispatches [runs_intros]: "core_ok tv x rt \<Longrightarrow> runs tv x (fail_runner_dispatches ls err rt)"
proof (induction ls arbitrary: rt)
  case (Cons l ls)
  then show ?case
    unfolding fail_runner_dispatches.simps by (intro runs_and_then runs_fail_dispatch runs_SomeI)
qed simp

lemma core_ok_stale:
  assumes ok: "core_ok tv x rt"
  shows "core_ok tv x (rt\<lparr>rt_tasks := record_stale_result_rejection (rt_tasks rt)\<rparr>)"
  by (rule core_ok_tasks [OF ok], rule reach_call [OF core_ok_reach [OF ok], where c = RejectStaleResult]) simp_all

lemma runs_route_entry [runs_intros]:
  assumes ok: "core_ok tv x rt"
  shows "runs tv x (route_entry_completion x runner l c rt)"
proof -
  have "runs tv x (case route_result x runner l res rt of None \<Rightarrow> None
      | Some (Inr n, rt) \<Rightarrow> Some (Inr n, rt)
      | Some (Inl e, rt) \<Rightarrow> if is_stale_completion_conflict e
          then Some (Inr 0, record_rejected_runner_result (lease_task_id l) e
                 (rt\<lparr>rt_tasks := record_stale_result_rejection (rt_tasks rt)\<rparr>))
          else Some (Inl e, rt))" for res
    using runs_route_result [OF ok, of runner l res]
    by (rule runsE) (simp add: core_ok_stale record_rejected_runner_result_def split: sum.split)
  then show ?thesis
    by (simp add: route_entry_completion_def runs_fail_dispatch [OF ok] split: option.split)
qed

lemma runs_route_entries: "core_ok tv x rt \<Longrightarrow> runs tv x (route_entries x runner ls m es n rt)"
proof (induction es arbitrary: n rt)
  case (Cons e es)
  obtain entry slot where e: "e = (entry, slot)" by (cases e)
  show ?case
    unfolding e route_entries.simps
    by (cases "fmlookup m (entry_task_id entry)"; cases slot)
      (simp_all add: runs_fail_dispatches runs_and_then runs_fail_dispatch runs_route_entry Cons)
qed simp

lemma runs_route_batch [runs_intros]:
  "core_ok tv x rt \<Longrightarrow> runs tv x (route_completion_batch x runner ls expected batch rt)"
  by (simp add: route_completion_batch_def Let_def runs_fail_dispatches runs_route_entries split: sum.split)

lemma core_ok_put [simp]:
  "core_ok tv x (rt\<lparr>rt_registry := put_runner dr (rt_registry rt) r\<rparr>) = core_ok tv x rt"
  by (simp add: core_ok_def put_runner_def Let_def)

lemma runs_complete_dispatch [runs_intros]:
  assumes ok: "core_ok tv x rt"
  shows "runs tv x (complete_runner_dispatch x c rt)"
proof (cases "Option.bind (completion_runner_id x c)
    (\<lambda>rid. find (\<lambda>d. runner_id d = rid) (descriptor_snapshot (rt_registry rt)))")
  case (Some d)
  show ?thesis
    unfolding complete_runner_dispatch_def Some option.case Let_def
    by (rule runs_and_then, cases "rc_result c")
      (simp_all add: runs_fail_dispatches runs_route_batch ok split: option.split)
qed (simp add: complete_runner_dispatch_def ok)

lemma runs_kernel_task: "core_ok tv x rt \<Longrightarrow> runs tv x (process_kernel_task x l t rt)"
  unfolding process_kernel_task_def kernel_done_def Let_def
  by (auto split: sum.split prod.split intro!: runs_and_then runs_pool_calls runs_settle)

lemma runs_kernel_tasks [runs_intros]: "core_ok tv x rt \<Longrightarrow> runs tv x (process_kernel_tasks x lts n rt)"
proof (induction lts arbitrary: n rt)
  case (Cons lt lts)
  obtain l t where lt: "lt = (l, t)" by (cases lt)
  show ?case
    unfolding lt process_kernel_tasks.simps by (intro runs_and_then runs_kernel_task Cons)
qed simp

section \<open>The runner loop\<close>

lemma core_ok_decision [simp]: "core_ok tv x (record_scheduler_decision d decision rt) = core_ok tv x rt"
  by (simp add: record_scheduler_decision_def Let_def split: prod.splits)

lemma core_ok_span: "core_ok tv x rt \<Longrightarrow> core_ok tv x (snd (record_dispatch_span x d executor lts b rt))"
  by (simp add: record_dispatch_span_def Let_def split: prod.splits)

lemma core_ok_target: "core_ok tv x rt \<Longrightarrow> core_ok tv x (snd (dispatch_target d rt))"
  by (auto simp: dispatch_target_def take_runner_def core_ok_registry split: option.splits prod.splits)

lemma runs_build [runs_intros]:
  assumes ok: "core_ok tv x rt"
  shows "runs tv x (build_runner_dispatch x d executor lts rt)"
proof -
  obtain span rt1 where span: "record_dispatch_span x d executor lts
      (build_work_batch (current_step rt) (dispatch_batch_id (current_step rt) d lts) d lts) rt = (span, rt1)"
    by (metis surj_pair)
  have "core_ok tv x rt1"
    using core_ok_span [OF ok] span by (metis snd_conv)
  then have "runs tv x (Some (dispatch_target d rt1))"
    using core_ok_target [of tv x rt1 d] by (cases "dispatch_target d rt1") simp
  then show ?thesis
    unfolding build_runner_dispatch_def Let_def span prod.case
    by (rule runs_and_then) (simp split: option.split)
qed

lemma runs_builds [runs_intros]: "core_ok tv x rt \<Longrightarrow> runs tv x (build_dispatches x d executor cs rt)"
proof (induction cs arbitrary: rt)
  case (Cons c cs)
  then show ?case
    unfolding build_dispatches.simps by (intro runs_and_then runs_build runs_SomeI)
qed simp

lemma runs_defer_all [runs_intros]: "core_ok tv x rt \<Longrightarrow> runs tv x (defer_all ls rt)"
proof (induction ls arbitrary: rt)
  case (Cons l ls)
  then show ?case unfolding defer_all.simps by (intro runs_and_then runs_pool_calls)
qed simp

lemma split_loop_nonempty: "groups \<noteq> [] \<or> current \<noteq> [] \<or> lts \<noteq> [] \<Longrightarrow> split_loop groups current refs lts \<noteq> []"
  by (induction groups current refs lts rule: split_loop.induct) (auto simp: Let_def)

lemma effective_limit_bound:
  "dispatch_limit (effective_decision d decision) \<noteq> 0 \<Longrightarrow> max_batch_entries (rd_batch d) \<noteq> 0"
  by (auto simp: effective_decision_def Let_def decision_clamp_batches_def decision_clamp_to_def usize_sat_mul_def
      split: if_splits)

lemma runs_dispatch_claimed:
  assumes ok: "core_ok tv x rt" and "leased \<noteq> []" and "max_batch_entries (rd_batch d) \<noteq> 0"
  shows "runs tv x (dispatch_claimed x d decision executor leased rt)"
proof -
  obtain grp others where "split_leased_tasks_by_resource_conflict leased = grp # others"
    using split_loop_nonempty [of "[]" "[]" leased "{||}"] assms(2)
    by (auto simp: split_leased_tasks_by_resource_conflict_def neq_Nil_conv)
  then show ?thesis
    using assms by (simp add: dispatch_claimed_def Let_def runs_and_then runs_defer_all runs_builds)
qed

lemma runs_claim_work:
  assumes ok: "core_ok tv x rt" and d: "distinct (accepted_protocol_ids d)"
  shows "runs tv x (claim_runner_work x d decision expires rt)"
proof (cases "dispatch_limit (effective_decision d decision) = 0")
  case False
  let ?rt = "record_scheduler_decision d (effective_decision d decision) rt"
  have ok1: "core_ok tv x ?rt" using ok by simp
  have "runs tv x (in_pool ?rt (claim_ready_for_executor_with_budget (rt_tasks ?rt) d ex s gen limit budget expires))"
    for ex s gen limit budget
    using d by (intro runs_pool [OF ok1, where c = "Claim d ex s gen limit budget expires"]) simp_all
  from this [of "''executor:'' @ runner_id d" "current_step ?rt" "plan_registry_generation (load_plan ?rt)"
      "dispatch_limit (effective_decision d decision)" "Some (decision_budget (effective_decision d decision))"]
  obtain leased rt2 where claim: "in_pool ?rt (claim_ready_for_executor_with_budget (rt_tasks ?rt) d
      (''executor:'' @ runner_id d) (current_step ?rt) (plan_registry_generation (load_plan ?rt))
      (dispatch_limit (effective_decision d decision)) (Some (decision_budget (effective_decision d decision)))
      expires) = Some (leased, rt2)" "core_ok tv x rt2"
    by (rule runsE)
  show ?thesis
    unfolding claim_runner_work_def Let_def if_not_P [OF False] claim(1) option.case prod.case
    by (simp add: claim(2) runs_and_then runs_kernel_tasks runs_dispatch_claimed effective_limit_bound [OF False])
qed (simp add: claim_runner_work_def ok)

lemma runs_complete_all [runs_intros]: "core_ok tv x rt \<Longrightarrow> runs tv x (complete_all x dsps rt)"
proof (induction dsps arbitrary: rt)
  case (Cons dsp dsps)
  then show ?case
    unfolding complete_all.simps by (intro runs_and_then runs_complete_dispatch runs_SomeI)
qed simp

lemma runs_advance_clock [runs_intros]:
  assumes ok: "core_ok tv x rt"
  shows "runs tv x (advance_clock step rt)"
proof -
  let ?rt = "rt\<lparr>current_step := step\<rparr>"
  have ok1: "core_ok tv x ?rt" using ok by simp
  obtain ls rt1 where 1: "in_pool ?rt (reclaim_expired_task_leases (rt_tasks ?rt) (current_step ?rt)) = Some (ls, rt1)"
    "core_ok tv x rt1"
    using runs_pool_calls(19) [OF ok1, of "current_step ?rt"] by (rule runsE)
  then obtain rt2 where 2: "rt_reclaim_expired_task_leases ?rt = Some rt2" "core_ok tv x rt2"
    by (auto simp: rt_reclaim_expired_task_leases_def in_pool_def split: option.splits prod.splits)
  obtain due rt3 where 3: "in_pool rt2 (wake_due_tasks (rt_tasks rt2) (current_step rt2)) = Some (due, rt3)"
    "core_ok tv x rt3"
    using runs_pool_calls(18) [OF 2(2), of "current_step rt2"] by (rule runsE)
  have fold_due: "core_ok tv x (fold (\<lambda>(tid, at). emit KTask nm (Some tid) (f at) None) ds rt') = core_ok tv x rt'"
    for nm f rt' and ds :: "(string \<times> u64) list"
    by (simp add: split_def)
  obtain n rt4 where 4: "rt_wake_due_tasks rt2 = Some (n, rt4)" "core_ok tv x rt4"
    using 3 by (auto simp: rt_wake_due_tasks_def in_pool_def fold_due)
  show ?thesis
    unfolding advance_clock_def 2(1) 4(1) option.case prod.case by (rule runs_reject_stale [OF 4(2)])
qed

lemma load_ok:
  assumes ok: "core_ok tv x rt"
  shows "core_ok tv x (snd (rt_runner_load d rt))"
proof -
  have "pool_reach (x_to_writer x) (snd (queued_count (rt_tasks rt) d step gen))" for step gen
    by (rule reach_call [OF core_ok_reach [OF ok], where c = "QueuedCount d step gen"]) simp_all
  then show ?thesis
    by (simp add: rt_runner_load_def pool_runner_load_def Let_def core_ok_tasks [OF ok] split: prod.split)
      (metis core_ok_tasks [OF ok] snd_conv)
qed

definition sound_descriptors :: "'v runner_descriptor list \<Rightarrow> bool" where
  "sound_descriptors ds \<longleftrightarrow> (\<forall>d \<in> set ds. distinct (accepted_protocol_ids d))"

lemma runs_tick_loop: "core_ok tv x rt \<Longrightarrow> sound_descriptors ds \<Longrightarrow> runs tv x (tick_loop x ds rep rt)"
proof (induction ds arbitrary: rep rt)
  case (Cons d ds)
  obtain load rt1 where load: "rt_runner_load d rt = (load, rt1)" by (cases "rt_runner_load d rt")
  then have ok1: "core_ok tv x rt1" using load_ok [OF Cons.prems(1), of d] by simp
  have d: "distinct (accepted_protocol_ids d)" "sound_descriptors ds"
    using Cons.prems(2) by (simp_all add: sound_descriptors_def)
  show ?case
    unfolding tick_loop.simps load Let_def prod.case
    by (simp add: Cons.IH [OF Cons.prems(1) d(2)])
      (intro impI runs_and_then [OF runs_claim_work [OF ok1 d(1)]],
        simp add: split_def runs_and_then runs_complete_all Cons.IH d(2))
qed simp

lemma runs_tick [runs_intros]:
  assumes ok: "core_ok tv x rt"
  shows "runs tv x (tick_once x rt)"
proof (cases "ensure_not_aborted rt")
  case (Inr u)
  show ?thesis
    unfolding tick_once_def Inr sum.case
    by (rule runs_and_then [OF runs_advance_clock [OF ok]], rule runs_tick_loop)
      (simp_all add: core_ok_def sound_descriptors_def)
qed (simp add: tick_once_def ok)

lemma runs_claim_pass:
  "core_ok tv x rt \<Longrightarrow> sound_descriptors ds \<Longrightarrow> runs tv x (claim_pass x decide expires ds rep dsps s rt)"
proof (induction ds arbitrary: rep dsps s rt)
  case (Cons d ds)
  obtain load rt1 where load: "rt_runner_load d rt = (load, rt1)" by (cases "rt_runner_load d rt")
  then have ok1: "core_ok tv x rt1" using load_ok [OF Cons.prems(1), of d] by simp
  have d: "distinct (accepted_protocol_ids d)" "sound_descriptors ds"
    using Cons.prems(2) by (simp_all add: sound_descriptors_def)
  obtain res s' where dec: "decide s d load (current_step rt1) (plan_registry_generation (load_plan rt1)) = (res, s')"
    by (metis surj_pair)
  show ?case
  proof (cases "runner_can_dispatch d")
    case True
    show ?thesis
    proof (cases res)
      case (Inr decision)
      have "runs tv x (and_then (claim_runner_work x d decision expires rt1) (\<lambda>(claimed, new) rt.
          claim_pass x decide expires ds (report (claimed_tasks rep + claimed_tasks claimed)
            (completed_tasks rep + completed_tasks claimed)) (dsps @ new) s' rt))"
        by (rule runs_and_then [OF runs_claim_work [OF ok1 d(1)]]) (simp add: split_def Cons.IH d(2))
      with True dec Inr load show ?thesis by simp
    qed (simp add: True load dec ok1)
  qed (simp add: Cons.IH [OF Cons.prems(1) d(2)])
qed simp

lemma runs_claim_dispatches [runs_intros]:
  assumes ok: "core_ok tv x rt"
  shows "runs tv x (claim_ready_dispatches_at_step x target decide s expires rt)"
proof (cases "ensure_not_aborted rt")
  case (Inr u)
  have "runs tv x (and_then (advance_clock target rt) (\<lambda>rejected rt.
      claim_pass x decide expires (descriptor_snapshot (rt_registry rt)) (report 0 rejected) [] s rt))"
    by (rule runs_and_then [OF runs_advance_clock [OF ok]], rule runs_claim_pass)
      (simp_all add: core_ok_def sound_descriptors_def)
  then show ?thesis
    by (simp add: claim_ready_dispatches_at_step_def Inr ok)
qed (simp add: claim_ready_dispatches_at_step_def ok)

lemma runs_defer_dispatch [runs_intros]:
  "core_ok tv x rt \<Longrightarrow> runs tv x (defer_runner_dispatch x dsp rt)"
  by (simp add: defer_runner_dispatch_def runs_and_then runs_defer_all split: sum.split runner_dispatch_target.split)

lemma runs_idle_loop: "core_ok tv x rt \<Longrightarrow> runs tv x (idle_loop x n agg rt)"
proof (induction n arbitrary: agg rt)
  case (Suc n)
  show ?case
    unfolding idle_loop.simps by (rule runs_and_then [OF runs_tick [OF Suc.prems]]) (simp add: Let_def Suc.IH)
qed simp

section \<open>Registries and reloads\<close>

lemma register_all_reach:
  assumes "registry_reach dr dh cancel reg" and "register_all f as reg = Inr reg'"
    and "\<And>a reg. registry_reach dr dh cancel reg \<Longrightarrow> registry_reach dr dh cancel (snd (f a reg))"
  shows "registry_reach dr dh cancel reg'"
  using assms(1,2)
proof (induction as arbitrary: reg)
  case (Cons a as)
  then show ?case
    using assms(3) [of reg a] by (auto split: prod.splits sum.splits)
qed simp

lemma registry_reach_call:
  "registry_reach dr dh cancel reg \<Longrightarrow> may_call dr c reg \<Longrightarrow> reg' = registry_run dr dh cancel c reg \<Longrightarrow>
     registry_reach dr dh cancel reg'"
  by (auto intro: registry_reach.intros)

lemma built_registry_reach:
  assumes "build_registry x rs hs = Inr reg"
  shows "registry_reach (x_describe x) (x_describe_async x) (x_cancel x) reg"
proof -
  let ?reach = "registry_reach (x_describe x) (x_describe_async x) (x_cancel x)"
  obtain r1 r2 where r: "register_all (\<lambda>r reg. register (x_describe x) reg r) rs runner_registry_default = Inr r1"
    "register_all (\<lambda>h reg. register_async_handler (x_describe_async x) reg h) hs r1 = Inr r2" "reg = freeze r2"
    using assms by (auto simp: build_registry_def split: sum.splits)
  have 0: "?reach runner_registry_default" by (rule registry_reach.intros)
  have 1: "?reach r1"
    by (rule register_all_reach [OF 0 r(1)], rule registry_reach_call [where c = "RegRegister a" for a]) simp_all
  have 2: "?reach r2"
    by (rule register_all_reach [OF 1 r(2)], rule registry_reach_call [where c = "RegRegisterAsync a" for a]) simp_all
  show ?thesis
    unfolding r(3) by (rule registry_reach_call [OF 2, where c = RegFreeze]) simp_all
qed

lemma built_registry_sound:
  assumes "build_registry x rs hs = Inr reg"
  shows "sound_descriptors (descriptor_snapshot reg)"
proof -
  have ok: "registry_ok reg"
    by (rule registry_reach_ok [OF built_registry_reach [OF assms]])
  show ?thesis
    using registry_okD(1,2) [OF ok]
    by (auto simp: sound_descriptors_def set_fm_values descriptor_ok_def strict_sorted_iff)
qed

lemma core_ok_new_registry:
  "core_ok tv x rt \<Longrightarrow> sound_descriptors (descriptor_snapshot reg) \<Longrightarrow> core_ok tv x (rt\<lparr>rt_registry := reg\<rparr>)"
  by (simp add: core_ok_def sound_descriptors_def)

lemma core_ok_apply_plan:
  assumes ok: "core_ok tv x rt"
  shows "core_ok tv x (apply_load_plan plan rt)"
proof -
  have "pool_reach (x_to_writer x) (snd (rebind_ready_generation (rt_tasks rt) old new))" for old new
    by (rule reach_call [OF core_ok_reach [OF ok], where c = "RebindReady old new"]) simp_all
  with ok show ?thesis by (simp add: core_ok_def apply_load_plan_def)
qed

lemma core_ok_phase [simp]: "core_ok tv x (mark_generation_phase gen ph rt) = core_ok tv x rt"
  by (simp add: mark_generation_phase_def)

lemma core_ok_phases [simp]:
  "core_ok tv x (fold (\<lambda>gen. mark_generation_phase gen ph) gens rt) = core_ok tv x rt"
  by (induction gens arbitrary: rt) simp_all

lemma core_ok_active [simp]: "core_ok tv x (set_active_generation_states rt) = core_ok tv x rt"
  by (simp add: set_active_generation_states_def Let_def)

lemma core_ok_settle_draining: "core_ok tv x rt \<Longrightarrow> core_ok tv x (snd (settle_draining_generations x rt))"
  by (auto simp: settle_draining_generations_def split: sum.splits)

lemma runs_settle_draining:
  assumes "core_ok tv x rt"
  shows "runs tv x (case settle_draining_generations x rt of
     (Inl e, rt) \<Rightarrow> Some (Inl e, rt) | (Inr _, rt) \<Rightarrow> Some (Inr (), rt))"
proof (cases "settle_draining_generations x rt")
  case (Pair res rt')
  then show ?thesis
    using core_ok_settle_draining [OF assms] by (cases res) simp_all
qed

lemma runs_return_invocation [runs_intros]:
  assumes ok: "core_ok tv x rt"
  shows "runs tv x (return_invocation x rid iid rt)"
proof -
  have "core_ok tv x (snd (in_registry rt (cancel_runner (x_cancel x) (rt_registry rt) rid iid)))"
    by (auto simp: in_registry_def cancel_runner_def Let_def ok intro!: core_ok_registry split: option.splits prod.splits)
  then have "runs tv x (Some (in_registry rt (cancel_runner (x_cancel x) (rt_registry rt) rid iid)))"
    by (metis prod.collapse runs_Some)
  then show ?thesis
    unfolding return_invocation_def
    by (rule runs_and_then) (use runs_pool_calls(15) in \<open>fastforce simp: runs_def\<close>)
qed

lemma runs_cancel_invocation [runs_intros]: "core_ok tv x rt \<Longrightarrow> runs tv x (cancel_invocation x rid iid rt)"
  by (simp add: cancel_invocation_def runs_and_then runs_return_invocation)

lemma runs_settle_invocations [runs_intros]: "core_ok tv x rt \<Longrightarrow> runs tv x (settle_invocations x disps rt)"
proof (induction disps arbitrary: rt)
  case (Cons disp disps)
  then show ?case by (simp add: runs_and_then runs_return_invocation)
qed simp

lemma runs_swap [runs_intros]:
  assumes ok: "core_ok tv x rt" and new: "sound_descriptors (descriptor_snapshot new_registry)"
  shows "runs tv x (swap_registry x plan new_registry old ids drain rt)"
proof -
  have "core_ok tv x (rt\<lparr>rt_registry := runner_registry_default\<rparr>)"
    using ok by (simp add: core_ok_def runner_registry_default_def)
  moreover have "core_ok tv x (set_active_generation_states
      ((apply_load_plan plan rt')\<lparr>rt_registry := new_registry\<rparr>))" if "core_ok tv x rt'" for rt'
    using core_ok_new_registry [OF core_ok_apply_plan [OF that] new] by simp
  ultimately show ?thesis
    unfolding swap_registry_def Let_def
    by (intro runs_and_then runs_settle_draining) (simp_all split: prod.split sum.split)
qed

lemma runs_reload [runs_intros]:
  assumes ok: "core_ok tv x rt"
  shows "runs tv x (reload_with_async_handlers x plan rs hs rt)"
proof (cases "validate_runtime_descriptors plan (runner_descriptors x rs hs)")
  case valid: (Inr u)
  show ?thesis
  proof (cases "reload_decide plan rt")
    case dec: (Inr decision)
    show ?thesis
    proof (cases "build_registry x rs hs")
      case (Inr reg)
      note new = built_registry_sound [OF Inr]
      show ?thesis
        unfolding reload_with_async_handlers_def valid dec Inr sum.case Let_def
        by (rule runs_and_then, rule runs_settle_invocations, simp add: ok, rule runs_and_then, rule runs_swap)
          (simp_all add: new)
    qed (simp add: reload_with_async_handlers_def valid dec ok)
  qed (simp add: reload_with_async_handlers_def valid ok)
qed (simp add: reload_with_async_handlers_def ok)

section \<open>Calls\<close>

text \<open>
  The public methods of the runtime that change it, with their arguments. \<open>'s\<close> is the state of the
  scheduler that a host passes to \<open>claim_ready_dispatches_at_step\<close>; \<open>CManager\<close> is a call through
  \<open>resources_mut\<close>.
\<close>

datatype ('s, 'r, 'h, 'v) core_call =
    CEnqueue "'v task"
  | CSubmitBatch "'v task_batch"
  | CSubmitTask "'v task"
  | CSubmitTargeted string string 'v
  | CCancel task_handle
  | CExpire string string
  | CDeadLetter string string
  | CWake task_handle
  | CBeginDrain
  | CAbort string
  | CConfigureEvents nat
  | CConfigureObservability observability_profile
  | CConfigureRetention "task_history_retention option"
  | CHeartbeat string string
  | CCapability string "string list" nat
  | CCancelRunner string string
  | CTick
  | CRunUntilIdle nat
  | CClaim u64 "'s \<Rightarrow> 'v runner_descriptor \<Rightarrow> runner_load \<Rightarrow> u64 \<Rightarrow> u64 \<Rightarrow> schedule_decision runtime_result \<times> 's"
      's "u64 option"
  | CComplete "('r, 'v) runner_completion"
  | CDefer "('r, 'h, 'v) runner_dispatch"
  | CCancelInvocation string string
  | CReloadPlan "'v runtime_load_plan"
  | CReload "'v runtime_load_plan" "'r list" "'h list"
  | CSettleDraining
  | CDispose
  | COpenStream string string string string
  | CCloseStream string
  | CRegisterResource resource_ref
  | CSyncReceipts "'v plan_receipt list"
  | CLock string string "u64 option"
  | CReleaseWrite exclusive_write_lease
  | CCreateCell string string string string string
  | CAcquireLease string string string string "u64 option"
  | CReleaseLease resource_lease
  | CReclaimLeases
  | CRegisterOccupancy surface_occupancy_handle
  | CReleaseOccupancy string
  | CManager "'v manager_call"

fun core_run ::
  "('v \<Rightarrow> string + string) \<Rightarrow> ('r, 'h, 'v) externals \<Rightarrow> ('s, 'r, 'h, 'v) core_call \<Rightarrow>
    ('r, 'h, 'v) core_runtime \<Rightarrow> ('r, 'h, 'v) core_runtime option" where
  "core_run tv x (CEnqueue t) rt = map_option snd (enqueue_task x t rt)"
| "core_run tv x (CSubmitBatch b) rt = map_option snd (submit_batch x b rt)"
| "core_run tv x (CSubmitTask t) rt = map_option snd (submit_task x t rt)"
| "core_run tv x (CSubmitTargeted tid bid pl) rt = map_option snd (submit_targeted_task x tid bid pl rt)"
| "core_run tv x (CCancel h) rt = map_option snd (cancel_task_handle h rt)"
| "core_run tv x (CExpire tid reason) rt = map_option snd (expire_task tid reason rt)"
| "core_run tv x (CDeadLetter tid reason) rt = map_option snd (dead_letter_task tid reason rt)"
| "core_run tv x (CWake h) rt = map_option snd (wake_task_handle h rt)"
| "core_run tv x CBeginDrain rt = Some (snd (begin_drain rt))"
| "core_run tv x (CAbort reason) rt = map_option snd (abort reason rt)"
| "core_run tv x (CConfigureEvents cap) rt = Some (configure_event_capacity cap rt)"
| "core_run tv x (CConfigureObservability profile) rt = Some (configure_observability profile rt)"
| "core_run tv x (CConfigureRetention ret) rt = configure_task_history_retention ret rt"
| "core_run tv x (CHeartbeat rid ex) rt = Some (snd (rt_runner_heartbeat rid ex rt))"
| "core_run tv x (CCapability rid ps cap) rt = Some (snd (rt_runner_capability rid ps cap rt))"
| "core_run tv x (CCancelRunner rid iid) rt = Some (snd (cancel_runner_invocation x rid iid rt))"
| "core_run tv x CTick rt = map_option snd (tick_once x rt)"
| "core_run tv x (CRunUntilIdle n) rt = map_option snd (run_until_idle x n rt)"
| "core_run tv x (CClaim target decide s expires) rt =
     map_option snd (claim_ready_dispatches_at_step x target decide s expires rt)"
| "core_run tv x (CComplete c) rt = map_option snd (complete_runner_dispatch x c rt)"
| "core_run tv x (CDefer dsp) rt = map_option snd (defer_runner_dispatch x dsp rt)"
| "core_run tv x (CCancelInvocation rid iid) rt = map_option snd (cancel_invocation x rid iid rt)"
| "core_run tv x (CReloadPlan plan) rt = Some (snd (reload_load_plan_only plan rt))"
| "core_run tv x (CReload plan rs hs) rt = map_option snd (reload_with_async_handlers x plan rs hs rt)"
| "core_run tv x CSettleDraining rt = Some (snd (settle_draining_generations x rt))"
| "core_run tv x CDispose rt = Some (snd (dispose_plugins x rt))"
| "core_run tv x (COpenStream i s p e) rt = Some (snd (open_stream i s p e rt))"
| "core_run tv x (CCloseStream rid) rt = Some (snd (close_stream rid rt))"
| "core_run tv x (CRegisterResource d) rt = Some (snd (rt_register_resource_descriptor d rt))"
| "core_run tv x (CSyncReceipts rs) rt = Some (snd (sync_plan_receipts rs rt))"
| "core_run tv x (CLock rid ow ex) rt = Some (snd (lock_resource rid ow ex rt))"
| "core_run tv x (CReleaseWrite l) rt = Some (snd (rt_release_write_lease l rt))"
| "core_run tv x (CCreateCell c k ow s pol) rt = Some (snd (rt_create_resource_cell c k ow s pol rt))"
| "core_run tv x (CAcquireLease c t e mode ex) rt = Some (snd (rt_acquire_resource_lease c t e mode ex rt))"
| "core_run tv x (CReleaseLease l) rt = Some (snd (rt_release_resource_lease l rt))"
| "core_run tv x CReclaimLeases rt = Some (snd (rt_reclaim_expired_resource_leases rt))"
| "core_run tv x (CRegisterOccupancy h) rt = Some (snd (rt_register_surface_occupancy h rt))"
| "core_run tv x (CReleaseOccupancy hid) rt = Some (snd (rt_release_surface_occupancy hid rt))"
| "core_run tv x (CManager c) rt = Some (rt\<lparr>rt_resources := manager_run tv c (rt_resources rt)\<rparr>)"

inductive core_reach ::
  "('v \<Rightarrow> string + string) \<Rightarrow> ('r, 'h, 'v) externals \<Rightarrow> ('r, 'h, 'v) core_runtime \<Rightarrow> bool" for tv x where
  booted: "boot_with_async_handlers x plan rs hs = Inr rt \<Longrightarrow> core_reach tv x rt"
| called: "core_reach tv x rt \<Longrightarrow> core_run tv x (c :: (nat, 'r, 'h, 'v) core_call) rt = Some rt' \<Longrightarrow> core_reach tv x rt'"

lemma core_ok_manager:
  "core_ok tv x rt \<Longrightarrow> m = manager_run tv c (rt_resources rt) \<Longrightarrow> core_ok tv x (rt\<lparr>rt_resources := m\<rparr>)"
  by (simp add: core_ok_def manager_reach.step)

lemma snd_guarded: "core_ok tv x rt \<Longrightarrow> core_ok tv x (snd m) \<Longrightarrow> core_ok tv x (snd (guarded g rt m))"
  by (simp add: guarded_def split: sum.split)

lemma snd_in_resources: "snd (in_resources rt m) = rt\<lparr>rt_resources := snd m\<rparr>"
  by (simp add: in_resources_def split: prod.split)

lemma receipt_ok: "core_ok tv x rt \<Longrightarrow> core_ok tv x (snd (rt_sync_plan_receipt r rt))"
  unfolding rt_sync_plan_receipt_def
  by (rule snd_guarded, assumption, unfold snd_in_resources, rule core_ok_manager [where c = "MSyncReceipt r"]) simp_all

lemma receipts_ok: "core_ok tv x rt \<Longrightarrow> core_ok tv x (snd (sync_plan_receipts rs rt))"
proof (induction rs arbitrary: rt)
  case (Cons r rs)
  obtain res rt1 where r: "rt_sync_plan_receipt r rt = (res, rt1)" by (cases "rt_sync_plan_receipt r rt")
  then have "core_ok tv x rt1" using receipt_ok [OF Cons.prems, of r] by simp
  then show ?case
    using Cons.IH [of rt1] by (auto simp: r split: sum.split prod.split)
qed simp

lemmas resource_call_defs =
  open_stream_def close_stream_def rt_register_resource_descriptor_def lock_resource_def
  rt_release_write_lease_def rt_create_resource_cell_def rt_acquire_resource_lease_def
  rt_release_resource_lease_def rt_reclaim_expired_resource_leases_def rt_register_surface_occupancy_def
  rt_release_surface_occupancy_def release_write_lease_at_def release_resource_lease_at_def

lemma resource_calls_ok:
  assumes ok: "core_ok tv x rt"
  shows "core_ok tv x (snd (open_stream i s p e rt))" "core_ok tv x (snd (close_stream rid rt))"
    "core_ok tv x (snd (rt_register_resource_descriptor d rt))" "core_ok tv x (snd (lock_resource rid ow ex rt))"
    "core_ok tv x (snd (rt_release_write_lease wl rt))" "core_ok tv x (snd (rt_create_resource_cell c k ow s pol rt))"
    "core_ok tv x (snd (rt_acquire_resource_lease c t eid mode ex rt))"
    "core_ok tv x (snd (rt_release_resource_lease rl rt))"
    "core_ok tv x (snd (rt_reclaim_expired_resource_leases rt))"
    "core_ok tv x (snd (rt_register_surface_occupancy h rt))"
    "core_ok tv x (snd (rt_release_surface_occupancy hid rt))"
  by (simp_all add: resource_call_defs snd_in_resources snd_guarded [OF ok]
      core_ok_manager [OF ok, where c = "MCreateStream i s p e"] core_ok_manager [OF ok, where c = "MCloseStream rid"]
      core_ok_manager [OF ok, where c = "MRegister d"] core_ok_manager [OF ok, where c = "MAcquireWrite rid ow ex"]
      core_ok_manager [OF ok, where c = "MReleaseWrite wl (Some (current_step rt))"]
      core_ok_manager [OF ok, where c = "MCreateCell c k ow s pol"]
      core_ok_manager [OF ok, where c = "MAcquireLease c t eid mode ex"]
      core_ok_manager [OF ok, where c = "MReleaseLease rl (Some (current_step rt))"]
      core_ok_manager [OF ok, where c = "MReclaim (current_step rt)"]
      core_ok_manager [OF ok, where c = "MRegisterOccupancy h"]
      core_ok_manager [OF ok, where c = "MReleaseOccupancy hid"])

lemma core_ok_in_registry:
  "core_ok tv x rt \<Longrightarrow> descriptor_snapshot (snd m) = descriptor_snapshot (rt_registry rt) \<Longrightarrow>
     core_ok tv x (snd (in_registry rt m))"
  by (cases m) (simp add: in_registry_def core_ok_registry)

lemma registry_calls_ok:
  assumes ok: "core_ok tv x rt"
  shows "core_ok tv x (snd (rt_runner_heartbeat rid ex rt))" "core_ok tv x (snd (rt_runner_capability rid ps cap rt))"
    "core_ok tv x (snd (cancel_runner_invocation x rid iid rt))" "core_ok tv x (snd (dispose_plugins x rt))"
proof -
  note via = core_ok_in_registry [OF ok]
  show "core_ok tv x (snd (rt_runner_heartbeat rid ex rt))"
    unfolding rt_runner_heartbeat_def by (rule via) (simp add: heartbeat_def Let_def)
  show "core_ok tv x (snd (rt_runner_capability rid ps cap rt))"
    unfolding rt_runner_capability_def by (rule via) (simp add: declare_capability_def Let_def split: option.split)
  show "core_ok tv x (snd (cancel_runner_invocation x rid iid rt))"
    unfolding cancel_runner_invocation_def
    by (rule via) (simp add: cancel_runner_def Let_def split: option.split prod.split)
  have "descriptor_snapshot (snd (x_dispose_all x (rt_registry rt))) = descriptor_snapshot (rt_registry rt)"
    by (simp add: x_dispose_all_def dispose_all_def split: prod.split sum.split)
  then show "core_ok tv x (snd (dispose_plugins x rt))"
    by (cases "x_dispose_all x (rt_registry rt)") (simp add: dispose_plugins_def core_ok_registry [OF ok] split: sum.split)
qed

lemma core_ok_reload_plan: "core_ok tv x rt \<Longrightarrow> core_ok tv x (snd (reload_load_plan_only plan rt))"
  by (simp add: reload_load_plan_only_def core_ok_apply_plan split: sum.split)

lemma configure_ok:
  assumes ok: "core_ok tv x rt"
  shows "core_ok tv x (configure_event_capacity cap rt)" "core_ok tv x (configure_observability profile rt)"
    "core_ok tv x (snd (begin_drain rt))"
    "\<exists>rt'. configure_task_history_retention ret rt = Some rt' \<and> core_ok tv x rt'"
proof -
  show "core_ok tv x (configure_event_capacity cap rt)" "core_ok tv x (configure_observability profile rt)"
    using ok by (simp_all add: core_ok_def configure_event_capacity_def configure_observability_def Let_def)
  show "core_ok tv x (snd (begin_drain rt))"
    using ok by (simp add: begin_drain_def split: runtime_stop_state.split)
  obtain p where p: "configure_history_retention (rt_tasks rt) ret = Some p"
    using run_call_the [OF core_ok_reach [OF ok], of "ConfigureRetention ret"] by auto
  then have "pool_reach (x_to_writer x) p"
    by (intro reach_call [OF core_ok_reach [OF ok], where c = "ConfigureRetention ret"]) simp_all
  with p show "\<exists>rt'. configure_task_history_retention ret rt = Some rt' \<and> core_ok tv x rt'"
    by (simp add: configure_task_history_retention_def core_ok_tasks [OF ok])
qed

lemma core_run_ok:
  assumes ok: "core_ok tv x rt"
  shows "\<exists>rt'. core_run tv x c rt = Some rt' \<and> core_ok tv x rt'"
  using ok
  by (cases c)
    (simp_all add: runs_snd runs_enqueue_task runs_submit_batch runs_submit_task runs_submit_targeted runs_cancel
      cancel_task_handle_def wake_task_handle_def runs_core_transitions runs_abort runs_tick run_until_idle_def
      runs_idle_loop runs_claim_dispatches runs_complete_dispatch runs_defer_dispatch runs_cancel_invocation
      runs_reload configure_ok registry_calls_ok core_ok_reload_plan core_ok_settle_draining
      resource_calls_ok receipts_ok core_ok_manager del: map_option_eq_Some)

lemma core_reach_ok: "core_reach tv x rt \<Longrightarrow> core_ok tv x rt"
proof (induction rule: core_reach.induct)
  case (booted plan rs hs rt)
  then obtain reg where reg: "build_registry x rs hs = Inr reg" "rt_registry rt = reg"
      "rt_tasks rt = task_pool_default" "rt_resources rt = resource_manager_new"
    by (auto simp: boot_with_async_handlers_def split: sum.splits)
  with built_registry_sound [OF reg(1)] show ?case
    by (simp add: core_ok_def sound_descriptors_def reach_new manager_reach.start)
next
  case (called rt c rt')
  then show ?case using core_run_ok [of tv x rt c] by auto
qed

end
