(* ===== verification/Runtime_Properties.thy ===== *)
theory Runtime_Properties
  imports Runtime_Invariant History_Properties
begin

text \<open>
  Properties of the core runtime as a whole: its methods return and keep its parts well formed, a
  completion under leases that are gone is fenced off, and settling a task wakes the tasks that
  await it.
\<close>

section \<open>A sample runtime\<close>

definition sample_manifest :: "nat plugin_manifest" where
  "sample_manifest =
     \<lparr>man_plugin_id = ''p'', man_version = ''1'', api_version = ''1'',
      man_artifact = \<lparr>artifact_kind = ArtNative, artifact_path = '''', artifact_sha256 = ''''\<rparr>,
      provides = plugin_provides_default\<lparr>prov_runners := [Registry_Properties.sample_runner ''r'' [''work'']],
        protocol_classes := fmap_of_list [(''work'', Domain)]\<rparr>,
      man_requires = [], permissions = \<lparr>grant_effects = [], grant_resources = []\<rparr>,
      man_lifecycle = \<lparr>lc_reload_policy = ''drain_and_swap'', unload_timeout_ms = 0, supports_cancel = True,
        supports_dispose = True, supports_snapshot = False\<rparr>,
      man_metadata = fmempty\<rparr>"

definition sample_plan :: "nat runtime_load_plan" where
  "sample_plan =
     \<lparr>lock_version = 1, core_api_version = ''1'', plan_profile_id = ''test'', profile_hash = '''',
      plan_registry_generation = 1, plan_plugins = [sample_manifest], load_order = [''p''],
      runner_bindings = fmap_of_list [(''work'', ''r'')], plan_deployments = fmempty,
      plan_observability = \<lparr>prof_events = \<lparr>capacity = 8, overflow_policy = DropNew\<rparr>,
        prof_traces = \<lparr>capacity = 8, overflow_policy = DropOldest\<rparr>,
        detailed_scheduler_decisions = False, dispatch_spans = False\<rparr>,
      capability_graph = runtime_capability_graph_default, plan_surfaces = []\<rparr>"

text \<open>A runner is its descriptor; it refuses every batch.\<close>

definition sample_externals :: "(nat runner_descriptor, nat runner_descriptor, nat) externals" where
  "sample_externals =
     \<lparr>x_describe = id, x_describe_async = id, x_run_batch = (\<lambda>r ctx b. (Inl (runtime_failure ''none'' '''' ''''), r)),
      x_cancel = (\<lambda>r i. (Inr (), r)), x_dispose = (\<lambda>r. (Inr (), r)), x_manage = (\<lambda>h. Some (Inr ())),
      x_to_writer = sample_writer, x_task_of = (\<lambda>v. None), x_delta_of = (\<lambda>v. Inl ''''),
      x_event_of = (\<lambda>v. Inl ''''), x_of_delta = (\<lambda>d. 0), x_of_event = (\<lambda>e. 0), x_of_effect = (\<lambda>e. 0)\<rparr>"

definition sample_boot :: "(nat runner_descriptor, nat runner_descriptor, nat) core_runtime" where
  "sample_boot = projr (boot_with_async_handlers sample_externals sample_plan
     [Registry_Properties.sample_runner ''r'' [''work'']] [])"

lemma core_reach_the:
  fixes c :: "(nat, 'r, 'h, 'v) core_call"
  assumes "core_reach tv x rt"
  shows "core_reach tv x (the (core_run tv x c rt))"
proof -
  obtain rt' where "core_run tv x c rt = Some rt'"
    using core_run_ok [OF core_reach_ok [OF assms], of c] by blast
  with core_reach.called [OF assms this] show ?thesis by simp
qed

lemma sample_boot_reach: "core_reach sample_encode sample_externals sample_boot"
proof -
  have "\<not> isl (boot_with_async_handlers sample_externals sample_plan
      [Registry_Properties.sample_runner ''r'' [''work'']] [])" by code_simp
  then have "boot_with_async_handlers sample_externals sample_plan
      [Registry_Properties.sample_runner ''r'' [''work'']] [] = Inr sample_boot"
    by (simp add: sample_boot_def)
  then show ?thesis by (rule core_reach.booted)
qed

section \<open>Every method returns\<close>



section \<open>Stale completions\<close>

lemma fail_dispatch_stale:
  assumes ok: "core_ok tv x rt" and stale: "\<not> holds_lease (rt_tasks rt) l (current_step rt)"
  shows "fail_runner_dispatch l err rt = Some (Inr 0, rt)"
  by (simp add: fail_runner_dispatch_def in_pool_def fail_reject [OF core_ok_inv [OF ok] stale])

lemma fail_dispatches_stale:
  assumes ok: "core_ok tv x rt" and stale: "\<forall>l \<in> set ls. \<not> holds_lease (rt_tasks rt) l (current_step rt)"
  shows "fail_runner_dispatches ls err rt = Some (Inr 0, rt)"
  using stale by (induction ls) (simp_all add: fail_dispatch_stale [OF ok] and_then_def)

text \<open>What a fenced completion may leave behind: the count of rejected results and the event log.\<close>

definition fenced :: "('r, 'h, 'v) core_runtime \<Rightarrow> ('r, 'h, 'v) core_runtime \<Rightarrow> bool" where
  "fenced rt rt' \<longleftrightarrow>
     (\<exists>n ev. rt' = rt\<lparr>rt_tasks := (record_stale_result_rejection ^^ n) (rt_tasks rt), rt_events := ev\<rparr>)"

lemma fenced_refl: "fenced rt rt"
proof -
  have "rt = rt\<lparr>rt_tasks := (record_stale_result_rejection ^^ 0) (rt_tasks rt), rt_events := rt_events rt\<rparr>" by simp
  then show ?thesis unfolding fenced_def by blast
qed

lemma fenced_trans:
  assumes "fenced rt rt1" and "fenced rt1 rt2"
  shows "fenced rt rt2"
proof -
  obtain n ev where 1: "rt1 = rt\<lparr>rt_tasks := (record_stale_result_rejection ^^ n) (rt_tasks rt), rt_events := ev\<rparr>"
    using assms(1) unfolding fenced_def by blast
  obtain m ev' where 2: "rt2 = rt1\<lparr>rt_tasks := (record_stale_result_rejection ^^ m) (rt_tasks rt1), rt_events := ev'\<rparr>"
    using assms(2) unfolding fenced_def by blast
  have "rt2 = rt\<lparr>rt_tasks := (record_stale_result_rejection ^^ (m + n)) (rt_tasks rt), rt_events := ev'\<rparr>"
    by (simp add: 1 2 funpow_add)
  then show ?thesis unfolding fenced_def by blast
qed

lemma tasks_stale_rejections [simp]: "tasks ((record_stale_result_rejection ^^ n) p) = tasks p"
  by (induction n) (simp_all add: record_stale_result_rejection_def)

lemma fenced_holds:
  "fenced rt rt' \<Longrightarrow> holds_lease (rt_tasks rt') l (current_step rt') = holds_lease (rt_tasks rt) l (current_step rt)"
  "fenced rt rt' \<Longrightarrow> fmlookup (tasks (rt_tasks rt')) k = fmlookup (tasks (rt_tasks rt)) k"
  by (auto simp: fenced_def holds_lease_def)

lemma fenced_rejected:
  "fenced rt (record_rejected_runner_result tid e (rt\<lparr>rt_tasks := record_stale_result_rejection (rt_tasks rt)\<rparr>))"
proof -
  have *: "fenced rt (rt\<lparr>rt_tasks := record_stale_result_rejection (rt_tasks rt), rt_events := ev\<rparr>)" for ev
    unfolding fenced_def by (intro exI [of _ 1] exI [of _ ev]) simp
  show ?thesis by (simp add: record_rejected_runner_result_def emit_def *)
qed

definition refused :: "task_lease list \<Rightarrow> ('r, 'h, 'v) core_runtime \<Rightarrow> nat runtime_result \<Rightarrow> bool" where
  "refused ls rt res \<longleftrightarrow> res = Inr 0 \<or>
     (\<exists>l \<in> set ls. fmlookup (tasks (rt_tasks rt)) (lease_task_id l) = None \<and> res = Inl (task_not_found (lease_task_id l)))"

lemma lease_conflict_stale: "is_stale_completion_conflict (lease_conflict r l s ''route'')"
  by (auto simp: lease_conflict_def Let_def is_stale_completion_conflict_def runtime_error_new_def
      split: option.splits)

lemma ensure_stale:
  assumes ok: "core_ok tv x rt" and stale: "\<not> holds_lease (rt_tasks rt) l (current_step rt)"
  shows "ensure_active_lease (rt_tasks rt) (lease_task_id l) l (current_step rt) ''route'' =
     Inl (lease_error (rt_tasks rt) l (current_step rt) ''route'')"
proof (cases "tab (rt_tasks rt) (lease_task_id l)")
  case (Some r)
  then have "\<not> (lease r = Some l \<and> \<not> task_lease_expired l (current_step rt))"
    using stale by (auto simp: holds_lease_def)
  then show ?thesis
    using Some validate_record_lease_iff [OF pool_inv_record_ok [OF core_ok_inv [OF ok] Some]]
    by (simp add: ensure_active_lease_def pool_record_def lease_error_def)
qed (simp add: ensure_active_lease_def pool_record_def lease_error_def)

lemma route_entry_stale:
  assumes ok: "core_ok tv x rt" and stale: "\<not> holds_lease (rt_tasks rt) l (current_step rt)"
  shows "\<exists>res rt'. route_entry_completion x runner l c rt = Some (res, rt') \<and> fenced rt rt' \<and> refused [l] rt res"
proof (cases "\<exists>r. ec_error c = None \<and> ec_result c = Some r \<and> rr_task_id r = lease_task_id l \<and> ec_task_id c = lease_task_id l")
  case False
  then have "\<exists>err. route_entry_completion x runner l c rt = fail_runner_dispatch l err rt"
    by (auto simp: route_entry_completion_def split: option.split)
  then show ?thesis
    by (auto simp: fail_dispatch_stale [OF ok stale] fenced_refl refused_def)
next
  case True
  then obtain r where r: "ec_error c = None" "ec_result c = Some r" "rr_task_id r = lease_task_id l" "ec_task_id c = lease_task_id l"
    by blast
  let ?e = "lease_error (rt_tasks rt) l (current_step rt) ''route''"
  have rr: "route_result x runner l r rt = Some (Inl ?e, rt)"
    by (simp add: route_result_def r(3) ensure_stale [OF ok stale] and_check_def)
  show ?thesis
  proof (cases "tab (rt_tasks rt) (lease_task_id l)")
    case None
    then have "?e = task_not_found (lease_task_id l)" by (simp add: lease_error_def)
    moreover have "\<not> is_stale_completion_conflict (task_not_found (lease_task_id l))"
      by (simp add: is_stale_completion_conflict_def task_not_found_def ERR_TASK_NOT_FOUND_def ERR_TASK_CLAIM_CONFLICT_def
          runtime_error_new_def runtime_failure_def)
    ultimately show ?thesis
      by (simp add: route_entry_completion_def r rr fenced_refl refused_def None)
  next
    case (Some rec)
    then have "is_stale_completion_conflict ?e" by (simp add: lease_error_def lease_conflict_stale)
    then show ?thesis
      by (simp add: route_entry_completion_def r rr fenced_rejected refused_def)
  qed
qed

lemma refused_mono: "refused [l] rt res \<Longrightarrow> l \<in> set ls \<Longrightarrow> refused ls rt res"
  by (auto simp: refused_def)

lemma route_entries_stale:
  assumes "core_ok tv x rt" and "\<forall>l \<in> set ls. \<not> holds_lease (rt_tasks rt) l (current_step rt)"
    and m: "\<And>k l. fmlookup m k = Some l \<Longrightarrow> l \<in> set ls"
  shows "\<exists>res rt'. route_entries x runner ls m es 0 rt = Some (res, rt') \<and> fenced rt rt' \<and> refused ls rt res"
  using assms(1,2)
proof (induction es arbitrary: rt)
  case Nil
  then show ?case by (simp add: fenced_refl refused_def)
next
  case (Cons es1 es)
  obtain e slot where es1: "es1 = (e, slot)" by (cases es1)
  show ?case
  proof (cases "fmlookup m (entry_task_id e)")
    case None
    then show ?thesis
      by (simp add: es1 fail_dispatches_stale [OF Cons.prems] fenced_refl refused_def)
  next
    case (Some l)
    define step where "step = (case slot of
        None \<Rightarrow> fail_runner_dispatch l (batch_claim_conflict (''batch.missing.'' @ entry_id e)) rt
      | Some c \<Rightarrow> route_entry_completion x runner l c rt)"
    have stale: "\<not> holds_lease (rt_tasks rt) l (current_step rt)"
      using Cons.prems(2) m [OF Some] by blast
    have "\<exists>res rt1. step = Some (res, rt1) \<and> core_ok tv x rt1 \<and> fenced rt rt1 \<and> refused ls rt res"
    proof (cases slot)
      case None
      then show ?thesis
        by (simp add: step_def fail_dispatch_stale [OF Cons.prems(1) stale] Cons.prems(1) fenced_refl refused_def)
    next
      case slot: (Some c)
      obtain res rt1 where "step = Some (res, rt1)" "fenced rt rt1" "refused [l] rt res"
        using route_entry_stale [OF Cons.prems(1) stale, of runner c] by (auto simp: step_def slot)
      then show ?thesis
        using refused_mono [OF _ m [OF Some]] runs_route_entry [OF Cons.prems(1), of runner l c]
        by (simp add: step_def slot)
    qed
    then obtain res rt1 where rt1: "step = Some (res, rt1)" "core_ok tv x rt1" "fenced rt rt1" "refused ls rt res"
      by blast
    have route: "route_entries x runner ls m (es1 # es) 0 rt =
        and_then step (\<lambda>n rt. route_entries x runner ls m es (0 + n) rt)"
      by (simp add: es1 Some step_def)
    show ?thesis
    proof (cases res)
      case (Inl err)
      then show ?thesis using rt1 by (simp add: route and_then_def)
    next
      case (Inr n)
      then have n: "res = Inr 0" using rt1(4) by (auto simp: refused_def)
      have "\<exists>res' rt'. route_entries x runner ls m es 0 rt1 = Some (res', rt') \<and> fenced rt1 rt' \<and> refused ls rt1 res'"
        using Cons.IH [OF rt1(2)] Cons.prems(2) by (simp add: fenced_holds(1) [OF rt1(3)])
      then show ?thesis
        using fenced_trans [OF rt1(3)] by (auto simp: route rt1(1) n and_then_def refused_def fenced_holds(2) [OF rt1(3)])
    qed
  qed
qed

lemma route_batch_stale:
  assumes ok: "core_ok tv x rt" and stale: "\<forall>l \<in> set ls. \<not> holds_lease (rt_tasks rt) l (current_step rt)"
  shows "\<exists>res rt'. route_completion_batch x runner ls es batch rt = Some (res, rt') \<and> fenced rt rt' \<and> refused ls rt res"
proof -
  have member: "l \<in> set ls" if "fmlookup (collect_by lease_task_id ls) k = Some l" for k l
    using that by (auto simp: latest_def find_Some_iff) (metis length_rev nth_mem set_rev)
  have entries: "\<exists>res rt'. route_entries x runner ls (collect_by lease_task_id ls) slots 0 rt = Some (res, rt') \<and>
      fenced rt rt' \<and> refused ls rt res" for slots
    by (rule route_entries_stale [OF ok stale]) (rule member)
  then show ?thesis
    unfolding route_completion_batch_def Let_def
    by (auto simp: fail_dispatches_stale [OF ok stale] fenced_refl refused_def split: sum.split)
qed

definition completion_step ::
  "('r, 'h, 'v) externals \<Rightarrow> ('r, 'v) runner_completion \<Rightarrow> 'v runner_descriptor \<Rightarrow> ('r, 'h, 'v) core_runtime \<Rightarrow>
    (nat runtime_result \<times> ('r, 'h, 'v) core_runtime) option" where
  "completion_step x c d rt = (case rc_result c of
       Inl e \<Rightarrow> fail_runner_dispatches (rc_task_leases c) e rt
     | Inr batch \<Rightarrow>
         if cb_batch_id batch \<noteq> rc_batch_id c
         then fail_runner_dispatches (rc_task_leases c) (batch_claim_conflict (''batch.result.'' @ cb_batch_id batch)) rt
         else route_completion_batch x d (rc_task_leases c) (rc_expected_entries c) batch rt)"

lemma completion_step_stale:
  assumes ok: "core_ok tv x rt" and stale: "\<forall>l \<in> set (rc_task_leases c). \<not> holds_lease (rt_tasks rt) l (current_step rt)"
  shows "\<exists>res rt'. completion_step x c d rt = Some (res, rt') \<and> fenced rt rt' \<and> refused (rc_task_leases c) rt res"
  unfolding completion_step_def using route_batch_stale [OF ok stale]
  by (simp add: fail_dispatches_stale [OF ok stale] fenced_refl refused_def split: sum.split)


definition sample_submitted :: "(nat runner_descriptor, nat runner_descriptor, nat) core_runtime" where
  "sample_submitted = the (core_run sample_encode sample_externals
     (CSubmitTask (task_new ''a'' ''work'' 1) :: (nat, _, _, _) core_call) sample_boot)"

lemma sample_submitted_reach: "core_reach sample_encode sample_externals sample_submitted"
  unfolding sample_submitted_def by (rule core_reach_the) (rule sample_boot_reach)

definition sample_late :: "(nat runner_descriptor, nat) runner_completion" where
  "sample_late =
     \<lparr>rc_runner = Some (Registry_Properties.sample_runner ''r'' [''work'']),
      rc_task_leases = [Pool_Properties.sample_lease\<lparr>lease_task_id := ''a'', expires_at_step := Some 0\<rparr>], rc_batch_id = ''b'',
      rc_expected_entries = [\<lparr>entry_id = ''e'', entry_task_id = ''a'', entry_trace_id = None, entry_parent_id = None,
        payload_index = 0, resource_requirement_indices = [], cancel_index = None, deadline_tick = None,
        entry_priority = 0, entry_lane = LaneNormal, entry_ordering = OrdNone\<rparr>],
      rc_result = Inr \<lparr>cb_batch_id = ''b'', cb_tick_id = '''', cb_results =
        [\<lparr>ec_entry_id = ''e'', ec_task_id = ''a'', ec_result = Some (runner_result_completed ''a''), ec_error = None\<rparr>], cb_metadata = []\<rparr>\<rparr>"


section \<open>Awaiting parents\<close>

lemma waits_trim [simp]: "waits_by_child (trim_evicted_task_ids c p) = waits_by_child p"
  by (induction c p rule: trim_evicted_task_ids.induct) (subst trim_evicted_task_ids.simps, auto split: list.splits)

lemma waits_evict [simp]: "waits_by_child (evict_terminal ret tid st p) = waits_by_child p"
  by (simp add: evict_terminal_def Let_def remember_evicted_task_id_def remove_record_indexes_def
      update_record_indexes_def split: option.split)

lemma waits_compact_loop: "compact_loop ret n p = Some q \<Longrightarrow> waits_by_child q = waits_by_child p"
proof (induction ret n p rule: compact_loop.induct)
  case (1 ret n p)
  from 1(3) [unfolded compact_loop.simps [of ret n p]] show ?case
    using 1(1,2) by (auto split: if_splits list.splits option.splits)
qed

lemma waits_record_terminal: "record_terminal_task k p = Some q \<Longrightarrow> waits_by_child q = waits_by_child p"
  by (auto simp: record_terminal_task_def compact_terminal_history_def dest: waits_compact_loop split: if_splits option.splits)

lemma waits_settled:
  assumes inv: "pool_inv p" and hold: "holds_lease p l s"
  shows "complete_with_output p l s out = Some (res, q) \<Longrightarrow> waits_by_child q = waits_by_child p"
    and "fail p l s f = Some (res, q) \<Longrightarrow> waits_by_child q = waits_by_child p"
    and "cancel_task p l s = Some (res, q) \<Longrightarrow> waits_by_child q = waits_by_child p"
proof -
  obtain r where r: "tab p (lease_task_id l) = Some r" "status r = Running"
    using holds_leaseE [OF inv hold] by blast
  then have "fmlookup (waits_by_parent p) (lease_task_id l) = None"
    using inv wait_inv_parent_record [of "{}" p "lease_task_id l"] by (fastforce simp: pool_inv_def fmdom'_lookup)
  then have same: "remove_waits_for_parent (lease_task_id l) (record_attempt_finished l s
      (transition_stats a b (put_rec p (lease_task_id l) r r'))) =
    record_attempt_finished l s (transition_stats a b (put_rec p (lease_task_id l) r r'))" for a b r'
    by (intro remove_waits_None) simp
  note accept = with_lease_accept [OF inv hold r(1)]
  show "complete_with_output p l s out = Some (res, q) \<Longrightarrow> waits_by_child q = waits_by_child p"
    by (auto simp: complete_with_output_def accept dest: waits_record_terminal)
  show "fail p l s f = Some (res, q) \<Longrightarrow> waits_by_child q = waits_by_child p"
    by (auto simp: fail_def accept dest: waits_record_terminal)
  show "cancel_task p l s = Some (res, q) \<Longrightarrow> waits_by_child q = waits_by_child p"
    by (auto simp: cancel_task_def accept same dest: waits_record_terminal)
qed

lemma settles_keeps_waiting:
  assumes "settles p k r' q" and "tab p j = Some r" and "status r = Waiting" and "j \<noteq> k"
  shows "tab q j = Some r"
proof -
  obtain E where "E \<subseteq> terminal_ids ((tab p)(k := Some r'))" "tab q = (tab p)(k := Some r') |` (- E)"
    using assms(1) unfolding settles_def by blast
  then show ?thesis using assms(2-4) by (auto simp: restrict_map_def terminal_ids_def is_terminal_status_def)
qed

text \<open>One call of the three that settle a running task, and what the waiting tasks see of it.\<close>

definition settling :: "'v task_pool \<Rightarrow> string \<Rightarrow> 'v task_pool \<Rightarrow> bool" where
  "settling p k q \<longleftrightarrow> waits_by_child q = waits_by_child p \<and>
     (\<forall>j r. tab p j = Some r \<longrightarrow> status r = Waiting \<longrightarrow> tab q j = Some r) \<and>
     (\<forall>r. tab q k = Some r \<longrightarrow> is_terminal_status (status r))"

lemma settling_calls:
  assumes inv: "pool_inv p" and hold: "holds_lease p l s"
  shows "\<exists>q. complete_with_output p l s out = Some (Inr (), q) \<and> settling p (lease_task_id l) q"
    and "\<exists>q. fail p l s f = Some (Inr (), q) \<and> settling p (lease_task_id l) q"
    and "\<exists>q. cancel_task p l s = Some (Inr (), q) \<and> settling p (lease_task_id l) q"
proof -
  obtain r where r: "tab p (lease_task_id l) = Some r" "status r = Running"
    using holds_leaseE [OF inv hold] by blast
  have settlingI: "settling p (lease_task_id l) q"
    if "settles p (lease_task_id l) r' q" "is_terminal_status (status r')" "waits_by_child q = waits_by_child p" for r' q
  proof -
    have "tab q (lease_task_id l) = Some r2 \<Longrightarrow> r2 = r'" for r2
      using that(1) by (auto simp: settles_def restrict_map_def split: if_splits)
    then show ?thesis
      unfolding settling_def using that settles_keeps_waiting [OF that(1)] r by fastforce
  qed
  have trm: "is_terminal_status (status (mark_terminal_record Completed None (r\<lparr>rec_output := out\<rparr>)))"
    "is_terminal_status (status (mark_terminal_record Failed (Some f) r))"
    "is_terminal_status (status (mark_terminal_record Cancelled None r))"
    by (simp_all add: mark_terminal_record_def clear_record_owner_def release_record_lease_def is_terminal_status_def)
  show "\<exists>q. complete_with_output p l s out = Some (Inr (), q) \<and> settling p (lease_task_id l) q"
    using complete_with_output_ok [OF inv hold r(1), of out] settlingI [OF _ trm(1)] waits_settled(1) [OF inv hold] by blast
  show "\<exists>q. fail p l s f = Some (Inr (), q) \<and> settling p (lease_task_id l) q"
    using fail_ok [OF inv hold r(1), of f] settlingI [OF _ trm(2)] waits_settled(2) [OF inv hold] by blast
  show "\<exists>q. cancel_task p l s = Some (Inr (), q) \<and> settling p (lease_task_id l) q"
    using cancel_task_ok [OF inv hold r(1)] settlingI [OF _ trm(3)] waits_settled(3) [OF inv hold] by blast
qed

lemma retain_waits_None: "fmlookup m c = None \<Longrightarrow> fmlookup (retain_waits keep k m) c = None"
  by (auto simp: retain_waits_def Let_def split: option.split)

lemma waits_gone_fold:
  "fmlookup (waits_by_child q) c = None \<Longrightarrow>
     fmlookup (waits_by_child (fold (\<lambda>w q. q\<lparr>waits_by_child := retain_waits keep (f w) (waits_by_child q)\<rparr>) ws q)) c = None"
  by (induction ws arbitrary: q) (simp_all add: retain_waits_None)

lemma waits_gone_wake:
  assumes "fmlookup (waits_by_child p) c = None"
  shows "fmlookup (waits_by_child (snd (wake p k s))) c = None"
proof (cases "tab p k")
  case (Some r)
  then show ?thesis
    using assms by (simp add: wake_def mutate_Some remove_waits_for_parent_def Let_def waits_gone_fold)
qed (simp add: wake_def mutate_None assms)

lemma wake_waits_effect:
  assumes "core_ok tv x rt" and "\<forall>w \<in> set ws. rt_task_status rt (parent_task_id w) \<in> {Some Waiting, Some Ready}"
    and "fmlookup (waits_by_child (rt_tasks rt)) c = None"
  shows "\<exists>m rt'. wake_waits child ws n rt = (Inr m, rt') \<and> fmlookup (waits_by_child (rt_tasks rt')) c = None \<and>
     (\<forall>w \<in> set ws. rt_task_status rt' (parent_task_id w) = Some Ready) \<and>
     (\<forall>k. rt_task_status rt k = Some Ready \<longrightarrow> rt_task_status rt' k = Some Ready) \<and>
     (\<forall>k. k \<notin> parent_task_id ` set ws \<longrightarrow> tab (rt_tasks rt') k = tab (rt_tasks rt) k)"
  using assms
proof (induction ws arbitrary: n rt)
  case (Cons w ws)
  let ?k = "parent_task_id w"
  show ?case
  proof (cases "rt_task_status rt ?k = Some Waiting")
    case False
    with Cons.prems(2) have "rt_task_status rt ?k = Some Ready" by simp
    then show ?thesis using Cons.IH [of rt n] Cons.prems by fastforce
  next
    case True
    then obtain r where r: "tab (rt_tasks rt) ?k = Some r" "status r = Waiting" by (auto simp: rt_task_status_def)
    obtain p where p: "wake (rt_tasks rt) ?k (current_step rt) = (Inr (), p)" "pool_inv p"
        "tab p = (tab (rt_tasks rt))(?k := Some (make_ready (current_step rt) r))"
      using wake_ok [OF core_ok_inv [OF Cons.prems(1)] r(1), of "current_step rt"] r(2) by auto
    define rt1 where "rt1 = emit KTask ''task.wake'' (Some ?k) (fmap_of_list [(''child_task_id'', SString child)]) None (rt\<lparr>rt_tasks := p\<rparr>)"
    have ok1: "core_ok tv x rt1"
      using runs_pool_calls(10) [OF Cons.prems(1), of ?k "current_step rt"] p(1) by (simp add: rt1_def in_pool_def)
    have tasks1: "rt_tasks rt1 = p" by (simp add: rt1_def emit_def)
    have st1: "rt_task_status rt1 k = (if k = ?k then Some Ready else rt_task_status rt k)" for k
      using p(3) by (simp add: rt_task_status_def tasks1 make_ready_def)
    have open1: "\<forall>w \<in> set ws. rt_task_status rt1 (parent_task_id w) \<in> {Some Waiting, Some Ready}"
      using Cons.prems(2) by (simp add: st1)
    have gone1: "fmlookup (waits_by_child (rt_tasks rt1)) c = None"
      using waits_gone_wake [OF Cons.prems(3), of ?k "current_step rt"] p(1) by (simp add: tasks1)
    have run: "wake_waits child (w # ws) n rt = wake_waits child ws (n + 1) rt1"
      by (simp add: True p(1) rt1_def)
    obtain m rt' where "wake_waits child ws (n + 1) rt1 = (Inr m, rt')" "fmlookup (waits_by_child (rt_tasks rt')) c = None"
        "\<forall>w \<in> set ws. rt_task_status rt' (parent_task_id w) = Some Ready"
        "\<forall>k. rt_task_status rt1 k = Some Ready \<longrightarrow> rt_task_status rt' k = Some Ready"
        "\<forall>k. k \<notin> parent_task_id ` set ws \<longrightarrow> tab (rt_tasks rt') k = tab (rt_tasks rt1) k"
      using Cons.IH [OF ok1 open1 gone1, of "n + 1"] by blast
    then show ?thesis unfolding run by (auto simp: st1 tasks1 p(3))
  qed
qed simp

lemma settle_wakes:
  assumes ok: "core_ok tv x rt"
    and waiting: "\<forall>w \<in> set (fm_get_or [] (waits_by_child (rt_tasks rt)) tid). rt_task_status rt (parent_task_id w) = Some Waiting"
    and trm: "\<And>r. tab (rt_tasks rt) tid = Some r \<Longrightarrow> is_terminal_status (status r)"
  shows "\<exists>rt'. settle tid name err rt = Some (Inr 1, rt') \<and> fmlookup (waits_by_child (rt_tasks rt')) tid = None \<and>
     (\<forall>w \<in> set (fm_get_or [] (waits_by_child (rt_tasks rt)) tid). rt_task_status rt' (parent_task_id w) = Some Ready) \<and>
     (\<forall>r. tab (rt_tasks rt') tid = Some r \<longrightarrow> is_terminal_status (status r))"
proof -
  define ws where "ws = fm_get_or [] (waits_by_child (rt_tasks rt)) tid"
  obtain q E where q: "take_waits_for_child (rt_tasks rt) tid = Some (ws, q)" "tab q = tab (rt_tasks rt) |` (- E)"
      "E \<subseteq> terminal_ids (tab (rt_tasks rt))" "tid \<notin> fmdom' (waits_by_child q)"
    using take_waits_for_child_ok [OF core_ok_inv [OF ok], of tid] unfolding ws_def by blast
  define rt1 where "rt1 = (record_task_terminal_event tid name err rt)\<lparr>rt_tasks := q\<rparr>"
  have t0: "rt_tasks (record_task_terminal_event tid name err rt) = rt_tasks rt"
    by (simp add: record_task_terminal_event_def emit_def)
  have ok1: "core_ok tv x rt1"
    using runs_pool_calls(17) [of tv x "record_task_terminal_event tid name err rt" tid] ok
    by (simp add: rt1_def in_pool_def t0 q(1))
  have open1: "\<forall>w \<in> set ws. rt_task_status rt1 (parent_task_id w) = Some Waiting"
    using waiting q(2,3) unfolding ws_def [symmetric]
    by (fastforce simp: rt1_def rt_task_status_def restrict_map_def terminal_ids_def is_terminal_status_def)
  have gone1: "fmlookup (waits_by_child (rt_tasks rt1)) tid = None"
    using q(4) by (simp add: rt1_def fmdom'_notI fmlookup_dom'_iff)
  have open2: "\<forall>w \<in> set ws. rt_task_status rt1 (parent_task_id w) \<in> {Some Waiting, Some Ready}"
    using open1 by simp
  obtain m rt' where rt': "wake_waits tid ws 0 rt1 = (Inr m, rt')" "fmlookup (waits_by_child (rt_tasks rt')) tid = None"
      "\<forall>w \<in> set ws. rt_task_status rt' (parent_task_id w) = Some Ready"
      "\<forall>k. k \<notin> parent_task_id ` set ws \<longrightarrow> tab (rt_tasks rt') k = tab (rt_tasks rt1) k"
    using wake_waits_effect [OF ok1 open2 gone1, of tid 0] by blast
  have "tid \<notin> parent_task_id ` set ws"
    using waiting trm unfolding ws_def [symmetric] by (fastforce simp: rt_task_status_def is_terminal_status_def)
  then have "\<forall>r. tab (rt_tasks rt') tid = Some r \<longrightarrow> is_terminal_status (status r)"
    using rt'(4) trm by (auto simp: rt1_def q(2) restrict_map_def split: if_splits)
  moreover have "settle tid name err rt = Some (Inr 1, rt')"
    by (simp add: settle_def wake_tasks_waiting_on_def t0 q(1) rt1_def [symmetric] rt'(1) and_then_def)
  ultimately show ?thesis using rt'(2,3) unfolding ws_def by blast
qed

lemma awaiting_parents:
  assumes "pool_inv p" and "w \<in> set (fm_get_or [] (waits_by_child p) c)"
  shows "\<exists>r. tab p (parent_task_id w) = Some r \<and> status r = Waiting"
proof -
  have wi: "wait_inv {} p" using assms(1) by (simp add: pool_inv_def)
  obtain cs where "fmlookup (waits_by_child p) c = Some cs" "w \<in> set cs"
    using assms(2) by (cases "fmlookup (waits_by_child p) c") (auto simp: fm_get_or_def)
  then have "fmlookup (waits_by_parent p) (parent_task_id w) = Some [w]"
    using wait_inv_child(5) [OF wi] by blast
  then show ?thesis using wait_inv_parent_record [OF wi fmdom'I] by simp
qed

lemma settling_then_wakes:
  assumes ok: "core_ok tv x rt" and ok': "core_ok tv x (rt\<lparr>rt_tasks := q\<rparr>)" and s: "settling (rt_tasks rt) tid q"
  shows "\<exists>rt'. settle tid name err (rt\<lparr>rt_tasks := q\<rparr>) = Some (Inr 1, rt') \<and>
     fmlookup (waits_by_child (rt_tasks rt')) tid = None \<and>
     (\<forall>w \<in> set (fm_get_or [] (waits_by_child (rt_tasks rt)) tid). rt_task_status rt' (parent_task_id w) = Some Ready) \<and>
     (\<forall>r. tab (rt_tasks rt') tid = Some r \<longrightarrow> is_terminal_status (status r))"
proof -
  have "rt_task_status (rt\<lparr>rt_tasks := q\<rparr>) (parent_task_id w) = Some Waiting"
    if "w \<in> set (fm_get_or [] (waits_by_child (rt_tasks rt)) tid)" for w
    using awaiting_parents [OF core_ok_inv [OF ok] that] s by (auto simp: settling_def rt_task_status_def)
  then show ?thesis
    using settle_wakes [OF ok', of tid name err] s by (simp add: settling_def)
qed

text \<open>
  C13. In a runtime whose pool is reachable, as that of every reachable runtime is: when the router
  commits a completed, failed or cancelled result under the lease the task holds, it counts one settled task, every task that awaited it is woken, that is \<open>Ready\<close> again, no
  await on the settled task is left behind, and the settled task is terminal.
\<close>

theorem settled_task_wakes_parents:
  assumes ok: "core_ok tv x rt" and "holds_lease (rt_tasks rt) l (current_step rt)" and "rr_task_id res = lease_task_id l"
    and "rr_status res = ResCompleted \<or> rr_status res = ResFailed \<or> rr_status res = ResCancelled"
  shows "\<exists>rt'. commit_result_status runner l res rt = Some (Inr 1, rt') \<and>
     fmlookup (waits_by_child (rt_tasks rt')) (lease_task_id l) = None \<and>
     (\<forall>w \<in> set (fm_get_or [] (waits_by_child (rt_tasks rt)) (lease_task_id l)).
        rt_task_status rt' (parent_task_id w) = Some Ready) \<and>
     (\<forall>r. fmlookup (tasks (rt_tasks rt')) (lease_task_id l) = Some r \<longrightarrow> is_terminal_status (status r))"
proof -
  note calls = settling_calls [OF core_ok_inv [OF ok] assms(2)]
  note wakes = settling_then_wakes [OF ok, of _ "lease_task_id l"]
  show ?thesis
    using assms(4)
  proof (elim disjE)
    assume "rr_status res = ResCompleted"
    with calls(1) [of "rr_output res"] runs_pool_calls(2) [OF ok, of l "current_step rt" "rr_output res"] assms(3)
    show ?thesis
      using wakes [of _ "''task.completed''" None] by (auto simp: commit_result_status_def in_pool_def and_then_def)
  next
    let ?err = "runtime_error_new ''runner.failed'' ''runtime.result_router'' (''runner.'' @ runner_id runner)"
    assume "rr_status res = ResFailed"
    with calls(2) [of ?err] runs_pool_calls(4) [OF ok, of l "current_step rt" ?err] assms(3)
    show ?thesis
      using wakes [of _ "''task.failed''" "Some ?err"] by (auto simp: commit_result_status_def in_pool_def and_then_def Let_def)
  next
    assume "rr_status res = ResCancelled"
    with calls(3) runs_pool_calls(5) [OF ok, of l "current_step rt"] assms(3)
    show ?thesis
      using wakes [of _ "''task.cancelled''" None] by (auto simp: commit_result_status_def in_pool_def and_then_def)
  qed
qed

text \<open>Task \<open>c\<close> awaits \<open>a\<close>, which has been claimed.\<close>

definition sample_child_pool :: "nat task_pool" where
  "sample_child_pool = run_calls sample_writer [Claim Pool_Properties.sample_runner ''e'' 0 0 1 None (Some 2)] sample_awaiting"

definition sample_child_lease :: task_lease where
  "sample_child_lease = Pool_Properties.sample_lease\<lparr>lease_id := ''task-lease-0-a-1'', lease_task_id := ''a''\<rparr>"

definition sample_parent :: "(nat runner_descriptor, nat runner_descriptor, nat) core_runtime" where
  "sample_parent = sample_boot\<lparr>rt_tasks := sample_child_pool, current_step := 1\<rparr>"

lemma sample_parent_ok: "core_ok sample_encode sample_externals sample_parent"
proof -
  have "pool_reach sample_writer sample_awaiting"
    unfolding sample_awaiting_def run_calls.simps by (intro reach_step sample_running_reach) simp
  then have "pool_reach sample_writer sample_child_pool"
    unfolding sample_child_pool_def run_calls.simps
    by (intro reach_step) (simp_all add: Pool_Properties.sample_runner_def)
  then show ?thesis
    using core_reach_ok [OF sample_boot_reach] unfolding sample_parent_def
    by (simp add: core_ok_def sample_externals_def)
qed

lemma sample_child_held: "holds_lease (rt_tasks sample_parent) sample_child_lease (current_step sample_parent)"
proof -
  have "map_option (\<lambda>r. lease r = Some sample_child_lease) (fmlookup (tasks sample_child_pool) ''a'') = Some True"
    by code_simp
  moreover have "\<not> task_lease_expired sample_child_lease 1" "lease_task_id sample_child_lease = ''a''"
    by code_simp+
  ultimately show ?thesis
    by (auto simp: holds_lease_def sample_parent_def)
qed

theorem settled_task_wakes_parents_witness:
  "\<exists>rt'. commit_result_status Pool_Properties.sample_runner sample_child_lease (runner_result_completed ''a'') sample_parent =
       Some (Inr 1, rt') \<and> rt_task_status rt' ''c'' = Some Ready"
proof -
  have "map parent_task_id (fm_get_or [] (waits_by_child sample_child_pool) ''a'') = [''c'']" by code_simp
  then obtain w where w: "w \<in> set (fm_get_or [] (waits_by_child (rt_tasks sample_parent)) ''a'')" "parent_task_id w = ''c''"
    by (auto simp: sample_parent_def)
  have res: "rr_task_id (runner_result_completed ''a'') = lease_task_id sample_child_lease"
    "rr_status (runner_result_completed ''a'') = ResCompleted" "lease_task_id sample_child_lease = ''a''"
    by (simp_all add: runner_result_completed_def sample_child_lease_def)
  show ?thesis
    using settled_task_wakes_parents [OF sample_parent_ok sample_child_held res(1) disjI1 [OF res(2)],
        of Pool_Properties.sample_runner] w unfolding res(3) by metis
qed

section \<open>Kernel tasks\<close>

text \<open>
  The kernel completes a \<open>core.commit\<close> or \<open>core.event.append\<close> task without resolving the awaits on
  it: a parent that awaits such a child stays \<open>Waiting\<close>, and its await stays recorded.
\<close>

theorem kernel_child_leaves_parent_waiting:
  assumes ok: "core_ok tv x rt" and run: "process_kernel_task x l t rt = Some (Inr (), rt')"
    and prot: "protocol_id t = ''core.commit'' \<or> protocol_id t = ''core.event.append''"
    and w: "w \<in> set (fm_get_or [] (waits_by_child (rt_tasks rt)) (task_id t))"
  shows "rt_task_status rt' (parent_task_id w) = Some Waiting \<and>
     w \<in> set (fm_get_or [] (waits_by_child (rt_tasks rt')) (task_id t))"
proof -
  have exI3: "kernel_done l rt1 = Some (Inr (), rt') \<Longrightarrow> rt_tasks rt1 = rt_tasks rt \<Longrightarrow> current_step rt1 = current_step rt \<Longrightarrow>
      \<exists>rt1. rt_tasks rt1 = rt_tasks rt \<and> current_step rt1 = current_step rt \<and> kernel_done l rt1 = Some (Inr (), rt')" for rt1
    by blast
  have "\<exists>rt1. rt_tasks rt1 = rt_tasks rt \<and> current_step rt1 = current_step rt \<and> kernel_done l rt1 = Some (Inr (), rt')"
    using run prot unfolding process_kernel_task_def
    by (auto simp: emit_def split: sum.splits prod.splits if_splits) (rule exI3, assumption, simp, simp)+
  then obtain rt1 where rt1: "rt_tasks rt1 = rt_tasks rt" "current_step rt1 = current_step rt"
    "kernel_done l rt1 = Some (Inr (), rt')" by blast
  then obtain q where q: "complete_with_output (rt_tasks rt) l (current_step rt) None = Some (Inr (), q)" "rt_tasks rt' = q"
    by (auto simp: kernel_done_def complete_def in_pool_def split: option.splits prod.splits)
  have hold: "holds_lease (rt_tasks rt) l (current_step rt)"
    using q(1) complete_with_output_reject [OF core_ok_inv [OF ok]] by fastforce
  have "settling (rt_tasks rt) (lease_task_id l) q"
    using settling_calls(1) [OF core_ok_inv [OF ok] hold, of None] q(1) by simp
  with awaiting_parents [OF core_ok_inv [OF ok] w] w q(2) show ?thesis
    by (auto simp: settling_def rt_task_status_def)
qed

section \<open>A failed dispose\<close>

text \<open>
  When a plugin of the old generation fails to dispose while a reload swaps registries, the reload
  returns the error with the registry already taken out: the runtime is left with no runner at all,
  neither the old nor the new ones.
\<close>

theorem failed_dispose_loses_registry:
  assumes "fst (x_dispose_all x (rt_registry rt)) = Inl e"
  shows "swap_registry x plan new_registry old_generation old_ids False rt =
     Some (Inl e, rt\<lparr>rt_registry := runner_registry_default\<rparr>) \<and>
     descriptor_snapshot (rt_registry (rt\<lparr>rt_registry := runner_registry_default\<rparr>)) = []"
  using assms
  by (cases "x_dispose_all x (rt_registry rt)")
    (simp add: swap_registry_def Let_def and_then_def runner_registry_default_def)

end
