(* ===== verification/Spec2Isabelle.thy ===== *)
theory Spec2Isabelle
  imports Claim_Properties History_Properties Log_Properties Resource_Properties Batch_Properties
    Registry_Properties Runtime_Properties
begin

text \<open>
  A verification development for the MutsukiCore runtime (\<open>src/crates\<close>).

  \<^bold>\<open>The program.\<close> The crate \<open>mutsuki-runtime-core\<close> is a scheduler for plugin work on a logical clock.
  Its \<open>CoreRuntime\<close> owns a task pool (submission, claiming, leases, awaits, terminal history), a
  registry of runners, a resource manager (descriptors, values, write leases, resource cells), a
  versioned state store, and bounded event and trace logs. A tick advances the clock, reclaims
  expired leases, wakes due tasks, rejects tasks with stale expectations, and claims a batch of
  work for every runner; a runner completes a batch, and the result router commits the status of each
  entry, derives the tasks it asks for, and wakes the tasks that await it. A reload compares the
  contract surfaces of two load plans and swaps the registries. The data types are those of
  \<open>mutsuki-runtime-contracts\<close>.

  \<^bold>\<open>Conventions.\<close> A \<open>u64\<close> is a 64 bit word (\<open>+\<close> wraps, \<open>sat_add\<close> and \<open>sat_sub\<close> saturate), a \<open>usize\<close>
  count a natural number with its saturation written out, an \<open>i64\<close> an integer. \<open>HashMap\<close> and
  \<open>BTreeMap\<close> are finite maps, iterated in ascending key order. A \<open>RuntimeResult\<close> is a sum with the
  error on the left; where the code can panic the result is an option and \<open>None\<close> is the panic. JSON
  values are a type parameter and \<open>serde_json\<close> is a parameter of the functions that call it. Runner and
  handler objects are type parameters; their trait methods are the fields of the record \<open>externals\<close>,
  which may return anything and change the object.

  \<^bold>\<open>The task pool\<close> (\<open>task_pool.rs\<close> and \<open>task_pool/\<close>).
  \<^item> \<open>Prelude\<close>: machine integers, decimal rendering, finite maps and lists. \<open>Contracts\<close>: the records
    and datatypes of the contracts crate that the core handles.
  \<^item> \<open>Bucket_Index\<close>: the index primitives of \<open>indexes.rs\<close>; the locales \<open>entry_index\<close> and
    \<open>count_index\<close> are the contracts of an index of entries and of an index of counts, and every
    index of the code interprets one of them. \<open>Task_Indexes\<close>: task records and the update of all
    indexes for one record.
  \<^item> \<open>Task_Pool\<close>, \<open>Task_Claim\<close>: the operations of the pool.
  \<^item> \<open>Pool_Invariant\<close>, \<open>Pool_Operations\<close>, \<open>Pool_Loops\<close>: the invariant of the pool, that every
    operation and every loop keeps it, and what each does to the table of records.
  \<^item> \<open>Claim_Order\<close>, \<open>Pool_Claim\<close>: claiming against a sort of the claimable records.
  \<^item> \<open>Pool_Machine\<close>: the pool as a state machine over its public calls, with the abstract life
    cycle of a task.
  \<^item> \<open>Pool_Properties\<close>: the pool never panics, its indexes equal a rebuild, its records follow the life
    cycle, and a lease settles its task at most once. \<open>Claim_Properties\<close>: claiming is a greedy pick
    from the sorted claimable tasks, within the budget. \<open>History_Properties\<close>: wake-ups, expiry, the next
    required step, statistics, retention, submission, abort and the await tables.

  \<^bold>\<open>Stores and logs.\<close> \<open>State_Store\<close> (\<open>state_store.rs\<close>, \<open>id.rs\<close>): no update is lost, and issued ids differ.
  \<open>Observability\<close>, \<open>Log_Properties\<close> (\<open>logs.rs\<close>, \<open>trace.rs\<close>): the logs account for every record, pages
  are complete and report loss, and trace closure reports exactly the defects. The locales
  \<open>sequenced_log\<close> and \<open>id_allocator\<close> are their contracts.

  \<^bold>\<open>Resources.\<close> \<open>Resource_Manager\<close>, \<open>Resource_Properties\<close> (\<open>resource_manager.rs\<close> and its modules): the
  manager as a state machine; exclusive leases exclude, write leases block other writers, packed
  values read back, descriptors never go back, and the occupancy report counts (locale
  \<open>counter_table\<close>).

  \<^bold>\<open>Registry and batches.\<close> \<open>Plugin_Contracts\<close>, \<open>Registry\<close>, \<open>Registry_Properties\<close> (\<open>registry.rs\<close>): the registry
  as a state machine, its well-formedness, the checks of a load plan and the reload decision.
  \<open>Dispatch_Batch\<close>, \<open>Batch_Properties\<close> (\<open>scheduler.rs\<close>, \<open>runner_loop/batch.rs\<close>): decisions, batches and
  resource plans; conflicting writers are separated.

  \<^bold>\<open>The runtime.\<close> \<open>Runtime_State\<close> (\<open>runtime.rs\<close>, \<open>runner.rs\<close>) holds the state of \<open>CoreRuntime\<close>, boot, drain,
  abort and the checks its methods share; \<open>Runtime_Tasks\<close> the methods of \<open>task_api.rs\<close>; \<open>Runtime_Results\<close>
  the routers, failure reporting and kernel tasks of \<open>runner_loop/\<close>; \<open>Runtime_Loop\<close> ticks, dispatches and
  the inline executor; \<open>Runtime_Reload\<close> reload, invocation cancelling, draining generations and the
  methods of \<open>resource_api.rs\<close>. A method is a function from a runtime to an optional pair of a result and
  a runtime, and \<open>and_then\<close> is the operator \<open>?\<close>: an error keeps the changes made before it.
  \<open>Runtime_Invariant\<close> runs the public methods as the calls of a state machine (\<open>core_call\<close>, \<open>core_reach\<close>)
  and proves that each returns and leaves the pool, the manager and the registry reachable by their own
  calls, so that the component properties hold inside every reachable runtime.
  \<open>Runtime_Properties\<close>: methods return, a completion under leases that are gone is fenced off, and
  settling a task wakes the tasks that await it.

  \<^bold>\<open>Bounds.\<close> The loops of the code are structurally recursive or have a termination proof, with one
  exception: cancelling a task calls itself on awaited children and carries as fuel one more than the
  number of stored tasks. Each turn makes one more task terminal, so the fuel is never used up; that is
  part of the proof that cancelling returns. Claiming assumes that a runner lists each accepted protocol
  once, as its registration ensures. The state of a scheduler callback is a natural number in
  \<open>core_reach\<close>; the methods themselves take a callback with any state.

  \<^bold>\<open>Not modelled.\<close> The host crate: worker threads, channels, timers, transports, processes and plugin
  loading are input and output around the calls modelled here, and its resolver hashes serialised
  manifests; the core checks the load plan that the resolver hands it, and those checks are modelled.
  The wire crate and the SDK: serde encodings, foreign function glue and generated code. The contract
  types that only hosts read, the macros, and the benchmarks. Within the core: memory estimates, and the
  isolation and termination handles of runners, which only a host uses.
\<close>

end
